(* ===== verification/Prelude.thy ===== *)
theory Prelude
  imports Main "HOL-Library.Word" "HOL-Library.Monad_Syntax" "HOL-Library.AList_Mapping"
begin

text \<open>
  Shared vocabulary of the development: the machine-integer types of the Rust sources, Rust's
  \<^verbatim>\<open>Result\<close>, the effects a Rust computation may have besides returning (a panic, or never
  returning), overflow-checked arithmetic, reachable states of a transition system with the
  interface locale that every state machine of the development interprets, and generic lemmas
  on lists and finite mappings.

  Overflow. Rust arithmetic on fixed-width integers panics on overflow when overflow checks are
  on and wraps when they are off; an over-long shift panics or masks its amount. The checked
  operations below take the first reading and return \<^term>\<open>None\<close> for the panic. The lemmas of the
  components show where no such panic can happen; there the two readings agree.
\<close>

section \<open>Machine integers\<close>

type_synonym u8 = "8 word"
type_synonym u16 = "16 word"
type_synonym u32 = "32 word"
type_synonym u64 = "64 word"
type_synonym usize = nat
type_synonym bytes = "u8 list"

section \<open>Rust results\<close>

type_synonym ('a, 'e) result = "'e + 'a"

abbreviation Ok :: "'a \<Rightarrow> ('a, 'e) result" where
  "Ok \<equiv> Inr"

abbreviation Err :: "'e \<Rightarrow> ('a, 'e) result" where
  "Err \<equiv> Inl"

named_theorems result_simps "evaluation rules of the result and panic combinators"
named_theorems checked_simps "when the overflow-checked operations return"

fun and_then :: "('a, 'e) result \<Rightarrow> ('a \<Rightarrow> ('b, 'e) result) \<Rightarrow> ('b, 'e) result" where
  "and_then (Inl e) f = Err e"
| "and_then (Inr a) f = f a"

fun map_err :: "('e \<Rightarrow> 'f) \<Rightarrow> ('a, 'e) result \<Rightarrow> ('a, 'f) result" where
  "map_err g (Inl e) = Err (g e)"
| "map_err g (Inr a) = Ok a"

fun ok_or :: "'a option \<Rightarrow> 'e \<Rightarrow> ('a, 'e) result" where
  "ok_or None e = Err e"
| "ok_or (Some a) e = Ok a"

fun result_ok :: "('a, 'e) result \<Rightarrow> 'a option" where
  "result_ok (Inl e) = None"
| "result_ok (Inr a) = Some a"

fun is_ok :: "('a, 'e) result \<Rightarrow> bool" where
  "is_ok (Inl e) = False"
| "is_ok (Inr a) = True"

section \<open>Panics\<close>

text \<open>A computation that may panic is an option, \<^term>\<open>None\<close> being the panic.
  \<open>try_bind\<close> is Rust's question-mark operator inside such a computation.\<close>

type_synonym 'a panics = "'a option"

fun try_bind :: "('a, 'e) result panics \<Rightarrow> ('a \<Rightarrow> ('b, 'e) result panics) \<Rightarrow> ('b, 'e) result panics" where
  "try_bind None f = None"
| "try_bind (Some (Inl e)) f = Some (Err e)"
| "try_bind (Some (Inr a)) f = f a"

text \<open>A whole run: it may loop for ever, panic, or return.\<close>

datatype 'a run = Diverges | Panics | Returns 'a

text \<open>What a poll of an asynchronous operation gives.\<close>

datatype 'e poll = Pending | Ready 'e


fun run_of :: "'a option \<Rightarrow> 'a run" where
  "run_of None = Diverges"
| "run_of (Some a) = Returns a"

lemma is_ok_iff: "is_ok r \<longleftrightarrow> (\<exists>a. r = Ok a)"
  by (cases r) auto

lemma not_ok_iff: "\<not> is_ok r \<longleftrightarrow> (\<exists>e. r = Err e)"
  by (cases r) auto

lemma and_then_Ok_iff [result_simps]:
  "and_then r f = Ok b \<longleftrightarrow> (\<exists>a. r = Ok a \<and> f a = Ok b)"
  by (cases r) auto

lemma and_then_Err_iff [result_simps]:
  "and_then r f = Err e \<longleftrightarrow> r = Err e \<or> (\<exists>a. r = Ok a \<and> f a = Err e)"
  by (cases r) auto

lemma map_err_Ok_iff [result_simps]: "map_err g r = Ok a \<longleftrightarrow> r = Ok a"
  by (cases r) auto

lemma map_err_Err_iff [result_simps]: "map_err g r = Err f \<longleftrightarrow> (\<exists>e. r = Err e \<and> f = g e)"
  by (cases r) auto

lemma ok_or_Ok_iff [result_simps]: "ok_or x e = Ok a \<longleftrightarrow> x = Some a"
  by (cases x) auto

lemma ok_or_Err_iff [result_simps]: "ok_or x e = Err f \<longleftrightarrow> x = None \<and> f = e"
  by (cases x) auto

lemma result_ok_Some_iff [result_simps]: "result_ok r = Some a \<longleftrightarrow> r = Ok a"
  by (cases r) auto

lemma try_bind_Ok_iff [result_simps]:
  "try_bind m f = Some (Ok b) \<longleftrightarrow> (\<exists>a. m = Some (Ok a) \<and> f a = Some (Ok b))"
  by (cases "(m, f)" rule: try_bind.cases) auto

lemma try_bind_Err_iff [result_simps]:
  "try_bind m f = Some (Err e) \<longleftrightarrow>
     m = Some (Err e) \<or> (\<exists>a. m = Some (Ok a) \<and> f a = Some (Err e))"
  by (cases "(m, f)" rule: try_bind.cases) auto

lemma try_bind_None_iff [result_simps]:
  "try_bind m f = None \<longleftrightarrow> m = None \<or> (\<exists>a. m = Some (Ok a) \<and> f a = None)"
  by (cases "(m, f)" rule: try_bind.cases) auto

lemma run_of_Returns_iff [result_simps]: "run_of x = Returns a \<longleftrightarrow> x = Some a"
  by (cases x) auto

lemma run_of_neq_Panics [simp]: "run_of x \<noteq> Panics"
  by (cases x) auto

lemma those_Some_iff: "those xs = Some ys \<longleftrightarrow> xs = map Some ys"
proof (induction xs arbitrary: ys)
  case (Cons x xs)
  then show ?case by (cases ys; cases x) auto
qed auto

section \<open>Overflow-checked arithmetic\<close>

definition shr_u64 :: "u64 \<Rightarrow> nat \<Rightarrow> u64 panics" where
  "shr_u64 x n = (if n < 64 then Some (drop_bit n x) else None)"

definition add_u64 :: "u64 \<Rightarrow> u64 \<Rightarrow> u64 panics" where
  "add_u64 a b = (if unat a + unat b < 2 ^ 64 then Some (a + b) else None)"

definition mul_u64 :: "u64 \<Rightarrow> u64 \<Rightarrow> u64 panics" where
  "mul_u64 a b = (if unat a * unat b < 2 ^ 64 then Some (a * b) else None)"

definition sub_usize :: "usize \<Rightarrow> usize \<Rightarrow> usize panics" where
  "sub_usize a b = (if b \<le> a then Some (a - b) else None)"

definition saturating_sub_u32 :: "u32 \<Rightarrow> u32 \<Rightarrow> u32" where
  "saturating_sub_u32 a b = (if b \<le> a then a - b else 0)"

definition div_ceil_u64 :: "u64 \<Rightarrow> u64 \<Rightarrow> u64" where
  "div_ceil_u64 a b = (let q = a div b; r = a mod b in if 0 < r then q + 1 else q)"

lemma shr_u64_Some [checked_simps]: "n < 64 \<Longrightarrow> shr_u64 x n = Some (drop_bit n x)"
  by (simp add: shr_u64_def)

lemma shr_u64_None_iff [checked_simps]: "shr_u64 x n = None \<longleftrightarrow> 64 \<le> n"
  by (auto simp: shr_u64_def)

text \<open>A build without overflow checks, such as a release build, wraps around instead of panicking; there the
  width of a shift counts modulo 64. The first argument says whether the build has the checks.\<close>

fun or_wrap :: "bool \<Rightarrow> 'a panics \<Rightarrow> 'a \<Rightarrow> 'a panics" where
  "or_wrap checks (Some x) w = Some x"
| "or_wrap checks None w = (if checks then None else Some w)"

definition shr_u64_in :: "bool \<Rightarrow> u64 \<Rightarrow> nat \<Rightarrow> u64 panics" where
  "shr_u64_in checks x n = or_wrap checks (shr_u64 x n) (drop_bit (n mod 64) x)"

definition add_u64_in :: "bool \<Rightarrow> u64 \<Rightarrow> u64 \<Rightarrow> u64 panics" where
  "add_u64_in checks a b = or_wrap checks (add_u64 a b) (a + b)"

definition mul_u64_in :: "bool \<Rightarrow> u64 \<Rightarrow> u64 \<Rightarrow> u64 panics" where
  "mul_u64_in checks a b = or_wrap checks (mul_u64 a b) (a * b)"

definition sub_usize_in :: "bool \<Rightarrow> usize \<Rightarrow> usize \<Rightarrow> usize panics" where
  "sub_usize_in checks a b = or_wrap checks (sub_usize a b) (unat (of_nat a - of_nat b :: u64))"

lemma shr_u64_in_Some [checked_simps]: "n < 64 \<Longrightarrow> shr_u64_in checks x n = Some (drop_bit n x)"
  by (simp add: shr_u64_in_def shr_u64_def)

lemma shr_u64_in_panics [checked_simps]: "checks \<Longrightarrow> 64 \<le> n \<Longrightarrow> shr_u64_in checks x n = None"
  by (simp add: shr_u64_in_def shr_u64_def)

lemma shr_u64_in_masks [checked_simps]: "\<not> checks \<Longrightarrow> shr_u64_in checks x n = Some (drop_bit (n mod 64) x)"
  by (simp add: shr_u64_in_def shr_u64_def)

lemma sub_usize_in_Some [checked_simps]: "b \<le> a \<Longrightarrow> sub_usize_in checks a b = Some (a - b)"
  by (simp add: sub_usize_in_def sub_usize_def)

lemma add_u64_in_Some [checked_simps]: "add_u64 a b = Some c \<Longrightarrow> add_u64_in checks a b = Some c"
  by (simp add: add_u64_in_def)

lemma mul_u64_in_Some [checked_simps]: "mul_u64 a b = Some c \<Longrightarrow> mul_u64_in checks a b = Some c"
  by (simp add: mul_u64_in_def)

lemma unat_drop_bit: "unat (drop_bit n (x :: 'a::len word)) = unat x div 2 ^ n"
  by (simp add: unat_drop_bit_eq flip: drop_bit_eq_div)

lemma add_u64_Some_unat: "add_u64 a b = Some c \<Longrightarrow> unat c = unat a + unat b"
  by (auto simp: add_u64_def unat_word_ariths split: if_splits)

lemma mul_u64_Some_unat: "mul_u64 a b = Some c \<Longrightarrow> unat c = unat a * unat b"
  by (auto simp: mul_u64_def unat_word_ariths split: if_splits)

lemma add_u64_None_iff [checked_simps]: "add_u64 a b = None \<longleftrightarrow> 2 ^ 64 \<le> unat a + unat b"
  by (auto simp: add_u64_def)

lemma mul_u64_None_iff [checked_simps]: "mul_u64 a b = None \<longleftrightarrow> 2 ^ 64 \<le> unat a * unat b"
  by (auto simp: mul_u64_def)

lemma unat_saturating_sub_u32: "unat (saturating_sub_u32 a b) = unat a - unat b"
  by (auto simp: saturating_sub_u32_def unat_sub_if' word_le_nat_alt)

text \<open>The range \<^verbatim>\<open>a..b\<close> of \<^verbatim>\<open>u64\<close> values.\<close>

definition u64_range :: "u64 \<Rightarrow> u64 \<Rightarrow> u64 list" where
  "u64_range a b = map of_nat [unat a..<unat b]"

lemma unat_u64_less: "unat (x :: u64) < 2 ^ 64"
  by (rule order_less_le_trans [OF unsigned_less]) simp

lemma unat_of_nat_u64: "n < 2 ^ 64 \<Longrightarrow> unat (of_nat n :: u64) = n"
  by (simp add: unat_of_nat)

lemma bit_u64_div: "bit (x :: u64) k \<longleftrightarrow> odd (unat x div 2 ^ k)"
proof -
  have "bit (unat x) k \<longleftrightarrow> odd (unat x div 2 ^ k)" by (rule bit_iff_odd)
  then show ?thesis by (simp add: bit_unsigned_iff)
qed

lemma ceil_div_nat:
  assumes "0 < (b :: nat)"
  shows "(a + b - 1) div b = (if 0 < a mod b then Suc (a div b) else a div b)"
proof -
  define q r where "q = a div b" and "r = a mod b"
  have a: "a = r + q * b" by (simp add: q_def r_def)
  have r: "r < b" using assms by (simp add: r_def)
  show ?thesis
  proof (cases "0 < r")
    case True
    then have "a + b - 1 = (r - 1) + Suc q * b" using a by simp
    then have "(a + b - 1) div b = Suc q + (r - 1) div b" using assms by (simp only: div_mult_self1)
    then show ?thesis using r True by (simp add: q_def r_def)
  next
    case False
    then have "a + b - 1 = (b - 1) + q * b" using a assms by simp
    then have "(a + b - 1) div b = q + (b - 1) div b" using assms by (simp only: div_mult_self1)
    then show ?thesis using assms False by (simp add: q_def r_def)
  qed
qed

lemma unat_div_ceil_u64:
  assumes "0 < unat b"
  shows "unat (div_ceil_u64 a b) = (unat a + unat b - 1) div unat b"
proof (cases "0 < unat a mod unat b")
  case True
  then have "unat b \<noteq> 1" by auto
  then have "1 < unat b" using assms by linarith
  moreover have "0 < unat a" using True by (metis mod_0 not_gr_zero)
  ultimately have "Suc (unat a div unat b) \<le> unat a" by (simp add: Suc_leI)
  then have "Suc (unat a div unat b) < 2 ^ 64" using unat_u64_less [of a] by simp
  then have "unat (a div b + 1) = Suc (unat a div unat b)" by (simp add: unat_word_ariths unat_div)
  then show ?thesis
    using True ceil_div_nat [OF assms, of "unat a"] by (simp add: div_ceil_u64_def Let_def word_less_nat_alt unat_mod)
next
  case False
  then show ?thesis
    using ceil_div_nat [OF assms, of "unat a"]
    by (simp add: div_ceil_u64_def Let_def word_less_nat_alt unat_div unat_mod)
qed

section \<open>Numbers in messages\<close>

fun show_nat :: "nat \<Rightarrow> string" where
  "show_nat n = (if n < 10 then [char_of (48 + n)] else show_nat (n div 10) @ [char_of (48 + n mod 10)])"

declare show_nat.simps [simp del]

section \<open>Reachable states and safety\<close>

inductive reachable :: "('s \<Rightarrow> bool) \<Rightarrow> ('s \<Rightarrow> 's \<Rightarrow> bool) \<Rightarrow> 's \<Rightarrow> bool"
  for start :: "'s \<Rightarrow> bool" and step :: "'s \<Rightarrow> 's \<Rightarrow> bool"
where
  reach_start: "start s \<Longrightarrow> reachable start step s"
| reach_step: "reachable start step s \<Longrightarrow> step s t \<Longrightarrow> reachable start step t"

lemma reachable_steps: "step\<^sup>*\<^sup>* s t \<Longrightarrow> start s \<Longrightarrow> reachable start step t"
  by (induction rule: rtranclp_induct) (auto intro: reachable.intros)

text \<open>The contract every state machine of the development fulfils: its start states satisfy the
  invariant and its steps keep it. What a client gets from it is that every reachable state
  satisfies the invariant and everything the invariant implies.\<close>

locale safe_machine =
  fixes start :: "'s \<Rightarrow> bool"
    and step :: "'s \<Rightarrow> 's \<Rightarrow> bool"
    and inv :: "'s \<Rightarrow> bool"
  assumes start_inv: "start s \<Longrightarrow> inv s"
    and step_inv: "inv s \<Longrightarrow> step s t \<Longrightarrow> inv t"
begin

lemma reachable_inv:
  assumes "reachable start step s"
  shows "inv s"
  using assms by induction (auto intro: start_inv step_inv)

lemma reachable_safe:
  assumes "reachable start step s" and "\<And>s. inv s \<Longrightarrow> good s"
  shows "good s"
  using assms(2) reachable_inv [OF assms(1)] .

end

text \<open>A machine whose steps use up some work and that can go on until it is done: every state that
  satisfies the invariant leads to an end, and no run goes on for ever.\<close>

locale finishing_machine = safe_machine +
  fixes final :: "'a \<Rightarrow> bool"
    and work :: "'a \<Rightarrow> nat"
  assumes step_work: "inv s \<Longrightarrow> step s t \<Longrightarrow> work t < work s"
    and progress: "inv s \<Longrightarrow> \<not> final s \<Longrightarrow> \<exists>t. step s t"
begin

lemma finishes: "inv s \<Longrightarrow> \<exists>t. step\<^sup>*\<^sup>* s t \<and> final t \<and> inv t"
proof (induction "work s" arbitrary: s rule: less_induct)
  case less
  show ?case
  proof (cases "final s")
    case False
    then obtain t where t: "step s t" using progress less.prems by blast
    then have "\<exists>u. step\<^sup>*\<^sup>* t u \<and> final u \<and> inv u"
      using less.hyps [OF step_work] step_inv less.prems by blast
    then show ?thesis using t by (meson converse_rtranclp_into_rtranclp)
  qed (use less.prems in blast)
qed

lemma no_endless_run:
  assumes "inv (f 0)"
  shows "\<not> (\<forall>n. step (f n) (f (Suc n)))"
proof
  assume run: "\<forall>n. step (f n) (f (Suc n))"
  have inv: "inv (f n)" for n by (induction n) (use assms run step_inv in blast)+
  then have less: "work (f (Suc n)) < work (f n)" for n using step_work run by blast
  have "work (f n) + n \<le> work (f 0)" for n
  proof (induction n)
    case (Suc n)
    then show ?case using less [of n] by simp
  qed simp
  from this [of "Suc (work (f 0))"] show False by simp
qed

end

section \<open>Queues\<close>

text \<open>Polling a queue up to \<open>n\<close> times, until it has nothing.\<close>

fun pops :: "('q \<Rightarrow> 'a poll \<times> 'q) \<Rightarrow> nat \<Rightarrow> 'q \<Rightarrow> 'a list \<times> 'q" where
  "pops pop 0 q = ([], q)"
| "pops pop (Suc n) q =
     (case pop q of
        (Pending, q') \<Rightarrow> ([], q')
      | (Ready x, q') \<Rightarrow> (let (xs, q'') = pops pop n q' in (x # xs, q'')))"

text \<open>What the deques and the channel of the sources promise: first in, first out. The invariant says
  when the consumer may poll.\<close>

locale fifo =
  fixes contents :: "'q \<Rightarrow> 'a list"
    and push :: "'a \<Rightarrow> 'q \<Rightarrow> 'q"
    and pop :: "'q \<Rightarrow> 'a poll \<times> 'q"
    and pollable :: "'q \<Rightarrow> bool"
  assumes contents_push: "contents (push x q) = contents q @ [x]"
    and pollable_push: "pollable q \<Longrightarrow> pollable (push x q)"
    and pop_empty: "pollable q \<Longrightarrow> contents q = [] \<Longrightarrow> pop q = (Pending, q)"
    and pop_next: "pollable q \<Longrightarrow> contents q = x # xs \<Longrightarrow> \<exists>q'. pop q = (Ready x, q') \<and> contents q' = xs \<and> pollable q'"
begin

lemma contents_pushes: "contents (fold push xs q) = contents q @ xs"
  by (induction xs arbitrary: q) (simp_all add: contents_push)

lemma pollable_pushes: "pollable q \<Longrightarrow> pollable (fold push xs q)"
  by (induction xs arbitrary: q) (simp_all add: pollable_push)

lemma pops_take:
  "pollable q \<Longrightarrow> fst (pops pop n q) = take n (contents q) \<and> contents (snd (pops pop n q)) = drop n (contents q)"
proof (induction n arbitrary: q)
  case (Suc n)
  show ?case
  proof (cases "contents q")
    case Nil
    then show ?thesis using pop_empty [OF Suc.prems] by simp
  next
    case (Cons x xs)
    then obtain q' where "pop q = (Ready x, q')" "contents q' = xs" "pollable q'" using pop_next [OF Suc.prems] by blast
    then show ?thesis using Suc.IH [of q'] Cons by (auto split: prod.split)
  qed
qed simp

text \<open>Everything put in comes out, in order, once enough polls are made.\<close>

lemma pushes_then_pops:
  assumes "pollable q" and "length (contents q) + length xs \<le> n"
  shows "fst (pops pop n (fold push xs q)) = contents q @ xs"
  using pops_take [OF pollable_pushes [OF assms(1)], of n xs] assms(2) by (simp add: contents_pushes)

end

section \<open>Lists and mappings\<close>

lemma distinct_length_card_keys:
  assumes "distinct ks" and "set ks = Mapping.keys m"
  shows "Mapping.size m = length ks"
  using assms by (simp add: Mapping.size_def flip: distinct_card)

lemma keys_lookup_iff: "k \<in> Mapping.keys m \<longleftrightarrow> (\<exists>v. Mapping.lookup m k = Some v)"
  by (auto simp: Mapping.keys_dom_lookup)

lemma lookup_None_iff: "Mapping.lookup m k = None \<longleftrightarrow> k \<notin> Mapping.keys m"
  by (auto simp: Mapping.keys_dom_lookup)

end
