(* ===== verification/Block.thy ===== *)
theory Block
  imports Prelude
begin

text \<open>
  The block data the sources read. The types come from the external crate
  \<^verbatim>\<open>mina-p2p-messages\<close>; the records below keep the nesting and the names of the fields that
  \<^verbatim>\<open>src/crates\<close> mentions, and put the fields nobody reads into opaque \<open>_other\<close> components.

  Type variables stand for external types: \<open>'h\<close> for hash values (\<^verbatim>\<open>StateHash\<close> and
  \<^verbatim>\<open>LedgerHash\<close>), \<open>'p\<close> for the SNARK proof, \<open>'x\<close> for everything opaque.
\<close>

section \<open>Protocol state\<close>

record ('h, 'x) epoch_ledger =
  ledger_hash :: 'h
  el_other :: 'x

record ('h, 'x) epoch_data =
  epoch_ledger :: "('h, 'x) epoch_ledger"
  ed_other :: 'x

record ('h, 'x) consensus_state =
  blockchain_length :: u32
  staking_epoch_data :: "('h, 'x) epoch_data"
  next_epoch_data :: "('h, 'x) epoch_data"
  cs_other :: 'x

record ('h, 'x) non_snark =
  staged_root :: 'h
  ns_other :: 'x

record ('h, 'x) staged_ledger =
  non_snark :: "('h, 'x) non_snark"
  sl_other :: 'x

record ('h, 'x) blockchain_state =
  staged_ledger_hash :: "('h, 'x) staged_ledger"
  bs_other :: 'x

record ('h, 'x) protocol_state_body =
  consensus_state :: "('h, 'x) consensus_state"
  blockchain_state :: "('h, 'x) blockchain_state"
  psb_other :: 'x

record ('h, 'x) protocol_state =
  previous_state_hash :: 'h
  ps_body :: "('h, 'x) protocol_state_body"

section \<open>Headers and blocks\<close>

record protocol_version =
  pv_transaction :: u64
  pv_network :: u64
  pv_patch :: u64

record ('h, 'p, 'x) header =
  protocol_state :: "('h, 'x) protocol_state"
  protocol_state_proof :: 'p
  delta_block_chain_proof :: "'h \<times> 'h list"
  current_protocol_version :: protocol_version
  proposed_protocol_version_opt :: "protocol_version option"

record ('h, 'p, 'x) block =
  block_header :: "('h, 'p, 'x) header"
  block_body :: 'x

abbreviation header_consensus :: "('h, 'p, 'x) header \<Rightarrow> ('h, 'x) consensus_state" where
  "header_consensus h \<equiv> consensus_state (ps_body (protocol_state h))"

abbreviation header_staged_root :: "('h, 'p, 'x) header \<Rightarrow> 'h" where
  "header_staged_root h \<equiv>
     staged_root (non_snark (staged_ledger_hash (blockchain_state (ps_body (protocol_state h)))))"

end
