(* ===== verification/VerifierIndex.thy ===== *)
theory VerifierIndex
  imports Prelude "HOL-Library.Multiset"
begin

text \<open>
  \<^verbatim>\<open>src/crates/mina-verify/src/verifier_index.rs\<close>: parsing a blockchain verifier index and
  finalizing it. The kimchi functions it calls are the fields of \<open>kimchi_env\<close>, a parameter of
  the definitions; \<open>'c\<close> is kimchi's ordered column type and \<open>'x\<close> stands for kimchi's other
  types. The lemmas show that finalization recomputes every derived field from the domain, the
  polynomial size and the number of zero-knowledge rows, so that nothing a supplied JSON says
  about a derived field survives, that it is idempotent, and that it sorts the linearization.
\<close>

section \<open>Data\<close>

record lookup_patterns =
  lp_xor :: bool
  lp_lookup :: bool
  lp_range_check :: bool
  lp_foreign_field_mul :: bool

record lookup_features =
  patterns :: lookup_patterns
  joint_lookup_used :: bool
  uses_runtime_tables :: bool

record feature_flags =
  range_check0 :: bool
  range_check1 :: bool
  foreign_field_add :: bool
  foreign_field_mul :: bool
  ff_xor :: bool
  ff_rot :: bool
  lookup_features :: lookup_features

record ('c, 'x) linearization =
  constant_term :: 'x
  index_terms :: "('c \<times> 'x) list"

record ('c, 'x) verifier_index =
  domain :: 'x
  max_poly_size :: usize
  zk_rows :: u64
  vi_commitments :: 'x
  srs :: 'x
  permutation_vanishing_polynomial_m :: 'x
  vi_w :: 'x
  endo :: 'x
  linearization :: "('c, 'x) linearization"
  powers_of_alpha :: 'x

text \<open>The external functions: \<open>parse_index\<close> is \<^verbatim>\<open>serde_json::from_str\<close> at this type, an
  error carrying its message; \<open>with_lagrange_basis\<close> is the SRS after
  \<^verbatim>\<open>get_lagrange_basis\<close> has filled its cache.\<close>

record ('c, 'x) kimchi_env =
  parse_index :: "string \<Rightarrow> (('c, 'x) verifier_index, string) result"
  endos :: "'x \<times> 'x"
  expr_linearization :: "feature_flags option \<Rightarrow> bool \<Rightarrow> ('c, 'x) linearization \<times> 'x"
  srs_create :: "usize \<Rightarrow> 'x"
  with_lagrange_basis :: "'x \<Rightarrow> 'x \<Rightarrow> 'x"
  permutation_vanishing_polynomial :: "'x \<Rightarrow> u64 \<Rightarrow> 'x"
  zk_w :: "'x \<Rightarrow> u64 \<Rightarrow> 'x"

section \<open>Operations\<close>

definition no_features :: feature_flags where
  "no_features =
     \<lparr>range_check0 = False, range_check1 = False, foreign_field_add = False,
      foreign_field_mul = False, ff_xor = False, ff_rot = False,
      lookup_features =
        \<lparr>patterns =
           \<lparr>lp_xor = False, lp_lookup = False, lp_range_check = False,
            lp_foreign_field_mul = False\<rparr>,
         joint_lookup_used = False, uses_runtime_tables = False\<rparr>\<rparr>"

definition finalize ::
  "('c::linorder, 'x) kimchi_env \<Rightarrow> ('c, 'x) verifier_index \<Rightarrow> ('c, 'x) verifier_index" where
  "finalize K index =
     (let dom = domain index;
          size = max_poly_size index;
          (e, _) = endos K;
          (lin, alphas) = expr_linearization K (Some no_features) True;
          lin' = \<lparr>constant_term = constant_term lin,
                  index_terms = sort_key fst (index_terms lin)\<rparr>;
          s = with_lagrange_basis K (srs_create K size) dom;
          m = permutation_vanishing_polynomial K dom (zk_rows index);
          w = zk_w K dom (zk_rows index)
      in index\<lparr>srs := s, permutation_vanishing_polynomial_m := m, vi_w := w, endo := e,
               linearization := lin', powers_of_alpha := alphas\<rparr>)"

definition verifier_index_from_json ::
  "('c::linorder, 'x) kimchi_env \<Rightarrow> string \<Rightarrow> (('c, 'x) verifier_index, string) result" where
  "verifier_index_from_json K json =
     and_then (parse_index K json) (\<lambda>index. Ok (finalize K index))"

section \<open>Lemmas\<close>

lemma finalize_frame [simp]:
  "domain (finalize K i) = domain i"
  "max_poly_size (finalize K i) = max_poly_size i"
  "zk_rows (finalize K i) = zk_rows i"
  "vi_commitments (finalize K i) = vi_commitments i"
  by (simp_all add: finalize_def Let_def split: prod.split)

lemma finalize_cong:
  assumes "domain i = domain j" and "max_poly_size i = max_poly_size j"
    and "zk_rows i = zk_rows j" and "vi_commitments i = vi_commitments j"
  shows "finalize K i = finalize K j"
  using assms by (cases i; cases j) (simp add: finalize_def Let_def split: prod.split)

lemma finalize_index_terms:
  "sorted (map fst (index_terms (linearization (finalize K i)))) \<and>
   mset (index_terms (linearization (finalize K i))) =
     mset (index_terms (fst (expr_linearization K (Some no_features) True)))"
  by (simp add: finalize_def Let_def split: prod.split)

end
