(* ===== verification/Verifier.thy ===== *)
theory Verifier
  imports Block VerifierIndex
begin

text \<open>
  \<^verbatim>\<open>src/crates/mina-verify/src/lib.rs\<close>: building a verifier for a network, verifying a block's
  proof, and decoding a block from gossip or raw bytes.

  External code is a parameter: \<open>mina_env\<close> holds kimchi (see theory \<open>VerifierIndex\<close>), the
  proof checker of \<^verbatim>\<open>mina-tree\<close> (which may panic), its \<^verbatim>\<open>BlockVerifier::make\<close>, the state
  hash, and the two embedded key files; \<open>netcfg_env\<close> is \<^verbatim>\<open>mina_core::NetworkConfig\<close>, whose
  documented behaviour (set once per process, read as devnet when never set) is the predicate
  \<open>netcfg_laws\<close>; \<open>wire_env\<close> holds the binprot codecs.

  The process-wide state is the record \<open>globals\<close>: the work directory and the network configuration. The
  build target (\<^verbatim>\<open>cfg(target_family)\<close>) and the directory for temporary files are fields of \<open>mina_env\<close> too.
\<close>

section \<open>Errors\<close>

datatype verifier_error =
    UnknownNetwork string
  | NetworkAlreadyInitialized (ne_active: string) (ne_requested: string)
  | VerificationKeyUnavailable string
  | InvalidIndexJson string
  | ProofInvalid
  | BlockDecode string

datatype decode_error = TooShort | Binprot string | NotABlock

text \<open>\<^verbatim>\<open>{:?}\<close> of a string: quotes around the escaped text. A string is its UTF-8 bytes. ASCII is
  escaped as \<^verbatim>\<open>str\<close>'s Debug does; bytes of longer code points are kept, as Debug keeps
  printable ones.\<close>

definition hex_digit :: "nat \<Rightarrow> char" where
  "hex_digit n = (if n < 10 then char_of (48 + n) else char_of (87 + n))"

definition debug_char :: "char \<Rightarrow> string" where
  "debug_char c =
     (let n = (of_char c :: nat) in
      if n = 0 then [CHR 0x5C, CHR ''0'']
      else if n = 9 then [CHR 0x5C, CHR ''t'']
      else if n = 10 then [CHR 0x5C, CHR ''n'']
      else if n = 13 then [CHR 0x5C, CHR ''r'']
      else if n = 34 then [CHR 0x5C, CHR 0x22]
      else if n = 92 then [CHR 0x5C, CHR 0x5C]
      else if n < 32 \<or> n = 127 then
        [CHR 0x5C, CHR ''u'', CHR 0x7B] @
        (if n < 16 then [] else [hex_digit (n div 16)]) @ [hex_digit (n mod 16)] @ [CHR 0x7D]
      else [c])"

definition debug_str :: "string \<Rightarrow> string" where
  "debug_str s = [CHR 0x22] @ concat (map debug_char s) @ [CHR 0x22]"

definition SUPPORTED_NETWORKS :: "string list" where
  "SUPPORTED_NETWORKS = [''devnet'', ''mainnet'']"

text \<open>The Display text of an error.\<close>

fun verifier_error_text :: "verifier_error \<Rightarrow> string" where
  "verifier_error_text (UnknownNetwork n) =
     ''unknown network '' @ debug_str n @ ''; supported: ['' @ debug_str ''devnet'' @ '', '' @
     debug_str ''mainnet'' @ '']''"
| "verifier_error_text (NetworkAlreadyInitialized active requested) =
     ''network '' @ debug_str active @ '' already active in this process; cannot build a '' @
     debug_str requested @ '' verifier''"
| "verifier_error_text (VerificationKeyUnavailable network) =
     ''could not load the '' @ debug_str network @
     '' blockchain verification key (embedded index unparseable '' @
     [CHR 0xE2, CHR 0x80, CHR 0x94] @ '' regenerate it upstream)''"
| "verifier_error_text (InvalidIndexJson e) = ''invalid verifier-index JSON: '' @ e"
| "verifier_error_text ProofInvalid = ''block proof did not verify''"
| "verifier_error_text (BlockDecode e) = ''could not decode block: '' @ e"

fun decode_error_text :: "decode_error \<Rightarrow> string" where
  "decode_error_text TooShort = ''payload shorter than 8-byte gossip prefix''"
| "decode_error_text (Binprot e) = ''binprot decode failed: '' @ e"
| "decode_error_text NotABlock = ''gossip message is not a NewState (block)''"

section \<open>External code and process state\<close>

datatype build_target = Native | Wasm

record ('h, 'p, 'x, 'c) mina_env =
  kimchi :: "('c, 'x) kimchi_env"
  get_srs :: 'x
  verify_block_proof :: "('h, 'p, 'x) header \<Rightarrow> ('c, 'x) verifier_index \<Rightarrow> 'x \<Rightarrow> bool panics"
  block_verifier_make :: "('c, 'x) verifier_index panics"
  header_try_hash :: "('h, 'p, 'x) header \<Rightarrow> ('h, string) result"
  block_try_hash :: "('h, 'p, 'x) block \<Rightarrow> ('h, string) result"
  devnet_index_json :: string
  mainnet_index_json :: string
  target_family :: build_target
  temp_dir :: string

record 'g netcfg_env =
  nc_init :: "'g \<Rightarrow> string \<Rightarrow> bool \<times> 'g"
  nc_global :: "'g \<Rightarrow> string \<times> 'g"

record 'g globals =
  workdir :: "string option"
  netcfg :: 'g

record ('c, 'x) verifier =
  network :: string
  index :: "('c, 'x) verifier_index"

section \<open>Building a verifier\<close>

definition default_work_dir :: "('h, 'p, 'x, 'c) mina_env \<Rightarrow> string" where
  "default_work_dir E = (case target_family E of Wasm \<Rightarrow> ''/tmp'' | Native \<Rightarrow> temp_dir E)"

text \<open>\<^verbatim>\<open>WORKDIR.call_once\<close>: the work directory is set by the first call of the process.\<close>

definition workdir_call_once :: "('h, 'p, 'x, 'c) mina_env \<Rightarrow> 'g globals \<Rightarrow> 'g globals" where
  "workdir_call_once E g =
     (case workdir g of None \<Rightarrow> g\<lparr>workdir := Some (default_work_dir E)\<rparr> | Some _ \<Rightarrow> g)"

definition with_index_json ::
  "('h, 'p, 'x, 'c::linorder) mina_env \<Rightarrow> string \<Rightarrow> 'g globals \<Rightarrow>
   (('c, 'x) verifier, verifier_error) result \<times> 'g globals" where
  "with_index_json E json g =
     (and_then (map_err InvalidIndexJson (verifier_index_from_json (kimchi E) json))
        (\<lambda>i. Ok \<lparr>network = ''custom'', index = i\<rparr>),
      workdir_call_once E g)"

definition embedded_index_json :: "('h, 'p, 'x, 'c) mina_env \<Rightarrow> string \<Rightarrow> string option" where
  "embedded_index_json E net =
     (if net = ''devnet'' then Some (devnet_index_json E)
      else if net = ''mainnet'' then Some (mainnet_index_json E)
      else None)"

definition for_network_offline ::
  "('h, 'p, 'x, 'c::linorder) mina_env \<Rightarrow> string \<Rightarrow> 'g globals \<Rightarrow>
   (('c, 'x) verifier, verifier_error) result \<times> 'g globals" where
  "for_network_offline E net g =
     (case embedded_index_json E net of
        None \<Rightarrow> (Err (UnknownNetwork net), g)
      | Some json \<Rightarrow>
          (let (r, g') = with_index_json E json g
           in (and_then r (\<lambda>v. Ok (v\<lparr>network := net\<rparr>)), g')))"

text \<open>The devnet key: \<^verbatim>\<open>BlockVerifier::make\<close> under \<^verbatim>\<open>catch_unwind\<close> on native targets, the
  embedded JSON on wasm.\<close>

definition devnet_index ::
  "('h, 'p, 'x, 'c::linorder) mina_env \<Rightarrow> string \<Rightarrow>
   (('c, 'x) verifier_index, verifier_error) result" where
  "devnet_index E net =
     (case target_family E of
        Native \<Rightarrow> ok_or (block_verifier_make E) (VerificationKeyUnavailable net)
      | Wasm \<Rightarrow>
          and_then (ok_or (embedded_index_json E ''devnet'') (VerificationKeyUnavailable net))
            (\<lambda>json. map_err InvalidIndexJson (verifier_index_from_json (kimchi E) json)))"

definition for_network ::
  "'g netcfg_env \<Rightarrow> ('h, 'p, 'x, 'c::linorder) mina_env \<Rightarrow> string \<Rightarrow>
   'g globals \<Rightarrow> (('c, 'x) verifier, verifier_error) result \<times> 'g globals" where
  "for_network N E net g =
     (if net \<notin> set SUPPORTED_NETWORKS then (Err (UnknownNetwork net), g)
      else
        let g1 = workdir_call_once E g;
            (ok, c1) = nc_init N (netcfg g1) net;
            (active, c2) = (if ok then (net, c1) else nc_global N c1)
        in if \<not> ok \<and> active \<noteq> net
           then (Err (NetworkAlreadyInitialized active net), g1\<lparr>netcfg := c2\<rparr>)
           else
             let (net', c3) = nc_global N c2;
                 g3 = g1\<lparr>netcfg := c3\<rparr>
             in if net' = ''mainnet''
                then (let (r, g4) = with_index_json E (mainnet_index_json E) g3
                      in (and_then r (\<lambda>v. Ok (v\<lparr>network := net'\<rparr>)), g4))
                else (and_then (devnet_index E net') (\<lambda>i. Ok \<lparr>network = net', index = i\<rparr>),
                      g3))"

text \<open>\<^verbatim>\<open>Verifier::devnet()\<close> and \<^verbatim>\<open>Verifier::mainnet()\<close> unwrap the result.\<close>

definition expect_network ::
  "'g netcfg_env \<Rightarrow> ('h, 'p, 'x, 'c::linorder) mina_env \<Rightarrow> string \<Rightarrow>
   'g globals \<Rightarrow> (('c, 'x) verifier \<times> 'g globals) panics" where
  "expect_network N E net g =
     (let (r, g') = for_network N E net g
      in case r of Inl _ \<Rightarrow> None | Inr v \<Rightarrow> Some (v, g'))"

section \<open>Verifying\<close>

definition verify_header ::
  "('h, 'p, 'x, 'c) mina_env \<Rightarrow> ('c, 'x) verifier \<Rightarrow> ('h, 'p, 'x) header \<Rightarrow> bool panics" where
  "verify_header E v h = verify_block_proof E h (index v) (get_srs E)"

definition verify_block ::
  "('h, 'p, 'x, 'c) mina_env \<Rightarrow> ('c, 'x) verifier \<Rightarrow> ('h, 'p, 'x) block \<Rightarrow> bool panics" where
  "verify_block E v b = verify_header E v (block_header b)"

section \<open>Decoding\<close>

datatype ('h, 'p, 'x) gossip_message = NewState "('h, 'p, 'x) block" | OtherMessage 'x

text \<open>A binprot reader returns the value and the rest of the cursor, or the message of its error.\<close>

record ('h, 'p, 'x) wire_env =
  gossip_read :: "bytes \<Rightarrow> (('h, 'p, 'x) gossip_message \<times> bytes, string) result"
  block_read :: "bytes \<Rightarrow> (('h, 'p, 'x) block \<times> bytes, string) result"
  block_write :: "('h, 'p, 'x) block \<Rightarrow> bytes"

definition block_from_gossip_payload ::
  "('h, 'p, 'x) wire_env \<Rightarrow> bytes \<Rightarrow> (('h, 'p, 'x) block, decode_error) result" where
  "block_from_gossip_payload W payload =
     (if length payload < 8 then Err TooShort
      else and_then (map_err Binprot (gossip_read W (drop 8 payload)))
             (\<lambda>(msg, _). case msg of NewState b \<Rightarrow> Ok b | _ \<Rightarrow> Err NotABlock))"

definition block_from_binprot ::
  "('h, 'p, 'x) wire_env \<Rightarrow> bytes \<Rightarrow> (('h, 'p, 'x) block, decode_error) result" where
  "block_from_binprot W bs = and_then (map_err Binprot (block_read W bs)) (\<lambda>(b, _). Ok b)"

definition block_to_binprot :: "('h, 'p, 'x) wire_env \<Rightarrow> ('h, 'p, 'x) block \<Rightarrow> bytes" where
  "block_to_binprot W b = block_write W b"

section \<open>The process-wide network configuration\<close>

text \<open>What the sources rely on: \<open>cfg\<close> reads the configured network out of the opaque state;
  \<^verbatim>\<open>init\<close> with a supported network succeeds once, and \<^verbatim>\<open>global\<close> falls back to devnet.\<close>

definition netcfg_laws :: "'g netcfg_env \<Rightarrow> ('g \<Rightarrow> string option) \<Rightarrow> bool" where
  "netcfg_laws N cfg \<longleftrightarrow>
     (\<forall>c n. case cfg c of
        None \<Rightarrow> (n \<in> set SUPPORTED_NETWORKS \<longrightarrow> fst (nc_init N c n) \<and> cfg (snd (nc_init N c n)) = Some n) \<and>
          fst (nc_global N c) = ''devnet'' \<and> cfg (snd (nc_global N c)) = Some ''devnet''
      | Some a \<Rightarrow> \<not> fst (nc_init N c n) \<and> cfg (snd (nc_init N c n)) = Some a \<and>
          fst (nc_global N c) = a \<and> cfg (snd (nc_global N c)) = Some a)"

lemma netcfg_unset:
  assumes "netcfg_laws N cfg" and "cfg c = None" and "n \<in> set SUPPORTED_NETWORKS"
  shows "\<exists>c'. nc_init N c n = (True, c') \<and> cfg c' = Some n"
proof -
  have "fst (nc_init N c n) \<and> cfg (snd (nc_init N c n)) = Some n"
    using spec [OF spec [OF assms(1) [unfolded netcfg_laws_def], of c], of n] assms(2,3) by simp
  then show ?thesis by (metis prod.collapse)
qed

lemma netcfg_set:
  assumes "netcfg_laws N cfg" and "cfg c = Some a"
  shows "\<exists>c'. nc_init N c n = (False, c') \<and> cfg c' = Some a"
    and "\<exists>c'. nc_global N c = (a, c') \<and> cfg c' = Some a"
proof -
  have "\<not> fst (nc_init N c n) \<and> cfg (snd (nc_init N c n)) = Some a \<and>
        fst (nc_global N c) = a \<and> cfg (snd (nc_global N c)) = Some a"
    using spec [OF spec [OF assms(1) [unfolded netcfg_laws_def], of c], of n] assms(2) by simp
  then show "\<exists>c'. nc_init N c n = (False, c') \<and> cfg c' = Some a"
    and "\<exists>c'. nc_global N c = (a, c') \<and> cfg c' = Some a"
    by (metis prod.collapse)+
qed

text \<open>A process builds verifiers in some order, in any of the three ways.\<close>

datatype build_call = ForNetwork string | Offline string | WithJson string

fun build ::
  "'g netcfg_env \<Rightarrow> ('h, 'p, 'x, 'c::linorder) mina_env \<Rightarrow> build_call \<Rightarrow>
   'g globals \<Rightarrow> (('c, 'x) verifier, verifier_error) result \<times> 'g globals" where
  "build N E (ForNetwork net) g = for_network N E net g"
| "build N E (Offline net) g = for_network_offline E net g"
| "build N E (WithJson json) g = with_index_json E json g"

fun builds ::
  "'g netcfg_env \<Rightarrow> ('h, 'p, 'x, 'c::linorder) mina_env \<Rightarrow> build_call list \<Rightarrow>
   'g globals \<Rightarrow> (build_call \<times> (('c, 'x) verifier, verifier_error) result) list \<times> 'g globals" where
  "builds N E [] g = ([], g)"
| "builds N E (b # bs) g =
     (let (r, g1) = build N E b g; (rs, g2) = builds N E bs g1 in ((b, r) # rs, g2))"

section \<open>Lemmas\<close>

lemma netcfg_workdir [simp]: "netcfg (workdir_call_once E g) = netcfg g"
  by (simp add: workdir_call_once_def split: option.split)

lemma netcfg_with_index_json [simp]: "netcfg (snd (with_index_json E json g)) = netcfg g"
  by (simp add: with_index_json_def)

lemma netcfg_for_network_offline [simp]: "netcfg (snd (for_network_offline E net g)) = netcfg g"
  by (simp add: for_network_offline_def with_index_json_def split: option.split)

text \<open>The key a supported network ends up with.\<close>

definition network_key ::
  "('h, 'p, 'x, 'c::linorder) mina_env \<Rightarrow> string \<Rightarrow>
   (('c, 'x) verifier_index, verifier_error) result" where
  "network_key E net =
     (if net = ''mainnet''
      then map_err InvalidIndexJson (verifier_index_from_json (kimchi E) (mainnet_index_json E))
      else devnet_index E net)"

lemma for_network_unsupported:
  "net \<notin> set SUPPORTED_NETWORKS \<Longrightarrow> for_network N E net g = (Err (UnknownNetwork net), g)"
  by (simp add: for_network_def)

lemma supported_networks [simp]: "set SUPPORTED_NETWORKS = {''devnet'', ''mainnet''}"
  by (simp add: SUPPORTED_NETWORKS_def)

lemma for_network_key:
  assumes "net \<in> set SUPPORTED_NETWORKS"
    and "nc_init N (netcfg g) net = (ok, c1)"
    and "(if ok then (net, c1) else nc_global N c1) = (net, c2)"
    and "nc_global N c2 = (net, c3)"
  shows "\<exists>g'. for_network N E net g =
      (and_then (network_key E net) (\<lambda>i. Ok \<lparr>network = net, index = i\<rparr>), g') \<and>
      netcfg g' = c3"
proof (cases "verifier_index_from_json (kimchi E) (mainnet_index_json E)")
  case (Inl e)
  with assms show ?thesis
    by (auto simp: for_network_def Let_def network_key_def with_index_json_def)
next
  case (Inr i)
  with assms show ?thesis
    by (auto simp: for_network_def Let_def network_key_def with_index_json_def)
qed

lemma for_network_unset:
  assumes laws: "netcfg_laws N cfg" and sup: "net \<in> set SUPPORTED_NETWORKS"
    and unset: "cfg (netcfg g) = None"
  shows "\<exists>g'. for_network N E net g =
      (and_then (network_key E net) (\<lambda>i. Ok \<lparr>network = net, index = i\<rparr>), g') \<and>
      cfg (netcfg g') = Some net"
proof -
  obtain c1 where c1: "nc_init N (netcfg g) net = (True, c1)" "cfg c1 = Some net"
    using netcfg_unset [OF laws unset sup] by blast
  obtain c3 where c3: "nc_global N c1 = (net, c3)" "cfg c3 = Some net"
    using netcfg_set(2) [OF laws c1(2)] by blast
  show ?thesis using for_network_key [OF sup c1(1) _ c3(1), of E] c3(2) by auto
qed

lemma for_network_same:
  assumes laws: "netcfg_laws N cfg" and sup: "net \<in> set SUPPORTED_NETWORKS"
    and same: "cfg (netcfg g) = Some net"
  shows "\<exists>g'. for_network N E net g =
      (and_then (network_key E net) (\<lambda>i. Ok \<lparr>network = net, index = i\<rparr>), g') \<and>
      cfg (netcfg g') = Some net"
proof -
  obtain c1 where c1: "nc_init N (netcfg g) net = (False, c1)" "cfg c1 = Some net"
    using netcfg_set(1) [OF laws same] by blast
  obtain c2 where c2: "nc_global N c1 = (net, c2)" "cfg c2 = Some net"
    using netcfg_set(2) [OF laws c1(2)] by blast
  obtain c3 where c3: "nc_global N c2 = (net, c3)" "cfg c3 = Some net"
    using netcfg_set(2) [OF laws c2(2)] by blast
  show ?thesis using for_network_key [OF sup c1(1) _ c3(1), of E] c2(1) c3(2) by auto
qed

lemma for_network_other:
  assumes laws: "netcfg_laws N cfg" and sup: "net \<in> set SUPPORTED_NETWORKS"
    and other: "cfg (netcfg g) = Some a" "a \<noteq> net"
  shows "\<exists>g'. for_network N E net g = (Err (NetworkAlreadyInitialized a net), g') \<and>
      cfg (netcfg g') = Some a"
proof -
  obtain c1 where c1: "nc_init N (netcfg g) net = (False, c1)" "cfg c1 = Some a"
    using netcfg_set(1) [OF laws other(1)] by blast
  obtain c2 where c2: "nc_global N c1 = (a, c2)" "cfg c2 = Some a"
    using netcfg_set(2) [OF laws c1(2)] by blast
  show ?thesis using sup c1 c2 other(2) by (auto simp: for_network_def Let_def)
qed

lemma for_network_outcome:
  assumes laws: "netcfg_laws N cfg" and run: "for_network N E net g = (r, g')"
  obtains (unsupported) "net \<notin> set SUPPORTED_NETWORKS" "r = Err (UnknownNetwork net)" "g' = g"
  | (other) a where "net \<in> set SUPPORTED_NETWORKS" "cfg (netcfg g) = Some a" "a \<noteq> net"
      "r = Err (NetworkAlreadyInitialized a net)" "cfg (netcfg g') = Some a"
  | (key) "net \<in> set SUPPORTED_NETWORKS" "cfg (netcfg g) \<in> {None, Some net}"
      "r = and_then (network_key E net) (\<lambda>i. Ok \<lparr>network = net, index = i\<rparr>)"
      "cfg (netcfg g') = Some net"
proof (cases "net \<in> set SUPPORTED_NETWORKS")
  case False
  then show thesis using run unsupported by (simp add: for_network_unsupported)
next
  case sup: True
  show thesis
  proof (cases "cfg (netcfg g)")
    case None
    show thesis using for_network_unset [OF laws sup None, of E] run None key [OF sup] by auto
  next
    case (Some a)
    show thesis
    proof (cases "a = net")
      case True
      show thesis using for_network_same [OF laws sup, of g E] Some True run key [OF sup] by auto
    next
      case False
      show thesis using for_network_other [OF laws sup Some False, of E] run Some False other [OF sup]
        by auto
    qed
  qed
qed

lemma for_network_Ok:
  assumes laws: "netcfg_laws N cfg" and run: "for_network N E net g = (Ok v, g')"
  shows "network v = net \<and> cfg (netcfg g) \<in> {None, Some net} \<and> cfg (netcfg g') = Some net \<and>
    network_key E net = Ok (index v)"
  using laws run
proof (cases rule: for_network_outcome)
  case key
  then show ?thesis by (cases "network_key E net") auto
qed auto

text \<open>Once a network is configured, no way of building a verifier changes it.\<close>

lemma build_keeps_network:
  assumes laws: "netcfg_laws N cfg" and "cfg (netcfg g) = Some a"
  shows "cfg (netcfg (snd (build N E b g))) = Some a"
proof (cases b)
  case (ForNetwork net)
  obtain r g' where run: "for_network N E net g = (r, g')" by (cases "for_network N E net g")
  show ?thesis using laws run by (cases rule: for_network_outcome) (use run assms(2) ForNetwork in auto)
qed (use assms in simp_all)

lemma builds_network:
  assumes laws: "netcfg_laws N cfg" and "cfg (netcfg g) = Some a"
    and "(ForNetwork n, Ok v) \<in> set (fst (builds N E bs g))"
  shows "n = a \<and> network v = a"
  using assms(2,3)
proof (induction bs arbitrary: g)
  case Nil
  then show ?case by simp
next
  case (Cons b bs)
  obtain r g1 where b: "build N E b g = (r, g1)" by (cases "build N E b g")
  have g1: "cfg (netcfg g1) = Some a"
    using build_keeps_network [OF laws Cons.prems(1), of E b] b by simp
  consider "b = ForNetwork n" "r = Ok v" | "(ForNetwork n, Ok v) \<in> set (fst (builds N E bs g1))"
    using Cons.prems(2) b by (auto simp: Let_def split: prod.splits)
  then show ?case
  proof cases
    case 1
    then show ?thesis using for_network_Ok [OF laws, of E n g v g1] b Cons.prems(1) by simp
  next
    case 2
    then show ?thesis using Cons.IH [OF g1] by simp
  qed
qed

lemma build_unset:
  assumes laws: "netcfg_laws N cfg" and "cfg (netcfg g) = None" and "build N E b g = (r, g1)"
  shows "cfg (netcfg g1) = None \<and> (\<forall>n v. b = ForNetwork n \<longrightarrow> r \<noteq> Ok v) \<or>
    (\<exists>n. b = ForNetwork n \<and> cfg (netcfg g1) = Some n \<and> (\<forall>v. r = Ok v \<longrightarrow> network v = n))"
proof (cases b)
  case (ForNetwork net)
  then have run: "for_network N E net g = (r, g1)" using assms(3) by simp
  show ?thesis
    using laws run
    by (cases rule: for_network_outcome) (use assms(2) ForNetwork in \<open>auto simp: result_simps\<close>)
next
  case (Offline net)
  then have "g1 = snd (for_network_offline E net g)" using assms(3) by simp
  then show ?thesis using Offline assms(2) by simp
next
  case (WithJson json)
  then have "g1 = snd (with_index_json E json g)" using assms(3) by simp
  then show ?thesis using WithJson assms(2) by simp
qed

lemma builds_one_network:
  assumes laws: "netcfg_laws N cfg"
  shows "\<exists>a. \<forall>n v. (ForNetwork n, Ok v) \<in> set (fst (builds N E bs g)) \<longrightarrow> n = a \<and> network v = a"
proof (induction bs arbitrary: g)
  case Nil
  show ?case by simp
next
  case (Cons b bs)
  show ?case
  proof (cases "cfg (netcfg g)")
    case (Some a)
    then show ?thesis using builds_network [OF laws Some, of _ _ E "b # bs"] by blast
  next
    case None
    obtain r g1 where b: "build N E b g = (r, g1)" by (cases "build N E b g")
    have split: "set (fst (builds N E (b # bs) g)) = insert (b, r) (set (fst (builds N E bs g1)))"
      using b by (auto simp: Let_def split: prod.splits)
    from build_unset [OF laws None b] show ?thesis
    proof (elim disjE)
      assume "cfg (netcfg g1) = None \<and> (\<forall>n v. b = ForNetwork n \<longrightarrow> r \<noteq> Ok v)"
      then show ?thesis using Cons.IH [of g1] unfolding split by auto
    next
      assume "\<exists>n. b = ForNetwork n \<and> cfg (netcfg g1) = Some n \<and> (\<forall>v. r = Ok v \<longrightarrow> network v = n)"
      then obtain n where n: "b = ForNetwork n" "cfg (netcfg g1) = Some n" "\<forall>v. r = Ok v \<longrightarrow> network v = n" by blast
      show ?thesis unfolding split using n builds_network [OF laws n(2), of _ _ E bs] by auto
    qed
  qed
qed

lemma offline_key:
  assumes "net \<in> set SUPPORTED_NETWORKS" and "net = ''mainnet'' \<or> target_family E = Wasm"
  shows "fst (for_network_offline E net g) =
    and_then (network_key E net) (\<lambda>i. Ok \<lparr>network = net, index = i\<rparr>)"
  using assms
  by (cases "verifier_index_from_json (kimchi E) (mainnet_index_json E)";
      cases "verifier_index_from_json (kimchi E) (devnet_index_json E)")
    (auto simp: for_network_offline_def with_index_json_def network_key_def devnet_index_def
      embedded_index_json_def)

section \<open>The work directory\<close>

lemma workdir_once:
  "workdir (workdir_call_once E g) = Some (case workdir g of None \<Rightarrow> default_work_dir E | Some d \<Rightarrow> d)"
  by (simp add: workdir_call_once_def split: option.split)

text \<open>A build that returns a verifier has set the directory or found it set; no build changes a
  directory that is set.\<close>

lemma build_workdir:
  assumes "build N E b g = (r, g')"
  shows "workdir g' = workdir g \<and> (\<forall>v. r \<noteq> Ok v) \<or>
    workdir g' = Some (case workdir g of None \<Rightarrow> default_work_dir E | Some d \<Rightarrow> d)"
proof (cases b)
  case (ForNetwork net)
  then show ?thesis
    using assms workdir_once [of E "workdir_call_once E g"]
    by (auto simp: for_network_def with_index_json_def workdir_once Let_def result_simps
        split: prod.splits if_splits)
next
  case (Offline net)
  then show ?thesis
    using assms by (auto simp: for_network_offline_def with_index_json_def workdir_once split: option.splits)
next
  case (WithJson json)
  then show ?thesis using assms by (auto simp: with_index_json_def workdir_once)
qed

lemma builds_workdir_kept: "workdir g = Some d \<Longrightarrow> workdir (snd (builds N E bs g)) = Some d"
proof (induction bs arbitrary: g)
  case (Cons b bs)
  obtain r g1 where run: "build N E b g = (r, g1)" by (meson surj_pair)
  then have "workdir g1 = Some d" using build_workdir [OF run] Cons.prems by auto
  then show ?case using Cons.IH [of g1] run by (simp add: split_beta)
qed simp

lemma builds_workdir:
  "(b, Ok v) \<in> set (fst (builds N E bs g)) \<Longrightarrow>
   workdir (snd (builds N E bs g)) = Some (case workdir g of None \<Rightarrow> default_work_dir E | Some d \<Rightarrow> d)"
proof (induction bs arbitrary: g)
  case (Cons c bs)
  obtain r g1 where run: "build N E c g = (r, g1)" by (meson surj_pair)
  from build_workdir [OF run] show ?case
  proof
    assume "workdir g1 = workdir g \<and> (\<forall>v. r \<noteq> Ok v)"
    then show ?thesis using Cons.IH [of g1] Cons.prems run by (auto simp: split_beta)
  next
    assume "workdir g1 = Some (case workdir g of None \<Rightarrow> default_work_dir E | Some d \<Rightarrow> d)"
    then show ?thesis using builds_workdir_kept run by (auto simp: split_beta)
  qed
qed simp

end
