(* ===== verification/ForkChoice.thy ===== *)
theory ForkChoice
  imports Verifier
begin

text \<open>
  \<^verbatim>\<open>src/crates/mina-verify/src/fork_choice.rs\<close>: verified tips and the choice between them.
  The Samasika rule itself (\<^verbatim>\<open>mina_core::consensus\<close>) and the base58check rendering of a state
  hash are external: the fields of \<open>consensus_env\<close>.
\<close>

record ('h, 'p, 'x) verified_tip =
  tip_block :: "('h, 'p, 'x) block"
  tip_state_hash :: 'h

record ('h, 'x) consensus_env =
  consensus_take :: "('h, 'x) consensus_state \<Rightarrow> ('h, 'x) consensus_state \<Rightarrow> 'h \<Rightarrow> 'h \<Rightarrow> bool"
  core_is_short_range_fork :: "('h, 'x) consensus_state \<Rightarrow> ('h, 'x) consensus_state \<Rightarrow> bool"
  hash_to_string :: "'h \<Rightarrow> string"

definition tip_consensus_state :: "('h, 'p, 'x) verified_tip \<Rightarrow> ('h, 'x) consensus_state" where
  "tip_consensus_state t = header_consensus (block_header (tip_block t))"

definition tip_height :: "('h, 'p, 'x) verified_tip \<Rightarrow> u32" where
  "tip_height t = blockchain_length (tip_consensus_state t)"

definition tip_previous :: "('h, 'p, 'x) verified_tip \<Rightarrow> 'h" where
  "tip_previous t = previous_state_hash (protocol_state (block_header (tip_block t)))"

definition verify_tip ::
  "('h, 'p, 'x, 'c) mina_env \<Rightarrow> ('c, 'x) verifier \<Rightarrow> ('h, 'p, 'x) block \<Rightarrow>
   (('h, 'p, 'x) verified_tip option, string) result panics" where
  "verify_tip E v b =
     do {
       ok \<leftarrow> verify_block E v b;
       Some (if \<not> ok then Ok None
             else and_then (block_try_hash E b)
                    (\<lambda>h. Ok (Some \<lparr>tip_block = b, tip_state_hash = h\<rparr>)))
     }"

definition is_short_range_fork ::
  "('h, 'x) consensus_env \<Rightarrow> ('h, 'p, 'x) verified_tip \<Rightarrow> ('h, 'p, 'x) verified_tip \<Rightarrow> bool" where
  "is_short_range_fork C a b =
     core_is_short_range_fork C (tip_consensus_state a) (tip_consensus_state b)"

definition prefers_candidate ::
  "('h, 'x) consensus_env \<Rightarrow> ('h, 'p, 'x) verified_tip \<Rightarrow> ('h, 'p, 'x) verified_tip \<Rightarrow> bool" where
  "prefers_candidate C tip candidate =
     consensus_take C (tip_consensus_state tip) (tip_consensus_state candidate)
       (tip_state_hash tip) (tip_state_hash candidate)"

datatype fork_range = Short | Long

datatype tip_comparison =
    Same
  | Diverged (canonical_is_b: bool) (diverged_range: fork_range)

definition compare_tips ::
  "('h, 'x) consensus_env \<Rightarrow> ('h, 'p, 'x) verified_tip \<Rightarrow> ('h, 'p, 'x) verified_tip \<Rightarrow>
   tip_comparison" where
  "compare_tips C a b =
     (if tip_state_hash a = tip_state_hash b then Same
      else Diverged (prefers_candidate C a b) (if is_short_range_fork C a b then Short else Long))"

text \<open>The loop \<^verbatim>\<open>for i in 1..tips.len()\<close> carries the index of the best tip so far.\<close>

definition select_step ::
  "('h, 'x) consensus_env \<Rightarrow> ('h, 'p, 'x) verified_tip list \<Rightarrow> usize \<Rightarrow> usize \<Rightarrow> usize" where
  "select_step C tips b i = (if prefers_candidate C (tips ! b) (tips ! i) then i else b)"

definition select_canonical ::
  "('h, 'x) consensus_env \<Rightarrow> ('h, 'p, 'x) verified_tip list \<Rightarrow> usize option" where
  "select_canonical C tips =
     (if tips = [] then None else Some (foldl (select_step C tips) 0 [1..<length tips]))"

section \<open>Lemmas\<close>

text \<open>The rule as a strict order on a set of tips.\<close>

definition strict_on :: "('h, 'x) consensus_env \<Rightarrow> ('h, 'p, 'x) verified_tip set \<Rightarrow> bool" where
  "strict_on C S \<longleftrightarrow>
     (\<forall>a \<in> S. \<not> prefers_candidate C a a) \<and>
     (\<forall>a \<in> S. \<forall>b \<in> S. \<forall>c \<in> S. prefers_candidate C a b \<longrightarrow> prefers_candidate C b c \<longrightarrow> prefers_candidate C a c)"

lemma strictD:
  assumes "strict_on C S"
  shows "a \<in> S \<Longrightarrow> \<not> prefers_candidate C a a"
    and "\<lbrakk>a \<in> S; b \<in> S; c \<in> S; prefers_candidate C a b; prefers_candidate C b c\<rbrakk> \<Longrightarrow> prefers_candidate C a c"
  using assms unfolding strict_on_def by blast+

lemma verify_tip_Some_iff:
  "verify_tip E v b = Some (Ok (Some t)) \<longleftrightarrow>
     verify_block E v b = Some True \<and> tip_block t = b \<and> block_try_hash E b = Ok (tip_state_hash t)"
  by (cases "verify_block E v b"; cases "block_try_hash E b"; cases t) (auto simp: verify_tip_def)

lemma verify_tip_rejected_iff:
  "verify_tip E v b = Some (Ok None) \<longleftrightarrow> verify_block E v b = Some False"
  by (cases "verify_block E v b"; cases "block_try_hash E b") (auto simp: verify_tip_def)

text \<open>The loop invariant: after the indices below \<open>n\<close>, the chosen index is below \<open>n\<close> and no tip
  below \<open>n\<close> is preferred to it.\<close>

lemma select_loop_bound: "0 < n \<Longrightarrow> foldl (select_step C tips) 0 [1..<n] < n"
proof (induction n)
  case (Suc n)
  then show ?case by (cases "n = 0") (auto simp: select_step_def less_Suc_eq)
qed simp

lemma select_loop_unbeaten:
  assumes strict: "strict_on C (set tips)" and "0 < n" and "n \<le> length tips" and "j < n"
  shows "\<not> prefers_candidate C (tips ! foldl (select_step C tips) 0 [1..<n]) (tips ! j)"
  using assms(2-4)
proof (induction n arbitrary: j)
  case (Suc n)
  show ?case
  proof (cases "n = 0")
    case True
    then show ?thesis using Suc.prems strict by (cases tips) (auto simp: strict_on_def)
  next
    case False
    define b where "b = foldl (select_step C tips) 0 [1..<n]"
    have step: "foldl (select_step C tips) 0 [1..<Suc n] = select_step C tips b n"
      using False by (simp add: b_def)
    have b: "b < n" using select_loop_bound [of n C tips] False by (simp add: b_def)
    have mem: "tips ! b \<in> set tips" "tips ! n \<in> set tips" "tips ! j \<in> set tips"
      using b Suc.prems by simp_all
    have old: "j < n \<Longrightarrow> \<not> prefers_candidate C (tips ! b) (tips ! j)"
      using Suc.IH [of j] False Suc.prems by (simp add: b_def)
    show ?thesis
      using Suc.prems old strictD(1) [OF strict mem(2)] strictD(2) [OF strict mem]
      unfolding step by (cases "j = n") (auto simp: select_step_def)
  qed
qed simp

lemma select_canonical_None_iff: "select_canonical C tips = None \<longleftrightarrow> tips = []"
  by (simp add: select_canonical_def)

lemma select_canonical_bound: "select_canonical C tips = Some w \<Longrightarrow> w < length tips"
  using select_loop_bound [of "length tips" C tips] by (auto simp: select_canonical_def split: if_splits)

end
