(* ===== verification/ChainMonitor.thy ===== *)
theory ChainMonitor
  imports ForkChoice
begin

text \<open>
  \<^verbatim>\<open>src/crates/mina-verify/src/monitor.rs\<close>: the windowed chain monitor.

  The state is the record \<open>chain_monitor\<close>; \<open>nodes\<close> is the hash map from rendered state hashes to
  nodes and \<open>order\<close> the deque of keys, front first. The eviction loops terminate and are
  functions. The two loops of \<^verbatim>\<open>common_ancestor\<close> follow parent links that the code does not
  check, so they are partial functions: the outer option is \<^term>\<open>None\<close> when a loop never ends,
  the inner one is the \<^verbatim>\<open>Option\<close> the Rust function returns. \<^verbatim>\<open>ingest\<close> is a run, which may in
  principle diverge, panic at one of its two \<^verbatim>\<open>expect\<close> calls, or return.
\<close>

section \<open>State\<close>

record ('h, 'x) node =
  nd_hash :: 'h
  nd_prev :: string
  nd_height :: u32
  nd_cs :: "('h, 'x) consensus_state"

datatype 'h ingest_outcome =
    Genesis
  | Extend u32
  | Duplicate
  | Behind u32
  | Reorg (reorg_from: 'h) (common_ancestor_of: "string option") (reorg_depth: "u32 option")
  | Fork "string option"
  | Unlinked

type_synonym ('h, 'x) window = "(string, ('h, 'x) node) mapping"

record ('h, 'x) chain_monitor =
  nodes :: "('h, 'x) window"
  order :: "string list"
  capacity :: usize
  best :: "string option"

section \<open>Queries\<close>

definition new :: "usize \<Rightarrow> ('h, 'x) chain_monitor" where
  "new cap = \<lparr>nodes = Mapping.empty, order = [], capacity = max cap 1, best = None\<rparr>"

definition best_node :: "('h, 'x) chain_monitor \<Rightarrow> ('h, 'x) node option" where
  "best_node m = Option.bind (best m) (Mapping.lookup (nodes m))"

definition best_hash :: "('h, 'x) chain_monitor \<Rightarrow> 'h option" where
  "best_hash m = map_option nd_hash (Option.bind (best m) (Mapping.lookup (nodes m)))"

definition best_height :: "('h, 'x) chain_monitor \<Rightarrow> u32 option" where
  "best_height m = map_option nd_height (Option.bind (best m) (Mapping.lookup (nodes m)))"

definition len :: "('h, 'x) chain_monitor \<Rightarrow> usize" where
  "len m = Mapping.size (nodes m)"

definition is_empty :: "('h, 'x) chain_monitor \<Rightarrow> bool" where
  "is_empty m = Mapping.is_empty (nodes m)"

section \<open>Common ancestors\<close>

text \<open>First loop: bring both cursors to the same height.\<close>

partial_function (option) equal_height ::
  "('h, 'x) window \<Rightarrow> string \<Rightarrow> string \<Rightarrow> (string \<times> string) option option" where
  "equal_height ns x y =
     (case Mapping.lookup ns x of
        None \<Rightarrow> Some None
      | Some nx \<Rightarrow>
          (case Mapping.lookup ns y of
             None \<Rightarrow> Some None
           | Some ny \<Rightarrow>
               if nd_height nx = nd_height ny then Some (Some (x, y))
               else if nd_height ny < nd_height nx then equal_height ns (nd_prev nx) y
               else equal_height ns x (nd_prev ny)))"

text \<open>Second loop: step both cursors until they meet.\<close>

partial_function (option) lockstep ::
  "('h, 'x) window \<Rightarrow> string \<Rightarrow> string \<Rightarrow> string option option" where
  "lockstep ns x y =
     (if x = y then Some (Some x)
      else
        (case Mapping.lookup ns x of
           None \<Rightarrow> Some None
         | Some nx \<Rightarrow>
             (case Mapping.lookup ns y of
                None \<Rightarrow> Some None
              | Some ny \<Rightarrow> lockstep ns (nd_prev nx) (nd_prev ny))))"

declare equal_height.simps [code] lockstep.simps [code]

definition common_ancestor ::
  "('h, 'x) window \<Rightarrow> string \<Rightarrow> string \<Rightarrow> string option option" where
  "common_ancestor ns a b =
     do {
       r \<leftarrow> equal_height ns a b;
       (case r of None \<Rightarrow> Some None | Some (x, y) \<Rightarrow> lockstep ns x y)
     }"

section \<open>Insertion with eviction\<close>

text \<open>The inner loop: pop keys from the front, rotating the best to the back, until a key is
  evicted. The flag is \<^term>\<open>True\<close> where the Rust code returns from \<^verbatim>\<open>insert\<close>.\<close>

function evict_loop ::
  "string option \<Rightarrow> (string, 'n) mapping \<Rightarrow> string list \<Rightarrow> usize \<Rightarrow>
   bool \<times> (string, 'n) mapping \<times> string list" where
  "evict_loop bst ns ord rotated =
     (case ord of
        [] \<Rightarrow> (True, ns, [])
      | k # ks \<Rightarrow>
          if Some k = bst then
            (let ord' = ks @ [k]; rotated' = rotated + 1 in
             if length ord' \<le> rotated' then (True, ns, ord')
             else evict_loop bst ns ord' rotated')
          else (False, Mapping.delete k ns, ks))"
  by pat_completeness auto
termination
  by (relation "measure (\<lambda>(_, _, ord, rotated). length ord - rotated)") auto

declare evict_loop.simps [simp del]

lemma evict_loop_shrinks:
  "evict_loop bst ns ord r = (False, ns', ord') \<Longrightarrow> length ord' < length ord"
proof (induction bst ns ord r rule: evict_loop.induct)
  case (1 bst ns ord r)
  from "1.prems" show ?case
    by (subst (asm) evict_loop.simps) (auto simp: Let_def dest!: "1.IH" split: list.splits if_splits)
qed

text \<open>The outer loop: evict while the window is over capacity.\<close>

function evict_while ::
  "usize \<Rightarrow> string option \<Rightarrow> (string, 'n) mapping \<Rightarrow> string list \<Rightarrow>
   (string, 'n) mapping \<times> string list" where
  "evict_while cap bst ns ord =
     (if cap < Mapping.size ns then
        (case evict_loop bst ns ord 0 of
           (returned, ns', ord') \<Rightarrow>
             if returned then (ns', ord') else evict_while cap bst ns' ord')
      else (ns, ord))"
  by pat_completeness auto
termination
  by (relation "measure (\<lambda>(_, _, _, ord). length ord)") (auto dest!: evict_loop_shrinks [OF sym])

declare evict_while.simps [simp del]

definition insert_node ::
  "string \<Rightarrow> ('h, 'x) node \<Rightarrow> ('h, 'x) chain_monitor \<Rightarrow> ('h, 'x) chain_monitor" where
  "insert_node key n m =
     (let (ns, ord) = evict_while (capacity m) (best m) (Mapping.update key n (nodes m))
                        (order m @ [key])
      in m\<lparr>nodes := ns, order := ord\<rparr>)"

section \<open>Ingestion\<close>

definition tip_key :: "('h, 'x) consensus_env \<Rightarrow> ('h, 'p, 'x) verified_tip \<Rightarrow> string" where
  "tip_key C tip = hash_to_string C (tip_state_hash tip)"

definition tip_prev_key :: "('h, 'x) consensus_env \<Rightarrow> ('h, 'p, 'x) verified_tip \<Rightarrow> string" where
  "tip_prev_key C tip = hash_to_string C (tip_previous tip)"

definition tip_node ::
  "('h, 'x) consensus_env \<Rightarrow> ('h, 'p, 'x) verified_tip \<Rightarrow> ('h, 'x) node" where
  "tip_node C tip =
     \<lparr>nd_hash = tip_state_hash tip, nd_prev = tip_prev_key C tip,
      nd_height = tip_height tip, nd_cs = tip_consensus_state tip\<rparr>"

definition ingest ::
  "('h, 'x) consensus_env \<Rightarrow> ('h, 'p, 'x) verified_tip \<Rightarrow> ('h, 'x) chain_monitor \<Rightarrow>
   ('h ingest_outcome \<times> ('h, 'x) chain_monitor) run" where
  "ingest C tip m =
     (let key = tip_key C tip in
      if key \<in> Mapping.keys (nodes m) then Returns (Duplicate, m)
      else
        let prev = tip_prev_key C tip;
            height = tip_height tip;
            m1 = insert_node key (tip_node C tip) m
        in case best m1 of
             None \<Rightarrow> Returns (Genesis, m1\<lparr>best := Some key\<rparr>)
           | Some best_key \<Rightarrow>
               if prev = best_key then Returns (Extend height, m1\<lparr>best := Some key\<rparr>)
               else
                 (case Mapping.lookup (nodes m1) best_key of
                    None \<Rightarrow> Panics
                  | Some bn \<Rightarrow>
                      (case Mapping.lookup (nodes m1) key of
                         None \<Rightarrow> Panics
                       | Some cn \<Rightarrow>
                           let better = consensus_take C (nd_cs bn) (nd_cs cn) (nd_hash bn) (nd_hash cn)
                           in case common_ancestor (nodes m1) key best_key of
                                None \<Rightarrow> Diverges
                              | Some common \<Rightarrow>
                                  if better then
                                    Returns
                                      (if common = Some best_key then Extend height
                                       else Reorg (nd_hash bn) common
                                              (map_option (\<lambda>c. saturating_sub_u32 (nd_height bn) (nd_height c))
                                                 (Option.bind common (Mapping.lookup (nodes m1)))),
                                       m1\<lparr>best := Some key\<rparr>)
                                  else if common = Some key then Returns (Behind height, m1)
                                  else if common \<noteq> None then Returns (Fork common, m1)
                                  else Returns (Unlinked, m1))))"

lemma tip_node_sel [simp]:
  "nd_hash (tip_node C tip) = tip_state_hash tip" "nd_prev (tip_node C tip) = tip_prev_key C tip"
  "nd_height (tip_node C tip) = tip_height tip" "nd_cs (tip_node C tip) = tip_consensus_state tip"
  by (simp_all add: tip_node_def)

end
