(* ===== verification/Window.thy ===== *)
theory Window
  imports ChainMonitor
begin

text \<open>
  The window of the chain monitor: what insertion with eviction does to the map and the deque.
  The interface the rest of the development uses is the locale \<open>bounded_store\<close>: a store of
  bounded size with a pinned key, in which an insertion keeps the new and the pinned entry,
  invents nothing, and evicts only when full. It is interpreted on \<open>insert_node\<close> for monitors of
  capacity at least two.
\<close>

section \<open>Evicting one key\<close>

lemma evict_loop_Nil [simp]: "evict_loop bst ns [] r = (True, ns, [])"
  by (subst evict_loop.simps) simp

lemma evict_loop_other: "Some k \<noteq> bst \<Longrightarrow> evict_loop bst ns (k # ks) r = (False, Mapping.delete k ns, ks)"
  by (subst evict_loop.simps) simp

lemma evict_loop_only: "evict_loop (Some k) ns [k] 0 = (True, ns, [k])"
  by (subst evict_loop.simps) simp

lemma evict_loop_rotate:
  "k \<noteq> k' \<Longrightarrow> evict_loop (Some k) ns (k # k' # ks) 0 = (False, Mapping.delete k' ns, ks @ [k])"
  by (subst evict_loop.simps) (simp add: evict_loop_other)

text \<open>The key that goes: the oldest one that is not the best.\<close>

definition victim :: "string option \<Rightarrow> string list \<Rightarrow> string" where
  "victim bst ord = hd (filter (\<lambda>k. Some k \<noteq> bst) ord)"

lemma victim_append:
  "\<exists>k \<in> set ord. Some k \<noteq> bst \<Longrightarrow> victim bst (ord @ ord') = victim bst ord"
  by (auto simp: victim_def filter_empty_conv)

lemma victim_mem:
  assumes "\<exists>k \<in> set ord. Some k \<noteq> bst"
  shows "victim bst ord \<in> set ord" and "Some (victim bst ord) \<noteq> bst"
proof -
  have "filter (\<lambda>k. Some k \<noteq> bst) ord \<noteq> []" using assms by (auto simp: filter_empty_conv)
  then have "victim bst ord \<in> set (filter (\<lambda>k. Some k \<noteq> bst) ord)"
    unfolding victim_def by (rule hd_in_set)
  then show "victim bst ord \<in> set ord" and "Some (victim bst ord) \<noteq> bst" by auto
qed

lemma distinct_other:
  assumes "distinct ord" and "2 \<le> length ord"
  shows "\<exists>k \<in> set ord. Some k \<noteq> bst"
proof -
  obtain a b ks where "ord = a # b # ks" "a \<noteq> b"
    using assms by (cases ord; cases "tl ord") auto
  then show ?thesis by (cases "Some a = bst") auto
qed

lemma evict_loop_victim:
  assumes "distinct ord" and "2 \<le> length ord"
  obtains ord' where "evict_loop bst ns ord 0 = (False, Mapping.delete (victim bst ord) ns, ord')"
    and "distinct ord'" and "set ord' = set ord - {victim bst ord}"
proof -
  obtain a b ks where ord: "ord = a # b # ks" "a \<noteq> b" "a \<notin> set ks" "b \<notin> set ks" "distinct ks"
    using assms by (cases ord; cases "tl ord") auto
  show thesis
  proof (cases "Some a = bst")
    case True
    then have "victim bst ord = b" using ord by (auto simp: victim_def)
    then show thesis using that [of "ks @ [a]"] ord evict_loop_rotate [of a b ns ks] True by auto
  next
    case False
    then have "victim bst ord = a" using ord by (simp add: victim_def)
    then show thesis using that [of "b # ks"] ord evict_loop_other [OF False, of ns "b # ks" 0] by auto
  qed
qed

section \<open>Well-formed windows\<close>

definition window_ok :: "('h, 'x) chain_monitor \<Rightarrow> bool" where
  "window_ok m \<longleftrightarrow> distinct (order m) \<and> set (order m) = Mapping.keys (nodes m) \<and>
     length (order m) \<le> capacity m \<and> 1 \<le> capacity m"

lemma window_ok_len: "window_ok m \<Longrightarrow> len m = length (order m)"
  by (simp add: window_ok_def len_def distinct_length_card_keys)

lemma size_after_update:
  assumes "distinct ord" and "set ord = Mapping.keys ns" and "key \<notin> Mapping.keys ns"
  shows "Mapping.size (Mapping.update key n ns) = Suc (length ord)"
  using assms distinct_length_card_keys [of "key # ord" "Mapping.update key n ns"] by simp

lemma insert_node_room:
  assumes "window_ok m" and "key \<notin> Mapping.keys (nodes m)" and "length (order m) < capacity m"
  shows "insert_node key n m =
    m\<lparr>nodes := Mapping.update key n (nodes m), order := order m @ [key]\<rparr>"
proof -
  have "Mapping.size (Mapping.update key n (nodes m)) \<le> capacity m"
    using size_after_update [of "order m" "nodes m" key n] assms by (auto simp: window_ok_def)
  then show ?thesis by (simp add: insert_node_def evict_while.simps)
qed

lemma insert_node_full:
  assumes ok: "window_ok m" and new: "key \<notin> Mapping.keys (nodes m)"
    and full: "length (order m) = capacity m"
  obtains ord' where
    "insert_node key n m =
       m\<lparr>nodes := Mapping.delete (victim (best m) (order m @ [key])) (Mapping.update key n (nodes m)),
         order := ord'\<rparr>"
    and "distinct ord'"
    and "set ord' = insert key (set (order m)) - {victim (best m) (order m @ [key])}"
proof -
  let ?ord = "order m @ [key]" and ?ns = "Mapping.update key n (nodes m)"
  let ?v = "victim (best m) ?ord"
  have ord: "distinct ?ord" "2 \<le> length ?ord" using ok new full by (auto simp: window_ok_def)
  obtain ord' where ev: "evict_loop (best m) ?ns ?ord 0 = (False, Mapping.delete ?v ?ns, ord')"
    and ord': "distinct ord'" "set ord' = set ?ord - {?v}"
    by (rule evict_loop_victim [OF ord])
  have v: "?v \<in> set ?ord" by (rule victim_mem(1) [OF distinct_other [OF ord]])
  have over: "Mapping.size ?ns = Suc (capacity m)"
    using size_after_update [of "order m" "nodes m" key n] ok new full by (simp add: window_ok_def)
  have "set ord' = Mapping.keys (Mapping.delete ?v ?ns)" using ord' ok by (auto simp: window_ok_def)
  then have "Mapping.size (Mapping.delete ?v ?ns) = length ord'"
    using ord' by (simp add: distinct_length_card_keys)
  also have "\<dots> = capacity m"
    using ord v full ord' by (simp add: card_Diff_singleton flip: distinct_card)
  finally have "evict_while (capacity m) (best m) ?ns ?ord = (Mapping.delete ?v ?ns, ord')"
    using over ev by (simp add: evict_while.simps [of _ _ ?ns] evict_while.simps [of _ _ "Mapping.delete ?v ?ns"])
  then show thesis using that [of ord'] ord' by (auto simp: insert_node_def)
qed

lemma insert_node_frame [simp]:
  "capacity (insert_node key n m) = capacity m" "best (insert_node key n m) = best m"
  by (simp_all add: insert_node_def split: prod.split)

text \<open>Both cases at once, by what a lookup finds afterwards.\<close>

lemma insert_node_lookup:
  assumes ok: "window_ok m" and new: "key \<notin> Mapping.keys (nodes m)"
  shows "Mapping.lookup (nodes (insert_node key n m)) k =
    (if length (order m) = capacity m \<and> k = victim (best m) (order m @ [key]) then None
     else if k = key then Some n else Mapping.lookup (nodes m) k)"
proof (cases "length (order m) = capacity m")
  case True
  obtain ord' where "insert_node key n m =
      m\<lparr>nodes := Mapping.delete (victim (best m) (order m @ [key])) (Mapping.update key n (nodes m)),
        order := ord'\<rparr>"
    by (rule insert_node_full [OF ok new True])
  then show ?thesis using True by (simp add: lookup_delete lookup_update')
next
  case False
  then have "length (order m) < capacity m" using ok by (simp add: window_ok_def)
  then show ?thesis using insert_node_room [OF ok new] False by (auto simp: lookup_update')
qed

lemma insert_node_window_ok:
  assumes ok: "window_ok m" and new: "key \<notin> Mapping.keys (nodes m)"
  shows "window_ok (insert_node key n m) \<and>
    len (insert_node key n m) = min (capacity m) (Suc (len m))"
proof (cases "length (order m) = capacity m")
  case full: True
  obtain ord' where ins: "insert_node key n m =
      m\<lparr>nodes := Mapping.delete (victim (best m) (order m @ [key])) (Mapping.update key n (nodes m)),
        order := ord'\<rparr>" "distinct ord'"
      "set ord' = insert key (set (order m)) - {victim (best m) (order m @ [key])}"
    by (rule insert_node_full [OF ok new full])
  have ord: "distinct (order m @ [key])" "2 \<le> length (order m @ [key])"
    using ok new full by (auto simp: window_ok_def)
  have "victim (best m) (order m @ [key]) \<in> set (order m @ [key])"
    by (rule victim_mem(1) [OF distinct_other [OF ord]])
  then have "length ord' = capacity m"
    using ins ord full by (simp add: card_Diff_singleton flip: distinct_card)
  then have ok': "window_ok (insert_node key n m)"
    using ok ins by (auto simp: window_ok_def)
  then show ?thesis
    using window_ok_len [OF ok] window_ok_len [OF ok'] ins full \<open>length ord' = capacity m\<close> by simp
next
  case False
  then have room: "length (order m) < capacity m" using ok by (simp add: window_ok_def)
  have ok': "window_ok (insert_node key n m)"
    using ok new room by (auto simp: insert_node_room window_ok_def)
  then show ?thesis
    using window_ok_len [OF ok] window_ok_len [OF ok'] insert_node_room [OF ok new room, of n] room by simp
qed

section \<open>The store interface\<close>

locale bounded_store =
  fixes ok :: "'s \<Rightarrow> bool"
    and look :: "'s \<Rightarrow> 'k \<Rightarrow> 'v option"
    and ins :: "'k \<Rightarrow> 'v \<Rightarrow> 's \<Rightarrow> 's"
    and count :: "'s \<Rightarrow> nat"
    and bound :: "'s \<Rightarrow> nat"
    and pinned :: "'s \<Rightarrow> 'k option"
  assumes ok_ins: "\<lbrakk>ok s; look s k = None\<rbrakk> \<Longrightarrow> ok (ins k v s)"
    and look_new: "\<lbrakk>ok s; look s k = None\<rbrakk> \<Longrightarrow> look (ins k v s) k = Some v"
    and look_pinned: "\<lbrakk>ok s; look s k = None; pinned s = Some b; b \<noteq> k\<rbrakk> \<Longrightarrow>
      look (ins k v s) b = look s b"
    and look_old: "\<lbrakk>ok s; look s k = None; look (ins k v s) j = Some w; j \<noteq> k\<rbrakk> \<Longrightarrow> look s j = Some w"
    and look_room: "\<lbrakk>ok s; look s k = None; count s < bound s; j \<noteq> k\<rbrakk> \<Longrightarrow> look (ins k v s) j = look s j"
    and count_ins: "\<lbrakk>ok s; look s k = None\<rbrakk> \<Longrightarrow> count (ins k v s) = min (bound s) (Suc (count s))"
    and bound_ins: "bound (ins k v s) = bound s"
    and pinned_ins: "pinned (ins k v s) = pinned s"
begin

fun ins_all :: "('k \<times> 'v) list \<Rightarrow> 's \<Rightarrow> 's" where
  "ins_all [] s = s"
| "ins_all ((k, v) # kvs) s = ins_all kvs (if look s k = None then ins k v s else s)"

lemma ins_all_ok: "ok s \<Longrightarrow> ok (ins_all kvs s) \<and> pinned (ins_all kvs s) = pinned s"
  by (induction kvs s rule: ins_all.induct) (auto simp: ok_ins pinned_ins)

lemma ins_all_pinned:
  "\<lbrakk>ok s; pinned s = Some b; look s b = Some w\<rbrakk> \<Longrightarrow> look (ins_all kvs s) b = Some w"
proof (induction kvs s rule: ins_all.induct)
  case (2 k v kvs s)
  then show ?case using look_pinned [of s k b v] by (cases "b = k") (auto simp: ok_ins pinned_ins)
qed simp

lemma ins_all_sound:
  "\<lbrakk>ok s; look (ins_all kvs s) j = Some w\<rbrakk> \<Longrightarrow> look s j = Some w \<or> (j, w) \<in> set kvs"
proof (induction kvs s rule: ins_all.induct)
  case (2 k v kvs s)
  then show ?case
    using look_old [of s k v j w] look_new [of s k v]
    by (cases "j = k") (auto simp: ok_ins split: if_splits)
qed simp

end

definition window_live :: "('h, 'x) chain_monitor \<Rightarrow> bool" where
  "window_live m \<longleftrightarrow> window_ok m \<and> 2 \<le> capacity m"

text \<open>With room for two, the victim is never the new key: there is an older key that is not
  the best.\<close>

lemma victim_is_old:
  assumes live: "window_live m" and full: "length (order m) = capacity m"
  shows "victim (best m) (order m @ [key]) \<in> set (order m)"
    and "Some (victim (best m) (order m @ [key])) \<noteq> best m"
proof -
  have old: "\<exists>k \<in> set (order m). Some k \<noteq> best m"
    using live full by (intro distinct_other) (auto simp: window_live_def window_ok_def)
  then show "victim (best m) (order m @ [key]) \<in> set (order m)"
    and "Some (victim (best m) (order m @ [key])) \<noteq> best m"
    using victim_mem [OF old] by (simp_all add: victim_append)
qed

interpretation win: bounded_store window_live "\<lambda>m. Mapping.lookup (nodes m)" insert_node len
  capacity best
proof unfold_locales
  fix m :: "('a, 'b) chain_monitor" and key n k w b
  assume live: "window_live m" and look: "Mapping.lookup (nodes m) key = None"
  then have ok: "window_ok m" and new: "key \<notin> Mapping.keys (nodes m)"
    by (simp_all add: window_live_def lookup_None_iff)
  note lookup = insert_node_lookup [OF ok new]
  have old: "length (order m) = capacity m \<Longrightarrow> victim (best m) (order m @ [key]) \<noteq> key"
    using victim_is_old(1) [OF live, of key] ok new by (auto simp: window_ok_def)
  show "window_live (insert_node key n m)"
    using insert_node_window_ok [OF ok new] live by (simp add: window_live_def)
  show "Mapping.lookup (nodes (insert_node key n m)) key = Some n"
    using old by (auto simp: lookup)
  show "len (insert_node key n m) = min (capacity m) (Suc (len m))"
    using insert_node_window_ok [OF ok new] by simp
  show "Mapping.lookup (nodes (insert_node key n m)) b = Mapping.lookup (nodes m) b"
    if "best m = Some b" "b \<noteq> key"
    using victim_is_old(2) [OF live, of key] that by (auto simp: lookup)
  show "Mapping.lookup (nodes m) k = Some w"
    if "Mapping.lookup (nodes (insert_node key n m)) k = Some w" "k \<noteq> key"
    using that by (auto simp: lookup split: if_splits)
  show "Mapping.lookup (nodes (insert_node key n m)) k = Mapping.lookup (nodes m) k"
    if "len m < capacity m" "k \<noteq> key"
    using that window_ok_len [OF ok] by (auto simp: lookup)
qed simp_all

end
