(* ===== verification/Ancestry.thy ===== *)
theory Ancestry
  imports ChainMonitor
begin

text \<open>
  What \<^verbatim>\<open>common_ancestor\<close> computes. \<open>ancestor ns k a\<close> says that \<open>a\<close> is reached from \<open>k\<close> by
  parent links of blocks in the window; \<open>a\<close> itself may lie just outside it. The loops follow
  heights, so the result is about windows whose heights belong to a chain: \<open>chain_heights H ns\<close>
  says that some height function \<open>H\<close> on keys agrees with every node and drops by one along its
  parent link. Blocks with a verified proof have this property, their length being the length
  of their parent plus one. Under it both loops end and the result is the lowest common
  ancestor.
\<close>

section \<open>Ancestors\<close>

inductive ancestor :: "('h, 'x) window \<Rightarrow> string \<Rightarrow> string \<Rightarrow> bool"
  for ns :: "('h, 'x) window"
where
  anc_self: "ancestor ns k k"
| anc_link: "\<lbrakk>Mapping.lookup ns k = Some n; ancestor ns (nd_prev n) a\<rbrakk> \<Longrightarrow> ancestor ns k a"

definition chain_heights :: "(string \<Rightarrow> nat) \<Rightarrow> ('h, 'x) window \<Rightarrow> bool" where
  "chain_heights H ns \<longleftrightarrow>
     (\<forall>k n. Mapping.lookup ns k = Some n \<longrightarrow> unat (nd_height n) = H k \<and> H k = Suc (H (nd_prev n)))"

definition lowest_common :: "('h, 'x) window \<Rightarrow> string \<Rightarrow> string \<Rightarrow> string \<Rightarrow> bool" where
  "lowest_common ns a b c \<longleftrightarrow>
     ancestor ns a c \<and> ancestor ns b c \<and>
     (\<forall>d. ancestor ns a d \<and> ancestor ns b d \<longrightarrow> ancestor ns c d)"

lemma ancestor_outside: "Mapping.lookup ns k = None \<Longrightarrow> ancestor ns k a \<longleftrightarrow> a = k"
  by (auto elim: ancestor.cases intro: anc_self)

lemma ancestor_inside:
  "Mapping.lookup ns k = Some n \<Longrightarrow> ancestor ns k a \<longleftrightarrow> a = k \<or> ancestor ns (nd_prev n) a"
  by (auto elim: ancestor.cases intro: ancestor.intros)

lemma ancestor_trans: "ancestor ns a b \<Longrightarrow> ancestor ns b c \<Longrightarrow> ancestor ns a c"
  by (induction rule: ancestor.induct) (auto intro: anc_link)

lemma chain_heightsD:
  assumes "chain_heights H ns" and "Mapping.lookup ns k = Some n"
  shows "unat (nd_height n) = H k" and "H k = Suc (H (nd_prev n))"
  using assms by (auto simp: chain_heights_def)

lemma height_order:
  assumes "chain_heights H ns" "Mapping.lookup ns x = Some nx" "Mapping.lookup ns y = Some ny"
  shows "nd_height nx = nd_height ny \<longleftrightarrow> H x = H y" and "nd_height ny < nd_height nx \<longleftrightarrow> H y < H x"
  using chain_heightsD(1) [OF assms(1,2)] chain_heightsD(1) [OF assms(1,3)]
  by (auto simp: word_less_nat_alt word_unat_eq_iff)

lemma ancestor_height: "chain_heights H ns \<Longrightarrow> ancestor ns k a \<Longrightarrow> H a \<le> H k"
  by (rotate_tac, induction rule: ancestor.induct) (auto dest: chain_heightsD(2))

lemma ancestor_same_height:
  assumes "chain_heights H ns" and "ancestor ns k a" and "H a = H k"
  shows "a = k"
  using assms(2)
proof cases
  case (anc_link n)
  then show ?thesis
    using ancestor_height [OF assms(1) anc_link(2)] chain_heightsD(2) [OF assms(1) anc_link(1)] assms(3) by simp
qed simp

lemma ancestor_antisym:
  "\<lbrakk>chain_heights H ns; ancestor ns a b; ancestor ns b a\<rbrakk> \<Longrightarrow> a = b"
  using ancestor_height ancestor_same_height by (metis le_antisym)

lemma lowest_common_unique:
  "\<lbrakk>chain_heights H ns; lowest_common ns a b c; lowest_common ns a b d\<rbrakk> \<Longrightarrow> c = d"
  by (meson ancestor_antisym lowest_common_def)

section \<open>The lockstep loop\<close>

text \<open>What a call answers: the lowest common ancestor, or that there is none.\<close>

definition answers_lca :: "('h, 'x) window \<Rightarrow> string \<Rightarrow> string \<Rightarrow> string option \<Rightarrow> bool" where
  "answers_lca ns x y r \<longleftrightarrow>
     (case r of None \<Rightarrow> \<not> (\<exists>c. ancestor ns x c \<and> ancestor ns y c) | Some c \<Rightarrow> lowest_common ns x y c)"

lemma answers_lca_cong:
  assumes "\<And>c. ancestor ns x c \<and> ancestor ns y c \<longleftrightarrow> ancestor ns x' c \<and> ancestor ns y' c"
  shows "answers_lca ns x y r \<longleftrightarrow> answers_lca ns x' y' r"
  using assms unfolding answers_lca_def lowest_common_def by (cases r) (simp_all, metis)

lemma lockstep_step:
  assumes ch: "chain_heights H ns" and "H x = H y" and "x \<noteq> y"
    and "Mapping.lookup ns x = Some nx" and "Mapping.lookup ns y = Some ny"
  shows "ancestor ns x c \<and> ancestor ns y c \<longleftrightarrow>
    ancestor ns (nd_prev nx) c \<and> ancestor ns (nd_prev ny) c"
  using assms ancestor_same_height [OF ch, of x y] ancestor_same_height [OF ch, of y x]
  by (auto simp: ancestor_inside)

lemma lockstep_correct:
  assumes ch: "chain_heights H ns"
  shows "H x = H y \<Longrightarrow> \<exists>r. lockstep ns x y = Some r \<and> answers_lca ns x y r"
proof (induction "H x" arbitrary: x y rule: less_induct)
  case less
  consider (met) "x = y" | (x_out) "x \<noteq> y" "Mapping.lookup ns x = None"
    | (y_out) nx where "x \<noteq> y" "Mapping.lookup ns x = Some nx" "Mapping.lookup ns y = None"
    | (both) nx ny where "x \<noteq> y" "Mapping.lookup ns x = Some nx" "Mapping.lookup ns y = Some ny"
    by (cases "Mapping.lookup ns x"; cases "Mapping.lookup ns y") auto
  then show ?case
  proof cases
    case met
    then show ?thesis
      by (simp add: lockstep.simps answers_lca_def lowest_common_def anc_self)
  next
    case x_out
    then have "\<not> ancestor ns y x" using ancestor_same_height [OF ch, of y x] less.prems by auto
    then show ?thesis using x_out by (auto simp: lockstep.simps answers_lca_def ancestor_outside)
  next
    case y_out
    then have "\<not> ancestor ns x y" using ancestor_same_height [OF ch, of x y] less.prems by auto
    then show ?thesis using y_out by (auto simp: lockstep.simps answers_lca_def ancestor_outside)
  next
    case both
    have "H (nd_prev nx) < H x" "H (nd_prev nx) = H (nd_prev ny)"
      using chain_heightsD(2) [OF ch both(2)] chain_heightsD(2) [OF ch both(3)] less.prems by simp_all
    then obtain r where "lockstep ns (nd_prev nx) (nd_prev ny) = Some r"
      and "answers_lca ns (nd_prev nx) (nd_prev ny) r"
      using less.hyps by blast
    then show ?thesis
      using both answers_lca_cong [OF lockstep_step [OF ch less.prems both]]
      by (simp add: lockstep.simps [of ns x y])
  qed
qed

section \<open>The height loop\<close>

text \<open>The loop invariant: a cursor that has left the window is not below the other one, which is
  still inside.\<close>

definition cursors_ok :: "(string \<Rightarrow> nat) \<Rightarrow> ('h, 'x) window \<Rightarrow> string \<Rightarrow> string \<Rightarrow> bool" where
  "cursors_ok H ns x y \<longleftrightarrow>
     (Mapping.lookup ns x = None \<longrightarrow> Mapping.lookup ns y \<noteq> None \<and> H y \<le> H x) \<and>
     (Mapping.lookup ns y = None \<longrightarrow> Mapping.lookup ns x \<noteq> None \<and> H x \<le> H y)"

lemma cursor_out:
  assumes ch: "chain_heights H ns" and "Mapping.lookup ns x = None"
    and "Mapping.lookup ns y \<noteq> None" and "H y \<le> H x"
  shows "\<not> (ancestor ns x c \<and> ancestor ns y c)"
  using assms ancestor_height [OF ch, of y x] ancestor_same_height [OF ch, of y x]
  by (auto simp: ancestor_outside)

text \<open>What the loop hands on: two cursors at one height with the same common ancestors, or that
  there are none.\<close>

definition levels ::
  "(string \<Rightarrow> nat) \<Rightarrow> ('h, 'x) window \<Rightarrow> string \<Rightarrow> string \<Rightarrow> (string \<times> string) option \<Rightarrow> bool" where
  "levels H ns x y r \<longleftrightarrow>
     (case r of
        None \<Rightarrow> \<not> (\<exists>c. ancestor ns x c \<and> ancestor ns y c)
      | Some (x', y') \<Rightarrow> H x' = H y' \<and>
          (\<forall>c. ancestor ns x c \<and> ancestor ns y c \<longleftrightarrow> ancestor ns x' c \<and> ancestor ns y' c))"

lemma levels_cong:
  assumes "\<And>c. ancestor ns x c \<and> ancestor ns y c \<longleftrightarrow> ancestor ns x' c \<and> ancestor ns y' c"
  shows "levels H ns x y r \<longleftrightarrow> levels H ns x' y' r"
  using assms unfolding levels_def by (cases r) auto

lemma equal_height_correct:
  assumes ch: "chain_heights H ns"
  shows "cursors_ok H ns x y \<Longrightarrow> \<exists>r. equal_height ns x y = Some r \<and> levels H ns x y r"
proof (induction "H x + H y" arbitrary: x y rule: less_induct)
  case less
  show ?case
  proof (cases "Mapping.lookup ns x = None \<or> Mapping.lookup ns y = None")
    case True
    then have "\<not> (ancestor ns x c \<and> ancestor ns y c)" for c
      using less.prems cursor_out [OF ch, of x y c] cursor_out [OF ch, of y x c]
      by (auto simp: cursors_ok_def)
    then show ?thesis using True by (auto simp: equal_height.simps [of ns x y] levels_def split: option.split)
  next
    case False
    then obtain nx ny where nx: "Mapping.lookup ns x = Some nx" and ny: "Mapping.lookup ns y = Some ny"
      by auto
    note hx = chain_heightsD(2) [OF ch nx] and hy = chain_heightsD(2) [OF ch ny]
    note order = height_order [OF ch nx ny]
    consider "H x = H y" | "H y < H x" | "H x < H y" by linarith
    then show ?thesis
    proof cases
      case 1
      then show ?thesis using nx ny order by (simp add: equal_height.simps [of ns x y] levels_def)
    next
      case 2
      have "cursors_ok H ns (nd_prev nx) y" using 2 hx ny by (auto simp: cursors_ok_def)
      moreover have "levels H ns x y r \<longleftrightarrow> levels H ns (nd_prev nx) y r" for r
        using ancestor_height [OF ch, of y x] 2 by (intro levels_cong) (auto simp: ancestor_inside [OF nx])
      ultimately show ?thesis
        using less.hyps [of "nd_prev nx" y] hx 2 nx ny order by (simp add: equal_height.simps [of ns x y])
    next
      case 3
      have "cursors_ok H ns x (nd_prev ny)" using 3 hy nx by (auto simp: cursors_ok_def)
      moreover have "levels H ns x y r \<longleftrightarrow> levels H ns x (nd_prev ny) r" for r
        using ancestor_height [OF ch, of x y] 3 by (intro levels_cong) (auto simp: ancestor_inside [OF ny])
      ultimately show ?thesis
        using less.hyps [of x "nd_prev ny"] hy 3 nx ny order by (simp add: equal_height.simps [of ns x y])
    qed
  qed
qed

lemma common_ancestor_correct:
  assumes ch: "chain_heights H ns" and "a \<in> Mapping.keys ns" and "b \<in> Mapping.keys ns"
  shows "\<exists>r. common_ancestor ns a b = Some r \<and> answers_lca ns a b r"
proof -
  have "cursors_ok H ns a b" using assms by (auto simp: cursors_ok_def keys_lookup_iff)
  then obtain r where r: "equal_height ns a b = Some r" and spec: "levels H ns a b r"
    using equal_height_correct [OF ch] by blast
  show ?thesis
  proof (cases r)
    case None
    then show ?thesis using r spec by (simp add: common_ancestor_def answers_lca_def levels_def)
  next
    case (Some p)
    obtain x' y' where "p = (x', y')" by (cases p)
    then show ?thesis
      using Some r spec lockstep_correct [OF ch, of x' y'] answers_lca_cong [of ns a b x' y']
      by (auto simp: common_ancestor_def levels_def)
  qed
qed

lemma lca_right:
  assumes "chain_heights H ns" and "answers_lca ns x y r" and "ancestor ns x y"
  shows "r = Some y"
proof (cases r)
  case None
  then show ?thesis using assms anc_self [of ns y] by (auto simp: answers_lca_def)
next
  case (Some c)
  then have "ancestor ns y c" "ancestor ns c y"
    using assms(2,3) anc_self [of ns y] by (auto simp: answers_lca_def lowest_common_def)
  then show ?thesis using Some ancestor_antisym [OF assms(1)] by blast
qed

lemma answers_lca_sym: "answers_lca ns x y r \<longleftrightarrow> answers_lca ns y x r"
  by (auto simp: answers_lca_def lowest_common_def split: option.split)

lemma lca_left:
  "\<lbrakk>chain_heights H ns; answers_lca ns x y r; ancestor ns y x\<rbrakk> \<Longrightarrow> r = Some x"
  using lca_right answers_lca_sym by metis

section \<open>Counting links\<close>

text \<open>\<open>links ns n k a\<close>: exactly \<open>n\<close> parent links lead from \<open>k\<close> to \<open>a\<close>.\<close>

fun links :: "('h, 'x) window \<Rightarrow> nat \<Rightarrow> string \<Rightarrow> string \<Rightarrow> bool" where
  "links ns 0 k a = (k = a)"
| "links ns (Suc n) k a =
     (case Mapping.lookup ns k of None \<Rightarrow> False | Some nd \<Rightarrow> links ns n (nd_prev nd) a)"

lemma ancestor_links: "ancestor ns k a \<Longrightarrow> \<exists>n. links ns n k a"
proof (induction rule: ancestor.induct)
  case (anc_self k)
  show ?case by (rule exI [of _ 0]) simp
next
  case (anc_link k nd a)
  then obtain n where "links ns n (nd_prev nd) a" by blast
  then have "links ns (Suc n) k a" using anc_link by simp
  then show ?case by blast
qed

lemma links_height: "chain_heights H ns \<Longrightarrow> links ns n k a \<Longrightarrow> H k = H a + n"
  by (induction n arbitrary: k) (auto split: option.splits dest: chain_heightsD(2))

lemma ancestor_distance:
  assumes "chain_heights H ns" and "ancestor ns k a"
  shows "links ns (H k - H a) k a"
  using ancestor_links [OF assms(2)] links_height [OF assms(1)] by (metis add_diff_cancel_left')

end
