(* ===== verification/Monitor.thy ===== *)
theory Monitor
  imports Window Ancestry
begin

text \<open>
  The chain monitor as a state machine: the invariant of the monitor, that ingestion keeps it,
  never panics and (fed with blocks of a chain) always returns, what each outcome means for the
  window, and the refinement of the abstract fork-choice register by the monitor's best tip.

  \<open>monitor_ok\<close> is the invariant for capacity at least two; \<open>feed_ok\<close> adds that the window's
  heights are those of a chain; \<open>tip_linked\<close> is the corresponding property of an incoming tip.
\<close>

section \<open>Invariants\<close>

definition monitor_ok :: "('h, 'x) consensus_env \<Rightarrow> ('h, 'x) chain_monitor \<Rightarrow> bool" where
  "monitor_ok C m \<longleftrightarrow> window_live m \<and>
     (case best m of None \<Rightarrow> order m = [] | Some b \<Rightarrow> b \<in> Mapping.keys (nodes m)) \<and>
     (\<forall>k n. Mapping.lookup (nodes m) k = Some n \<longrightarrow> hash_to_string C (nd_hash n) = k)"

definition tip_linked ::
  "('h, 'x) consensus_env \<Rightarrow> (string \<Rightarrow> nat) \<Rightarrow> ('h, 'p, 'x) verified_tip \<Rightarrow> bool" where
  "tip_linked C H tip \<longleftrightarrow>
     unat (tip_height tip) = H (tip_key C tip) \<and> H (tip_key C tip) = Suc (H (tip_prev_key C tip))"

definition feed_ok ::
  "('h, 'x) consensus_env \<Rightarrow> (string \<Rightarrow> nat) \<Rightarrow> ('h, 'x) chain_monitor \<Rightarrow> bool" where
  "feed_ok C H m \<longleftrightarrow> monitor_ok C m \<and> chain_heights H (nodes m)"

lemma monitor_ok_new: "2 \<le> cap \<Longrightarrow> monitor_ok C (new cap)"
  by (simp add: monitor_ok_def new_def window_live_def window_ok_def)

lemma chain_heights_new: "chain_heights H (nodes (new cap))"
  by (simp add: chain_heights_def new_def lookup_empty)

lemma monitor_ok_live: "monitor_ok C m \<Longrightarrow> window_live m"
  by (simp add: monitor_ok_def)

lemma monitor_ok_best:
  "monitor_ok C m \<Longrightarrow> best m = Some b \<Longrightarrow> \<exists>bn. Mapping.lookup (nodes m) b = Some bn"
  by (simp add: monitor_ok_def keys_lookup_iff)

section \<open>Ingestion, case by case\<close>

text \<open>The window after a new tip has been inserted.\<close>

definition after_insert ::
  "('h, 'x) consensus_env \<Rightarrow> ('h, 'p, 'x) verified_tip \<Rightarrow> ('h, 'x) chain_monitor \<Rightarrow>
   ('h, 'x) chain_monitor" where
  "after_insert C tip m = insert_node (tip_key C tip) (tip_node C tip) m"

definition competing_outcome ::
  "('h, 'p, 'x) verified_tip \<Rightarrow> string \<Rightarrow> ('h, 'x) window \<Rightarrow> string \<Rightarrow> ('h, 'x) node \<Rightarrow> bool \<Rightarrow>
   string option \<Rightarrow> 'h ingest_outcome" where
  "competing_outcome tip key ns b bn better common =
     (if better then
        (if common = Some b then Extend (tip_height tip)
         else Reorg (nd_hash bn) common
                (map_option (\<lambda>c. saturating_sub_u32 (nd_height bn) (nd_height c))
                   (Option.bind common (Mapping.lookup ns))))
      else if common = Some key then Behind (tip_height tip)
      else if common \<noteq> None then Fork common
      else Unlinked)"

lemma after_insert_fields [simp]:
  "best (after_insert C tip m) = best m" "capacity (after_insert C tip m) = capacity m"
  by (simp_all add: after_insert_def)

context bounded_store
begin

lemma ins_keeps_pinned:
  "\<lbrakk>ok s; look s k = None; pinned s = Some b; look s b = Some w\<rbrakk> \<Longrightarrow> look (ins k v s) b = Some w"
  using look_pinned [of s k b v] by (cases "b = k") auto

end

lemma ingest_duplicate:
  "tip_key C tip \<in> Mapping.keys (nodes m) \<Longrightarrow> ingest C tip m = Returns (Duplicate, m)"
  by (simp add: ingest_def)

lemma ingest_genesis:
  "\<lbrakk>tip_key C tip \<notin> Mapping.keys (nodes m); best m = None\<rbrakk> \<Longrightarrow>
   ingest C tip m = Returns (Genesis, (after_insert C tip m)\<lparr>best := Some (tip_key C tip)\<rparr>)"
  by (simp add: ingest_def Let_def after_insert_def)

lemma ingest_extend:
  "\<lbrakk>tip_key C tip \<notin> Mapping.keys (nodes m); best m = Some (tip_prev_key C tip)\<rbrakk> \<Longrightarrow>
   ingest C tip m = Returns (Extend (tip_height tip),
     (after_insert C tip m)\<lparr>best := Some (tip_key C tip)\<rparr>)"
  by (simp add: ingest_def Let_def after_insert_def)

lemma after_insert_lookups:
  assumes "monitor_ok C m" and "tip_key C tip \<notin> Mapping.keys (nodes m)"
  shows "Mapping.lookup (nodes (after_insert C tip m)) (tip_key C tip) = Some (tip_node C tip)"
    and "\<lbrakk>best m = Some b; Mapping.lookup (nodes m) b = Some bn\<rbrakk> \<Longrightarrow>
      Mapping.lookup (nodes (after_insert C tip m)) b = Some bn"
  using win.look_new [OF monitor_ok_live] win.ins_keeps_pinned [OF monitor_ok_live] assms
  by (simp_all add: after_insert_def lookup_None_iff)

lemma ingest_competing:
  assumes ok: "monitor_ok C m" and new: "tip_key C tip \<notin> Mapping.keys (nodes m)"
    and b: "best m = Some b" "tip_prev_key C tip \<noteq> b" and bn: "Mapping.lookup (nodes m) b = Some bn"
  shows "ingest C tip m =
    (let better = consensus_take C (nd_cs bn) (tip_consensus_state tip) (nd_hash bn) (tip_state_hash tip);
         m1 = after_insert C tip m
     in case common_ancestor (nodes m1) (tip_key C tip) b of
          None \<Rightarrow> Diverges
        | Some common \<Rightarrow>
            Returns (competing_outcome tip (tip_key C tip) (nodes m1) b bn better common,
              if better then m1\<lparr>best := Some (tip_key C tip)\<rparr> else m1))"
  using after_insert_lookups [OF ok new] new b bn
  by (simp add: ingest_def Let_def competing_outcome_def after_insert_def
      split: option.split)

text \<open>What a call that returns did.\<close>

lemma ingest_returns:
  assumes ok: "monitor_ok C m" and run: "ingest C tip m = Returns (out, m')"
  obtains (duplicate) "tip_key C tip \<in> Mapping.keys (nodes m)" "out = Duplicate" "m' = m"
  | (genesis) "tip_key C tip \<notin> Mapping.keys (nodes m)" "best m = None" "out = Genesis"
      "m' = (after_insert C tip m)\<lparr>best := Some (tip_key C tip)\<rparr>"
  | (extend) "tip_key C tip \<notin> Mapping.keys (nodes m)" "best m = Some (tip_prev_key C tip)"
      "out = Extend (tip_height tip)"
      "m' = (after_insert C tip m)\<lparr>best := Some (tip_key C tip)\<rparr>"
  | (competing) b bn better common where
      "tip_key C tip \<notin> Mapping.keys (nodes m)" "best m = Some b" "tip_prev_key C tip \<noteq> b"
      "Mapping.lookup (nodes m) b = Some bn"
      "better = consensus_take C (nd_cs bn) (tip_consensus_state tip) (nd_hash bn) (tip_state_hash tip)"
      "common_ancestor (nodes (after_insert C tip m)) (tip_key C tip) b = Some common"
      "out = competing_outcome tip (tip_key C tip) (nodes (after_insert C tip m)) b bn better common"
      "m' = (if better then (after_insert C tip m)\<lparr>best := Some (tip_key C tip)\<rparr> else after_insert C tip m)"
proof (cases "tip_key C tip \<in> Mapping.keys (nodes m)")
  case True
  show thesis by (rule duplicate [OF True]) (use run ingest_duplicate [OF True] in simp_all)
next
  case new: False
  show thesis
  proof (cases "best m")
    case None
    show thesis by (rule genesis [OF new None]) (use run ingest_genesis [OF new None] in simp_all)
  next
    case (Some b)
    obtain bn where bn: "Mapping.lookup (nodes m) b = Some bn" using monitor_ok_best [OF ok Some] by blast
    show thesis
    proof (cases "tip_prev_key C tip = b")
      case True
      then have prev: "best m = Some (tip_prev_key C tip)" using Some by simp
      show thesis by (rule extend [OF new prev]) (use run ingest_extend [OF new prev] in simp_all)
    next
      case False
      note eq = ingest_competing [OF ok new Some False bn, unfolded Let_def]
      obtain common where c: "common_ancestor (nodes (after_insert C tip m)) (tip_key C tip) b = Some common"
        using run eq by (cases "common_ancestor (nodes (after_insert C tip m)) (tip_key C tip) b") simp_all
      show thesis
        by (rule competing [OF new Some False bn refl c]) (use run eq c in simp_all)
    qed
  qed
qed

section \<open>The invariant is kept\<close>

lemma after_insert_ok:
  assumes ok: "monitor_ok C m" and new: "tip_key C tip \<notin> Mapping.keys (nodes m)"
  shows "window_live (after_insert C tip m)"
    and "Mapping.lookup (nodes (after_insert C tip m)) k = Some n \<Longrightarrow> hash_to_string C (nd_hash n) = k"
    and "best m = Some b \<Longrightarrow> b \<in> Mapping.keys (nodes (after_insert C tip m))"
proof -
  have look: "Mapping.lookup (nodes m) (tip_key C tip) = None" using new by (simp add: lookup_None_iff)
  show "window_live (after_insert C tip m)"
    unfolding after_insert_def by (rule win.ok_ins [OF monitor_ok_live [OF ok] look])
  show "hash_to_string C (nd_hash n) = k"
    if "Mapping.lookup (nodes (after_insert C tip m)) k = Some n"
  proof (cases "k = tip_key C tip")
    case True
    then show ?thesis using after_insert_lookups(1) [OF ok new] that by (auto simp: tip_key_def)
  next
    case False
    then show ?thesis
      using win.look_old [OF monitor_ok_live [OF ok] look] that ok
      by (auto simp: after_insert_def monitor_ok_def)
  qed
  show "b \<in> Mapping.keys (nodes (after_insert C tip m))" if "best m = Some b"
    using after_insert_lookups(2) [OF ok new that] monitor_ok_best [OF ok that]
    by (auto simp: keys_lookup_iff)
qed

lemma monitor_ok_after_insert:
  assumes ok: "monitor_ok C m" and new: "tip_key C tip \<notin> Mapping.keys (nodes m)"
  shows "monitor_ok C ((after_insert C tip m)\<lparr>best := Some (tip_key C tip)\<rparr>)"
    and "best m = Some b \<Longrightarrow> monitor_ok C (after_insert C tip m)"
  using after_insert_ok [OF ok new] after_insert_lookups(1) [OF ok new]
  by (auto simp: monitor_ok_def window_live_def window_ok_def keys_lookup_iff)

lemma monitor_ok_ingest:
  assumes ok: "monitor_ok C m" and run: "ingest C tip m = Returns (out, m')"
  shows "monitor_ok C m'"
  using ok run
proof (cases rule: ingest_returns)
  case (competing b bn better common)
  then show ?thesis using monitor_ok_after_insert [OF ok competing(1)] by simp
qed (use ok monitor_ok_after_insert [OF ok] in simp_all)

lemma chain_heights_after_insert:
  assumes ok: "monitor_ok C m" and new: "tip_key C tip \<notin> Mapping.keys (nodes m)"
    and "tip_linked C H tip" and "chain_heights H (nodes m)"
  shows "chain_heights H (nodes (after_insert C tip m))"
  unfolding chain_heights_def
proof (intro allI impI)
  fix k n
  assume look: "Mapping.lookup (nodes (after_insert C tip m)) k = Some n"
  show "unat (nd_height n) = H k \<and> H k = Suc (H (nd_prev n))"
  proof (cases "k = tip_key C tip")
    case True
    then show ?thesis
      using after_insert_lookups(1) [OF ok new] look assms(3) by (auto simp: tip_linked_def)
  next
    case False
    have "Mapping.lookup (nodes m) k = Some n"
      using win.look_old [OF monitor_ok_live [OF ok] _ _ False] look new
      by (simp add: after_insert_def lookup_None_iff)
    then show ?thesis using assms(4) by (simp add: chain_heights_def)
  qed
qed

lemma feed_ok_ingest:
  assumes "feed_ok C H m" and "tip_linked C H tip" and run: "ingest C tip m = Returns (out, m')"
  shows "feed_ok C H m'"
proof -
  have ok: "monitor_ok C m" and ch: "chain_heights H (nodes m)" using assms by (simp_all add: feed_ok_def)
  have "chain_heights H (nodes m')"
    using ok run
  proof (cases rule: ingest_returns)
    case (competing b bn better common)
    then show ?thesis using chain_heights_after_insert [OF ok competing(1) assms(2) ch] by simp
  qed (use ch chain_heights_after_insert [OF ok _ assms(2) ch] in simp_all)
  then show ?thesis using monitor_ok_ingest [OF ok run] by (simp add: feed_ok_def)
qed

section \<open>The monitor as a state machine\<close>

text \<open>Steps ingest tips of a feed; \<open>tip_linked\<close> restricts them to blocks of a chain.\<close>

definition monitor_start :: "('h, 'x) chain_monitor \<Rightarrow> bool" where
  "monitor_start m \<longleftrightarrow> (\<exists>cap \<ge> 2. m = new cap)"

lemma monitor_start_new: "2 \<le> cap \<Longrightarrow> monitor_start (new cap)"
  by (auto simp: monitor_start_def)

definition monitor_step ::
  "('h, 'x) consensus_env \<Rightarrow> (string \<Rightarrow> nat) \<Rightarrow> ('h, 'p, 'x) verified_tip set \<Rightarrow>
   ('h, 'x) chain_monitor \<Rightarrow> ('h, 'x) chain_monitor \<Rightarrow> bool" where
  "monitor_step C H feed m m' \<longleftrightarrow>
     (\<exists>tip \<in> feed. \<exists>out. tip_linked C H tip \<and> ingest C tip m = Returns (out, m'))"

interpretation mon: safe_machine monitor_start "monitor_step C H feed" "feed_ok C H"
  for C :: "('h, 'x) consensus_env" and H and feed :: "('h, 'p, 'x) verified_tip set"
proof unfold_locales
  show "feed_ok C H m" if "monitor_start m" for m
    using that monitor_ok_new chain_heights_new by (auto simp: monitor_start_def feed_ok_def)
  show "feed_ok C H m'" if "feed_ok C H m" "monitor_step C H feed m m'" for m m'
    using that feed_ok_ingest by (auto simp: monitor_step_def)
qed

text \<open>Any capacity and any tips: the window stays well formed and bounded.\<close>

lemma ingest_window_ok:
  assumes ok: "window_ok m" and run: "ingest C tip m = Returns (out, m')"
  shows "window_ok m'"
proof -
  consider "m' = m" | "tip_key C tip \<notin> Mapping.keys (nodes m)" "nodes m' = nodes (after_insert C tip m)"
    "order m' = order (after_insert C tip m)" "capacity m' = capacity m"
    using run
    by (auto simp: ingest_def Let_def after_insert_def split: if_splits option.splits)
  then show ?thesis
  proof cases
    case 2
    then show ?thesis
      using insert_node_window_ok [OF ok, of "tip_key C tip" "tip_node C tip"]
      by (simp add: window_ok_def after_insert_def)
  qed (use ok in simp)
qed

definition any_start :: "('h, 'x) chain_monitor \<Rightarrow> bool" where
  "any_start m \<longleftrightarrow> (\<exists>cap. m = new cap)"

definition any_step ::
  "('h, 'x) consensus_env \<Rightarrow> ('h, 'p, 'x) verified_tip set \<Rightarrow>
   ('h, 'x) chain_monitor \<Rightarrow> ('h, 'x) chain_monitor \<Rightarrow> bool" where
  "any_step C feed m m' \<longleftrightarrow> (\<exists>tip \<in> feed. \<exists>out. ingest C tip m = Returns (out, m'))"

interpretation any_mon: safe_machine any_start "any_step C feed" window_ok
  for C :: "('h, 'x) consensus_env" and feed :: "('h, 'p, 'x) verified_tip set"
proof unfold_locales
  show "window_ok m" if "any_start m" for m :: "('h, 'x) chain_monitor"
    using that by (auto simp: any_start_def new_def window_ok_def)
  show "window_ok m'" if "window_ok m" "any_step C feed m m'" for m m'
    using that ingest_window_ok by (auto simp: any_step_def)
qed

text \<open>Capacity at least two and any tips: the best stays in the window and \<^verbatim>\<open>ingest\<close> does not
  panic.\<close>

interpretation gate_mon: safe_machine monitor_start "any_step C feed" "monitor_ok C"
  for C :: "('h, 'x) consensus_env" and feed :: "('h, 'p, 'x) verified_tip set"
proof unfold_locales
  show "monitor_ok C m" if "monitor_start m" for m
    using that monitor_ok_new by (auto simp: monitor_start_def)
  show "monitor_ok C m'" if "monitor_ok C m" "any_step C feed m m'" for m m'
    using that monitor_ok_ingest by (auto simp: any_step_def)
qed

lemma ingest_no_panic:
  assumes ok: "monitor_ok C m"
  shows "ingest C tip m \<noteq> Panics"
proof (cases "tip_key C tip \<in> Mapping.keys (nodes m)")
  case True
  then show ?thesis by (simp add: ingest_duplicate)
next
  case new: False
  show ?thesis
  proof (cases "best m")
    case None
    then show ?thesis using new by (simp add: ingest_genesis)
  next
    case (Some b)
    obtain bn where bn: "Mapping.lookup (nodes m) b = Some bn" using monitor_ok_best [OF ok Some] by blast
    then show ?thesis
      using ingest_extend [OF new] ingest_competing [OF ok new Some _ bn] Some
      by (cases "tip_prev_key C tip = b") (simp_all add: Let_def split: option.split)
  qed
qed

lemma ingest_no_divergence:
  assumes feed: "feed_ok C H m" and linked: "tip_linked C H tip"
  shows "ingest C tip m \<noteq> Diverges"
proof (cases "tip_key C tip \<in> Mapping.keys (nodes m)")
  case True
  then show ?thesis by (simp add: ingest_duplicate)
next
  case new: False
  have ok: "monitor_ok C m" and ch: "chain_heights H (nodes m)" using feed by (simp_all add: feed_ok_def)
  show ?thesis
  proof (cases "best m")
    case None
    then show ?thesis using new by (simp add: ingest_genesis)
  next
    case (Some b)
    obtain bn where bn: "Mapping.lookup (nodes m) b = Some bn" using monitor_ok_best [OF ok Some] by blast
    have keys: "tip_key C tip \<in> Mapping.keys (nodes (after_insert C tip m))"
      "b \<in> Mapping.keys (nodes (after_insert C tip m))"
      using after_insert_lookups [OF ok new] Some bn by (auto simp: keys_lookup_iff)
    have "\<exists>r. common_ancestor (nodes (after_insert C tip m)) (tip_key C tip) b = Some r"
      using common_ancestor_correct [OF chain_heights_after_insert [OF ok new linked ch] keys] by blast
    then show ?thesis
      using ingest_extend [OF new] ingest_competing [OF ok new Some _ bn] Some
      by (cases "tip_prev_key C tip = b") (auto simp: Let_def)
  qed
qed

lemma monitor_step_any: "monitor_step C H feed m m' \<Longrightarrow> any_step C feed m m'"
  by (auto simp: monitor_step_def any_step_def)

lemma reachable_any:
  "reachable monitor_start (monitor_step C H feed) m \<Longrightarrow> reachable monitor_start (any_step C feed) m"
  by (induction rule: reachable.induct) (auto intro: reach_start reach_step monitor_step_any)

section \<open>What an outcome says\<close>

text \<open>A competing tip of a chain: the common ancestor the outcome reports is the lowest one.\<close>

lemma competing_answers:
  assumes "feed_ok C H m" and "tip_linked C H tip"
    and new: "tip_key C tip \<notin> Mapping.keys (nodes m)"
    and b: "best m = Some b" "Mapping.lookup (nodes m) b = Some bn"
    and "common_ancestor (nodes (after_insert C tip m)) (tip_key C tip) b = Some common"
  shows "answers_lca (nodes (after_insert C tip m)) (tip_key C tip) b common"
proof -
  have ok: "monitor_ok C m" and ch: "chain_heights H (nodes m)" using assms by (simp_all add: feed_ok_def)
  have keys: "tip_key C tip \<in> Mapping.keys (nodes (after_insert C tip m))"
    "b \<in> Mapping.keys (nodes (after_insert C tip m))"
    using after_insert_lookups [OF ok new] b by (auto simp: keys_lookup_iff)
  show ?thesis
    using common_ancestor_correct [OF chain_heights_after_insert [OF ok new assms(2) ch] keys] assms(6)
    by auto
qed

text \<open>The abstract register a fork-choice rule maintains: the first tip, then a child of the
  current tip or a tip the rule prefers.\<close>

definition register_step ::
  "('h, 'x) consensus_env \<Rightarrow> ('h, 'p, 'x) verified_tip \<Rightarrow> ('h, 'x) node option \<Rightarrow> ('h, 'x) node option" where
  "register_step C tip reg =
     (case reg of
        None \<Rightarrow> Some (tip_node C tip)
      | Some bn \<Rightarrow>
          if tip_prev_key C tip = hash_to_string C (nd_hash bn) \<or>
             consensus_take C (nd_cs bn) (tip_consensus_state tip) (nd_hash bn) (tip_state_hash tip)
          then Some (tip_node C tip) else Some bn)"

lemma best_node_ingest:
  assumes ok: "monitor_ok C m" and run: "ingest C tip m = Returns (out, m')"
  shows "best_node m' = (if out = Duplicate then best_node m else register_step C tip (best_node m))"
  using ok run
proof (cases rule: ingest_returns)
  case extend
  obtain bn where "Mapping.lookup (nodes m) (tip_prev_key C tip) = Some bn"
    using monitor_ok_best [OF ok extend(2)] by blast
  then show ?thesis
    using extend ok after_insert_lookups(1) [OF ok extend(1)]
    by (simp add: best_node_def register_step_def monitor_ok_def)
next
  case (competing b bn better common)
  have "hash_to_string C (nd_hash bn) = b" using ok competing(4) by (simp add: monitor_ok_def)
  then show ?thesis
    using competing after_insert_lookups [OF ok competing(1)]
    by (simp add: best_node_def register_step_def competing_outcome_def)
qed (simp_all add: best_node_def register_step_def after_insert_lookups(1) [OF ok])

section \<open>Whole feeds\<close>

text \<open>Ingesting a list of tips one after the other, as the ingestion loops of the monitor crate do,
  with the list of outcomes.\<close>

fun ingest_all ::
  "('h, 'x) consensus_env \<Rightarrow> ('h, 'p, 'x) verified_tip list \<Rightarrow> ('h, 'x) chain_monitor \<Rightarrow>
   ('h ingest_outcome list \<times> ('h, 'x) chain_monitor) run" where
  "ingest_all C [] m = Returns ([], m)"
| "ingest_all C (t # ts) m =
     (case ingest C t m of
        Diverges \<Rightarrow> Diverges
      | Panics \<Rightarrow> Panics
      | Returns (out, m1) \<Rightarrow>
          (case ingest_all C ts m1 of
             Diverges \<Rightarrow> Diverges
           | Panics \<Rightarrow> Panics
           | Returns (outs, m2) \<Rightarrow> Returns (out # outs, m2)))"

lemma ingest_all_Cons:
  assumes "ingest_all C (t # ts) m = Returns (outs, m')"
  obtains out outs' m1 where "ingest C t m = Returns (out, m1)"
    and "ingest_all C ts m1 = Returns (outs', m')" and "outs = out # outs'"
  using assms by (auto split: run.splits)

lemma ingest_all_reachable:
  assumes "reachable monitor_start (monitor_step C H feed) m" and "set tips \<subseteq> feed"
    and "\<forall>t \<in> set tips. tip_linked C H t" and "ingest_all C tips m = Returns (outs, m')"
  shows "reachable monitor_start (monitor_step C H feed) m'"
  using assms
proof (induction tips arbitrary: m outs)
  case (Cons t ts)
  obtain out outs' m1 where run: "ingest C t m = Returns (out, m1)" "ingest_all C ts m1 = Returns (outs', m')"
    by (rule ingest_all_Cons [OF Cons.prems(4)])
  have "monitor_step C H feed m m1" using Cons.prems(2,3) run(1) by (auto simp: monitor_step_def)
  then show ?case
    using Cons.IH [OF reach_step [OF Cons.prems(1)] _ _ run(2)] Cons.prems(2,3) by auto
qed simp

lemma ingest_all_total:
  assumes "feed_ok C H m" and "\<forall>t \<in> set tips. tip_linked C H t"
  shows "\<exists>outs m'. ingest_all C tips m = Returns (outs, m')"
  using assms
proof (induction tips arbitrary: m)
  case (Cons t ts)
  have t: "tip_linked C H t" using Cons.prems by simp
  have "ingest C t m \<noteq> Panics" "ingest C t m \<noteq> Diverges"
    using Cons.prems(1) ingest_no_panic ingest_no_divergence [OF Cons.prems(1) t] by (auto simp: feed_ok_def)
  then obtain out m1 where run: "ingest C t m = Returns (out, m1)" by (cases "ingest C t m") auto
  obtain outs m2 where "ingest_all C ts m1 = Returns (outs, m2)"
    using Cons.IH [OF feed_ok_ingest [OF Cons.prems(1) t run]] Cons.prems(2) by auto
  then show ?case using run by simp
qed simp

text \<open>Every node of the window belongs to a tip that was fed.\<close>

lemma ingest_nodes_fed:
  assumes ok: "monitor_ok C m" and run: "ingest C tip m = Returns (out, m')"
    and look: "Mapping.lookup (nodes m') k = Some n"
  shows "Mapping.lookup (nodes m) k = Some n \<or> (k = tip_key C tip \<and> n = tip_node C tip)"
proof (cases "tip_key C tip \<in> Mapping.keys (nodes m)")
  case True
  then show ?thesis using run look by (simp add: ingest_duplicate)
next
  case new: False
  have "nodes m' = nodes (after_insert C tip m)"
    using ok run by (cases rule: ingest_returns) (use new in simp_all)
  then show ?thesis
    using look new insert_node_lookup [of m "tip_key C tip" "tip_node C tip" k] ok
    by (auto simp: after_insert_def monitor_ok_def window_live_def split: if_splits)
qed

lemma ingest_all_length: "ingest_all C tips m = Returns (outs, m') \<Longrightarrow> length outs = length tips"
proof (induction tips arbitrary: m outs)
  case (Cons t ts)
  obtain out outs' m1 where "ingest_all C ts m1 = Returns (outs', m')" "outs = out # outs'"
    by (rule ingest_all_Cons [OF Cons.prems])
  then show ?case using Cons.IH by simp
qed simp

lemma ingest_capacity: "ingest C tip m = Returns (out, m') \<Longrightarrow> capacity m' = capacity m"
  by (auto simp: ingest_def Let_def split: if_splits option.splits)

lemma ingest_all_capacity: "ingest_all C tips m = Returns (outs, m') \<Longrightarrow> capacity m' = capacity m"
proof (induction tips arbitrary: m outs)
  case (Cons t ts)
  obtain out outs' m1 where "ingest C t m = Returns (out, m1)" "ingest_all C ts m1 = Returns (outs', m')"
    by (rule ingest_all_Cons [OF Cons.prems])
  then show ?case using Cons.IH ingest_capacity by metis
qed simp

end
