(* ===== verification/Canonical.thy ===== *)
theory Canonical
  imports Monitor
begin

text \<open>
  The chain monitor and \<^verbatim>\<open>select_canonical\<close> side by side: both are a fold of the same fork-choice rule
  over the tips, the one keeping a window and its best tip, the other an index into the list.
\<close>

definition pick ::
  "('h, 'x) consensus_env \<Rightarrow> ('h, 'p, 'x) verified_tip \<Rightarrow> ('h, 'p, 'x) verified_tip \<Rightarrow> ('h, 'p, 'x) verified_tip" where
  "pick C b t = (if prefers_candidate C b t then t else b)"

lemma select_fold:
  "tips ! foldl (select_step C tips) b is = foldl (pick C) (tips ! b) (map ((!) tips) is)"
  by (induction "is" arbitrary: b) (simp_all add: select_step_def pick_def)

lemma select_canonical_pick:
  assumes "select_canonical C (t # ts) = Some w"
  shows "(t # ts) ! w = foldl (pick C) t ts"
proof -
  have "map ((!) (t # ts)) [1..<length (t # ts)] = ts" by (rule nth_equalityI) (simp_all del: upt_Suc)
  then show ?thesis using assms select_fold [of "t # ts" C 0 "[1..<length (t # ts)]"]
    by (simp add: select_canonical_def del: upt_Suc)
qed

lemma ingest_new_not_duplicate:
  assumes "monitor_ok C m" and "ingest C tip m = Returns (out, m')" and "tip_key C tip \<notin> Mapping.keys (nodes m)"
  shows "out \<noteq> Duplicate"
  using assms(1,2)
  by (cases rule: ingest_returns) (use assms(3) in \<open>auto simp: competing_outcome_def split: if_splits\<close>)

lemma ingest_keys:
  assumes "monitor_ok C m" and "ingest C tip m = Returns (out, m')"
  shows "Mapping.keys (nodes m') \<subseteq> insert (tip_key C tip) (Mapping.keys (nodes m))"
proof
  fix k
  assume "k \<in> Mapping.keys (nodes m')"
  then obtain n where "Mapping.lookup (nodes m') k = Some n" by (auto simp: keys_lookup_iff)
  from ingest_nodes_fed [OF assms this] show "k \<in> insert (tip_key C tip) (Mapping.keys (nodes m))"
    by (auto simp: keys_lookup_iff)
qed

lemma fresh_grow: "\<lbrakk>K' \<subseteq> insert k K; k \<notin> A; A \<inter> K = {}\<rbrakk> \<Longrightarrow> A \<inter> K' = {}"
  by blast

lemma register_step_pick:
  assumes "tip_prev_key C t = tip_key C b \<longrightarrow> prefers_candidate C b t"
  shows "register_step C t (Some (tip_node C b)) = Some (tip_node C (pick C b t))"
  using assms by (auto simp: register_step_def pick_def prefers_candidate_def tip_key_def)

lemma ingest_all_pick:
  assumes child: "\<And>p c. \<lbrakk>p \<in> S; c \<in> S; tip_prev_key C c = tip_key C p\<rbrakk> \<Longrightarrow> prefers_candidate C p c"
  shows "\<lbrakk>monitor_ok C m; best_node m = Some (tip_node C b); b \<in> S; set ts \<subseteq> S; distinct (map (tip_key C) ts);
      tip_key C ` set ts \<inter> Mapping.keys (nodes m) = {}; ingest_all C ts m = Returns (outs, m')\<rbrakk> \<Longrightarrow>
    best_node m' = Some (tip_node C (foldl (pick C) b ts))"
proof (induction ts arbitrary: m b outs)
  case (Cons t ts)
  obtain out outs' m1 where run: "ingest C t m = Returns (out, m1)" "ingest_all C ts m1 = Returns (outs', m')"
    by (rule ingest_all_Cons [OF Cons.prems(7)])
  have "out \<noteq> Duplicate"
    using ingest_new_not_duplicate [OF Cons.prems(1) run(1)] Cons.prems(6) by simp
  then have "best_node m1 = Some (tip_node C (pick C b t))"
    using best_node_ingest [OF Cons.prems(1) run(1)] Cons.prems(2-4) child
    by (simp add: register_step_pick)
  moreover have "tip_key C ` set ts \<inter> Mapping.keys (nodes m1) = {}"
    by (rule fresh_grow [OF ingest_keys [OF Cons.prems(1) run(1)]]) (use Cons.prems(5,6) in auto)
  moreover have "pick C b t \<in> S" using Cons.prems(3,4) by (simp add: pick_def)
  ultimately show ?case
    using Cons.IH [OF monitor_ok_ingest [OF Cons.prems(1) run(1)] _ _ _ _ _ run(2)] Cons.prems(4,5) by simp
qed simp

end
