(* ===== verification/Samples.thy ===== *)
theory Samples
  imports ForkChoice
begin

text \<open>
  Small concrete blocks and environments on which the witnesses evaluate the theorems: hashes
  are numbers \<open>10 * height + branch\<close> rendered as two characters, proofs are booleans, and nothing
  else is carried.
\<close>

definition sample_epoch :: "nat \<Rightarrow> (nat, unit) epoch_data" where
  "sample_epoch r = \<lparr>epoch_ledger = \<lparr>ledger_hash = r, el_other = ()\<rparr>, ed_other = ()\<rparr>"

definition sample_state :: "nat \<Rightarrow> u32 \<Rightarrow> nat \<Rightarrow> (nat, unit) protocol_state" where
  "sample_state prev height root =
     \<lparr>previous_state_hash = prev,
      ps_body =
        \<lparr>consensus_state =
           \<lparr>blockchain_length = height, staking_epoch_data = sample_epoch 1,
            next_epoch_data = sample_epoch 2, cs_other = ()\<rparr>,
         blockchain_state =
           \<lparr>staged_ledger_hash = \<lparr>non_snark = \<lparr>staged_root = root, ns_other = ()\<rparr>, sl_other = ()\<rparr>,
            bs_other = ()\<rparr>,
         psb_other = ()\<rparr>\<rparr>"

definition sample_header :: "bool \<Rightarrow> nat \<Rightarrow> u32 \<Rightarrow> nat \<Rightarrow> (nat, bool, unit) header" where
  "sample_header pf prev height root =
     \<lparr>protocol_state = sample_state prev height root, protocol_state_proof = pf,
      delta_block_chain_proof = (prev, []),
      current_protocol_version = \<lparr>pv_transaction = 0, pv_network = 0, pv_patch = 0\<rparr>,
      proposed_protocol_version_opt = None\<rparr>"

definition sample_block :: "bool \<Rightarrow> nat \<Rightarrow> u32 \<Rightarrow> (nat, bool, unit) block" where
  "sample_block pf prev height = \<lparr>block_header = sample_header pf prev height 0, block_body = ()\<rparr>"

definition sample_tip :: "nat \<Rightarrow> nat \<Rightarrow> u32 \<Rightarrow> (nat, bool, unit) verified_tip" where
  "sample_tip h prev height = \<lparr>tip_block = sample_block True prev height, tip_state_hash = h\<rparr>"

text \<open>Longer chains win, ties go to the larger hash.\<close>

definition sample_consensus :: "(nat, unit) consensus_env" where
  "sample_consensus =
     \<lparr>consensus_take = (\<lambda>a b h k. blockchain_length a < blockchain_length b \<or>
        blockchain_length a = blockchain_length b \<and> h < k),
      core_is_short_range_fork = (\<lambda>_ _. True),
      hash_to_string = (\<lambda>n. [char_of (n div 10), char_of (n mod 10)])\<rparr>"

text \<open>The height function of the sample chains reads the first character of a key.\<close>

definition sample_height :: "string \<Rightarrow> nat" where
  "sample_height k = (case k of [] \<Rightarrow> 0 | c # _ \<Rightarrow> of_char c)"

text \<open>A chain of four blocks with a fork at height two.\<close>

definition sample_tips :: "(nat, bool, unit) verified_tip list" where
  "sample_tips = [sample_tip 10 0 1, sample_tip 21 10 2, sample_tip 22 10 2, sample_tip 31 21 3]"

lemmas sample_defs =
  sample_epoch_def sample_state_def sample_header_def sample_block_def sample_tip_def
  sample_consensus_def sample_height_def sample_tips_def

lemma sample_tip_height [simp]: "tip_height (sample_tip h p ht) = ht"
  by (simp add: tip_height_def tip_consensus_state_def sample_defs)

lemma sample_tip_hash [simp]: "tip_state_hash (sample_tip h p ht) = h"
  by (simp add: sample_tip_def)

end
