(* ===== verification/MonitorCorrect.thy ===== *)
theory MonitorCorrect
  imports Monitor Samples
begin

text \<open>
  The properties of the chain monitor, each with a witness on the sample chain.
\<close>

section \<open>Common ancestors\<close>

text \<open>C1. In a window whose heights are those of a chain, \<^verbatim>\<open>common_ancestor\<close> of two blocks in the
  window ends; it answers \<^verbatim>\<open>None\<close> exactly when the two share no ancestor reachable by the
  window's parent links, and otherwise exactly their lowest common ancestor.\<close>

theorem common_ancestor_lowest:
  assumes "chain_heights H ns" and "a \<in> Mapping.keys ns" and "b \<in> Mapping.keys ns"
  shows "\<exists>r. common_ancestor ns a b = Some r \<and>
    (r = None \<longleftrightarrow> \<not> (\<exists>c. ancestor ns a c \<and> ancestor ns b c)) \<and>
    (\<forall>c. r = Some c \<longleftrightarrow> lowest_common ns a b c)"
proof -
  obtain r where r: "common_ancestor ns a b = Some r" "answers_lca ns a b r"
    using common_ancestor_correct [OF assms] by blast
  have "r = None \<longleftrightarrow> \<not> (\<exists>c. ancestor ns a c \<and> ancestor ns b c)"
    using r(2) by (auto simp: answers_lca_def lowest_common_def split: option.splits)
  moreover have "r = Some c \<longleftrightarrow> lowest_common ns a b c" for c
    using r(2) lowest_common_unique [OF assms(1)]
    by (auto simp: answers_lca_def lowest_common_def split: option.splits)
  ultimately show ?thesis using r(1) by blast
qed

definition sample_window :: "(nat, unit) window" where
  "sample_window =
     Mapping.update (tip_key sample_consensus (sample_tip 22 10 2)) (tip_node sample_consensus (sample_tip 22 10 2))
       (Mapping.update (tip_key sample_consensus (sample_tip 21 10 2)) (tip_node sample_consensus (sample_tip 21 10 2))
          (Mapping.update (tip_key sample_consensus (sample_tip 10 0 1)) (tip_node sample_consensus (sample_tip 10 0 1))
             Mapping.empty))"

lemma sample_key [simp]: "tip_key sample_consensus (sample_tip h p ht) = [char_of (h div 10), char_of (h mod 10)]"
  by (simp add: tip_key_def sample_consensus_def sample_tip_def)

lemma sample_prev [simp]: "tip_prev_key sample_consensus (sample_tip h p ht) = [char_of (p div 10), char_of (p mod 10)]"
  by (simp add: tip_prev_key_def tip_previous_def sample_defs)

lemma sample_window_heights: "chain_heights sample_height sample_window"
  by (auto simp: chain_heights_def sample_window_def lookup_update' sample_height_def split: if_splits)

theorem common_ancestor_lowest_witness:
  "common_ancestor sample_window [char_of (2::nat), char_of (2::nat)] [char_of (2::nat), char_of (1::nat)] =
     Some (Some [char_of (1::nat), char_of (0::nat)]) \<and>
   lowest_common sample_window [char_of (2::nat), char_of (2::nat)] [char_of (2::nat), char_of (1::nat)]
     [char_of (1::nat), char_of (0::nat)]"
proof -
  let ?a = "[char_of (2::nat), char_of (2::nat)]" and ?b = "[char_of (2::nat), char_of (1::nat)]"
  have keys: "?a \<in> Mapping.keys sample_window" "?b \<in> Mapping.keys sample_window"
    by (simp_all add: sample_window_def)
  have "common_ancestor sample_window ?a ?b = Some (Some [char_of (1::nat), char_of (0::nat)])"
    by code_simp
  then show ?thesis using common_ancestor_lowest [OF sample_window_heights keys] by auto
qed

section \<open>Safety and totality\<close>

text \<open>C8. However a monitor of capacity at least two is fed with blocks of a chain, its window and
  its deque hold the same keys without repetition, at most \<open>capacity\<close> of them, every node is
  stored under the rendering of its own hash, and there is a best tip as soon as there is any
  block, which is itself in the window.\<close>

theorem monitor_invariant:
  assumes "reachable monitor_start (monitor_step C H feed) m"
  shows "distinct (order m) \<and> set (order m) = Mapping.keys (nodes m) \<and> len m \<le> capacity m \<and>
    (\<forall>k n. Mapping.lookup (nodes m) k = Some n \<longrightarrow> hash_to_string C (nd_hash n) = k) \<and>
    (best_hash m = None \<longleftrightarrow> len m = 0)"
proof (rule mon.reachable_safe [OF assms])
  fix m :: "('a, 'b) chain_monitor"
  assume "feed_ok C H m"
  then have ok: "monitor_ok C m" and win: "window_ok m"
    by (simp_all add: feed_ok_def monitor_ok_def window_live_def)
  have "best_hash m = None \<longleftrightarrow> order m = []"
  proof (cases "best m")
    case None
    then show ?thesis using ok by (simp add: monitor_ok_def best_hash_def best_node_def)
  next
    case (Some b)
    have mem: "b \<in> set (order m)" using ok win Some by (simp add: monitor_ok_def window_ok_def)
    show ?thesis using mem monitor_ok_best [OF ok Some] Some by (auto simp: best_hash_def best_node_def)
  qed
  then show "distinct (order m) \<and> set (order m) = Mapping.keys (nodes m) \<and> len m \<le> capacity m \<and>
    (\<forall>k n. Mapping.lookup (nodes m) k = Some n \<longrightarrow> hash_to_string C (nd_hash n) = k) \<and>
    (best_hash m = None \<longleftrightarrow> len m = 0)"
    using ok win window_ok_len [OF win] by (simp add: monitor_ok_def window_ok_def)
qed

text \<open>A reachable sample state: the first two blocks of the sample chain.\<close>

definition sample_m1 :: "(nat, unit) chain_monitor" where
  "sample_m1 = (after_insert sample_consensus (sample_tip 10 0 1) (new 2))\<lparr>best := Some [char_of (1::nat), char_of (0::nat)]\<rparr>"

lemma sample_linked:
  "h div 10 < 256 \<Longrightarrow> p div 10 < 256 \<Longrightarrow> h div 10 = Suc (p div 10) \<Longrightarrow> unat ht = h div 10 \<Longrightarrow>
   tip_linked sample_consensus sample_height (sample_tip h p ht)"
  by (simp add: tip_linked_def sample_height_def of_char_of)

lemma sample_m1_reachable:
  "reachable monitor_start
     (monitor_step sample_consensus sample_height (UNIV :: (nat, bool, unit) verified_tip set)) sample_m1"
proof (rule reach_step [OF reach_start])
  show "monitor_start (new 2 :: (nat, unit) chain_monitor)" by (simp add: monitor_start_new)
  have run: "ingest sample_consensus (sample_tip 10 0 1) (new 2) = Returns (Genesis, sample_m1)"
    using ingest_genesis [of sample_consensus "sample_tip 10 0 1" "new 2"]
    by (simp add: sample_m1_def new_def)
  show "monitor_step sample_consensus sample_height (UNIV :: (nat, bool, unit) verified_tip set) (new 2) sample_m1"
    unfolding monitor_step_def
    by (intro bexI [of _ "sample_tip 10 0 1"] exI [of _ Genesis] conjI) (simp_all add: run sample_linked)
qed

theorem monitor_invariant_witness: "best_hash sample_m1 = Some 10 \<and> len sample_m1 = 1 \<and> len sample_m1 \<le> capacity sample_m1"
proof -
  have "best_hash sample_m1 = Some 10" "len sample_m1 = 1" by code_simp+
  then show ?thesis using monitor_invariant [OF sample_m1_reachable] by simp
qed

text \<open>C15. A reachable monitor of capacity at least two, fed with a block of the chain, neither
  panics nor loops: \<^verbatim>\<open>ingest\<close> returns an outcome and a new state.\<close>

theorem ingest_total:
  assumes "reachable monitor_start (monitor_step C H feed) m" and "tip_linked C H tip"
  shows "\<exists>out m'. ingest C tip m = Returns (out, m')"
proof -
  have feed: "feed_ok C H m" by (rule mon.reachable_inv [OF assms(1)])
  then have "ingest C tip m \<noteq> Panics" "ingest C tip m \<noteq> Diverges"
    using ingest_no_panic ingest_no_divergence [OF _ assms(2)] by (auto simp: feed_ok_def)
  then show ?thesis by (cases "ingest C tip m") auto
qed

theorem ingest_total_witness: "\<exists>out m'. ingest sample_consensus (sample_tip 22 10 2) sample_m1 = Returns (out, m')"
  by (rule ingest_total [OF sample_m1_reachable]) (rule sample_linked, simp_all)

text \<open>C31. With capacity at least two, \<^verbatim>\<open>ingest\<close> never panics, whatever tips it has been fed: the
  two \<^verbatim>\<open>expect\<close> calls find the best tip and the new tip in the window.\<close>

theorem ingest_never_panics:
  assumes "reachable monitor_start (any_step C feed) m"
  shows "ingest C tip m \<noteq> Panics"
  using gate_mon.reachable_inv [OF assms] by (rule ingest_no_panic)

theorem ingest_never_panics_witness:
  "ingest sample_consensus (sample_tip 77 3 9) (new 2 :: (nat, unit) chain_monitor) \<noteq> Panics"
proof -
  have "reachable monitor_start (any_step sample_consensus (UNIV :: (nat, bool, unit) verified_tip set))
      (new 2 :: (nat, unit) chain_monitor)"
    by (rule reach_start) (simp add: monitor_start_new)
  then show ?thesis by (rule ingest_never_panics)
qed

text \<open>For every capacity, and whatever tips are ingested, the window never holds more blocks
  than the capacity (a requested capacity of zero counts as one).\<close>

theorem window_bounded:
  assumes "reachable any_start (any_step C feed) m"
  shows "len m \<le> capacity m \<and> 1 \<le> capacity m"
  by (rule any_mon.reachable_safe [OF assms]) (simp add: window_ok_len, simp add: window_ok_def)

text \<open>Two blocks on top of the first, of which the second wins the tie.\<close>

definition sample_m3 :: "(nat, unit) chain_monitor" where
  "sample_m3 = (case ingest_all sample_consensus [sample_tip 10 0 1, sample_tip 21 10 2] (new 3) of
     Returns (_, m) \<Rightarrow> m | _ \<Rightarrow> new 3)"

lemma sample_m3_run:
  "ingest_all sample_consensus [sample_tip 10 0 1, sample_tip 21 10 2] (new 3) = Returns ([Genesis, Extend 2], sample_m3)"
  by code_simp

lemma sample_m3_reachable:
  "reachable monitor_start
     (monitor_step sample_consensus sample_height (UNIV :: (nat, bool, unit) verified_tip set)) sample_m3"
proof (rule ingest_all_reachable [OF reach_start _ _ sample_m3_run])
  show "monitor_start (new 3 :: (nat, unit) chain_monitor)" by (simp add: monitor_start_new)
  show "\<forall>t \<in> set [sample_tip 10 0 1, sample_tip 21 10 2]. tip_linked sample_consensus sample_height t"
    by (simp add: sample_linked)
qed simp

definition sample_m4 :: "(nat, unit) chain_monitor" where
  "sample_m4 = (case ingest sample_consensus (sample_tip 22 10 2) sample_m3 of Returns (_, m) \<Rightarrow> m | _ \<Rightarrow> new 3)"

lemma sample_reorg:
  "ingest sample_consensus (sample_tip 22 10 2) sample_m3 =
     Returns (Reorg 21 (Some [char_of (1::nat), char_of (0::nat)]) (Some 1), sample_m4)"
  by code_simp

section \<open>What ingestion does\<close>

text \<open>C2. What each outcome of \<^verbatim>\<open>ingest\<close> says, for a reachable monitor and a block of the chain:
  a duplicate was in the window and nothing changes; the first block becomes the best; an
  extension descends from the old best and becomes the best; a reorganisation becomes the best
  without descending from the old one and names the old best and the lowest common ancestor; a
  block behind is an ancestor of the best; a fork names the lowest common ancestor; an unlinked
  block has no ancestor in common with the best. In the last three cases the best stays. The
  ancestry is that of the window after the insertion.\<close>

theorem ingest_classifies:
  assumes reach: "reachable monitor_start (monitor_step C H feed) m" and linked: "tip_linked C H tip"
    and run: "ingest C tip m = Returns (out, m')"
  shows "case out of
      Duplicate \<Rightarrow> tip_key C tip \<in> Mapping.keys (nodes m) \<and> m' = m
    | Genesis \<Rightarrow> best m = None \<and> best m' = Some (tip_key C tip)
    | Extend h \<Rightarrow> h = tip_height tip \<and> best m' = Some (tip_key C tip) \<and>
        (\<exists>b. best m = Some b \<and> ancestor (nodes m') (tip_key C tip) b)
    | Reorg old common depth \<Rightarrow> best m' = Some (tip_key C tip) \<and> best_hash m = Some old \<and>
        (\<exists>b. best m = Some b \<and> \<not> ancestor (nodes m') (tip_key C tip) b \<and>
          answers_lca (nodes m') (tip_key C tip) b common)
    | Behind h \<Rightarrow> h = tip_height tip \<and> best m' = best m \<and>
        (\<exists>b. best m = Some b \<and> ancestor (nodes m') b (tip_key C tip))
    | Fork common \<Rightarrow> best m' = best m \<and>
        (\<exists>b c. best m = Some b \<and> common = Some c \<and> lowest_common (nodes m') (tip_key C tip) b c \<and>
          \<not> ancestor (nodes m') b (tip_key C tip))
    | Unlinked \<Rightarrow> best m' = best m \<and>
        (\<exists>b. best m = Some b \<and> answers_lca (nodes m') (tip_key C tip) b None)"
proof -
  have feed: "feed_ok C H m" by (rule mon.reachable_inv [OF reach])
  then have ok: "monitor_ok C m" by (simp add: feed_ok_def)
  have ch: "chain_heights H (nodes m')"
    using feed_ok_ingest [OF feed linked run] by (simp add: feed_ok_def)
  show ?thesis using ok run
  proof (cases rule: ingest_returns)
    case extend
    have "ancestor (nodes m') (tip_key C tip) (tip_prev_key C tip)"
      using anc_link [OF after_insert_lookups(1) [OF ok extend(1)] anc_self] extend(4) by simp
    then show ?thesis using extend by simp
  next
    case (competing b bn better common)
    have same: "nodes m' = nodes (after_insert C tip m)" using competing by simp
    have ans: "answers_lca (nodes m') (tip_key C tip) b common"
      unfolding same
      by (rule competing_answers [OF feed linked competing(1) competing(2) competing(4) competing(6)])
    have left: "ancestor (nodes m') b (tip_key C tip) \<longleftrightarrow> common = Some (tip_key C tip)"
      using lca_left [OF ch ans] ans by (auto simp: answers_lca_def lowest_common_def)
    have right: "ancestor (nodes m') (tip_key C tip) b \<longleftrightarrow> common = Some b"
      using lca_right [OF ch ans] ans by (auto simp: answers_lca_def lowest_common_def)
    have bh: "best_hash m = Some (nd_hash bn)" using competing by (simp add: best_hash_def)
    show ?thesis
      using ans left right bh competing(2,7,8)
      by (auto simp: competing_outcome_def answers_lca_def split: if_splits)
  qed simp_all
qed

theorem ingest_classifies_witness:
  "best sample_m4 = Some [char_of (2::nat), char_of (2::nat)] \<and>
   \<not> ancestor (nodes sample_m4) [char_of (2::nat), char_of (2::nat)] [char_of (2::nat), char_of (1::nat)] \<and>
   answers_lca (nodes sample_m4) [char_of (2::nat), char_of (2::nat)] [char_of (2::nat), char_of (1::nat)]
     (Some [char_of (1::nat), char_of (0::nat)])"
proof -
  have "best sample_m3 = Some [char_of (2::nat), char_of (1::nat)]" by code_simp
  then show ?thesis
    using ingest_classifies [OF sample_m3_reachable _ sample_reorg] by (simp add: sample_linked)
qed

text \<open>C23. The depth of a reorganisation is the number of parent links from the old best down to
  the common ancestor; it is missing exactly when no common ancestor is stored in the window.\<close>

theorem reorg_depth_counts_links:
  assumes reach: "reachable monitor_start (monitor_step C H feed) m" and linked: "tip_linked C H tip"
    and run: "ingest C tip m = Returns (Reorg old common depth, m')"
  shows "case depth of
      Some d \<Rightarrow> \<exists>b c. best m = Some b \<and> common = Some c \<and> c \<in> Mapping.keys (nodes m') \<and>
        links (nodes m') (unat d) b c \<and> 0 < unat d
    | None \<Rightarrow> (case common of None \<Rightarrow> True | Some c \<Rightarrow> c \<notin> Mapping.keys (nodes m'))"
proof -
  have feed: "feed_ok C H m" by (rule mon.reachable_inv [OF reach])
  then have ok: "monitor_ok C m" by (simp add: feed_ok_def)
  have ch: "chain_heights H (nodes m')"
    using feed_ok_ingest [OF feed linked run] by (simp add: feed_ok_def)
  show ?thesis using ok run
  proof (cases rule: ingest_returns)
    case (competing b bn better cm)
    have same: "nodes m' = nodes (after_insert C tip m)" using competing by simp
    have ans: "answers_lca (nodes m') (tip_key C tip) b cm"
      unfolding same
      by (rule competing_answers [OF feed linked competing(1) competing(2) competing(4) competing(6)])
    have bn: "Mapping.lookup (nodes m') b = Some bn"
      using after_insert_lookups(2) [OF ok competing(1) competing(2) competing(4)] same by simp
    have out: "common = cm" "cm \<noteq> Some b"
      "depth = map_option (\<lambda>c. saturating_sub_u32 (nd_height bn) (nd_height c))
         (Option.bind cm (Mapping.lookup (nodes m')))"
      using competing(7) same by (auto simp: competing_outcome_def split: if_splits)
    show ?thesis
    proof (cases "Option.bind cm (Mapping.lookup (nodes m'))")
      case None
      then show ?thesis using out by (cases cm) (auto simp: keys_lookup_iff)
    next
      case (Some cn)
      then obtain c where c: "cm = Some c" "Mapping.lookup (nodes m') c = Some cn" by (cases cm) auto
      have anc: "ancestor (nodes m') b c" using ans c by (simp add: answers_lca_def lowest_common_def)
      have d: "unat (saturating_sub_u32 (nd_height bn) (nd_height cn)) = H b - H c"
        using chain_heightsD(1) [OF ch bn] chain_heightsD(1) [OF ch c(2)]
        by (simp add: unat_saturating_sub_u32)
      have dist: "links (nodes m') (H b - H c) b c" by (rule ancestor_distance [OF ch anc])
      then have "0 < H b - H c" using out c by (cases "H b - H c") auto
      then show ?thesis using out c Some competing(2) dist d by (auto simp: keys_lookup_iff)
    qed
  qed simp_all
qed

theorem reorg_depth_counts_links_witness:
  "links (nodes sample_m4) 1 [char_of (2::nat), char_of (1::nat)] [char_of (1::nat), char_of (0::nat)]"
proof -
  have "best sample_m3 = Some [char_of (2::nat), char_of (1::nat)]" by code_simp
  then show ?thesis
    using reorg_depth_counts_links [OF sample_m3_reachable _ sample_reorg] by (simp add: sample_linked)
qed

text \<open>C24. What a new block does to the window: it is stored under its key; when the window is full,
  exactly one other key goes, the first of the deque that is not the best; everything else is kept
  with its node.\<close>

theorem ingest_evicts_oldest:
  assumes reach: "reachable monitor_start (any_step C feed) m"
    and new: "tip_key C tip \<notin> Mapping.keys (nodes m)" and run: "ingest C tip m = Returns (out, m')"
  shows "Mapping.lookup (nodes m') k =
    (if k = tip_key C tip then Some (tip_node C tip)
     else if len m = capacity m \<and> k = hd (filter (\<lambda>j. Some j \<noteq> best m) (order m)) then None
     else Mapping.lookup (nodes m) k)"
proof -
  have ok: "monitor_ok C m" by (rule gate_mon.reachable_inv [OF reach])
  then have live: "window_live m" and win: "window_ok m" by (simp_all add: monitor_ok_def window_live_def)
  have same: "nodes m' = nodes (after_insert C tip m)"
    using ok run by (cases rule: ingest_returns) (use new in simp_all)
  have "victim (best m) (order m @ [tip_key C tip]) = victim (best m) (order m) \<and>
      victim (best m) (order m) \<noteq> tip_key C tip" if full: "length (order m) = capacity m"
  proof -
    have "\<exists>k \<in> set (order m). Some k \<noteq> best m"
      using live full by (intro distinct_other) (auto simp: window_live_def window_ok_def)
    then show ?thesis using victim_append victim_is_old(1) [OF live full, of "tip_key C tip"] new win
      by (auto simp: window_ok_def)
  qed
  then show ?thesis
    using insert_node_lookup [OF win new, of "tip_node C tip" k] window_ok_len [OF win]
    by (auto simp: same after_insert_def victim_def)
qed

definition sample_m5 :: "(nat, unit) chain_monitor" where
  "sample_m5 = (case ingest sample_consensus (sample_tip 31 22 3) sample_m4 of Returns (_, m) \<Rightarrow> m | _ \<Rightarrow> new 3)"

theorem ingest_evicts_oldest_witness:
  "Mapping.lookup (nodes sample_m5) [char_of (1::nat), char_of (0::nat)] = None"
proof -
  have "monitor_step sample_consensus sample_height (UNIV :: (nat, bool, unit) verified_tip set) sample_m3 sample_m4"
    unfolding monitor_step_def
    by (intro bexI [of _ "sample_tip 22 10 2"] exI conjI, rule sample_linked) (simp_all add: sample_reorg)
  then have r4: "reachable monitor_start (any_step sample_consensus (UNIV :: (nat, bool, unit) verified_tip set)) sample_m4"
    by (rule reachable_any [OF reach_step [OF sample_m3_reachable]])
  have run: "ingest sample_consensus (sample_tip 31 22 3) sample_m4 = Returns (Extend 3, sample_m5)"
    by code_simp
  have key: "tip_key sample_consensus (sample_tip 31 22 3) \<notin> Mapping.keys (nodes sample_m4)" by code_simp
  have full: "len sample_m4 = capacity sample_m4 \<and>
      hd (filter (\<lambda>j. Some j \<noteq> best sample_m4) (order sample_m4)) = [char_of (1::nat), char_of (0::nat)]"
    by code_simp
  show ?thesis
    using ingest_evicts_oldest [OF r4 key run, of "[char_of (1::nat), char_of (0::nat)]"] full by simp
qed

text \<open>Two blocks whose common parent has left the window: the walk ends in that parent's key, although no
  block is stored under it.\<close>

theorem ancestor_outside_window:
  assumes "Mapping.lookup ns a = Some na" and "Mapping.lookup ns b = Some nb" and "a \<noteq> b"
    and "nd_height na = nd_height nb" and "nd_prev na = p" and "nd_prev nb = p" and "p \<notin> Mapping.keys ns"
  shows "common_ancestor ns a b = Some (Some p)"
  using assms by (simp add: common_ancestor_def equal_height.simps [of ns a b] lockstep.simps [of ns a b]
      lockstep.simps [of ns p p])

text \<open>With a capacity of one (or zero, which counts as one) the window has no room for a new
  block beside the best, and the new block is the one evicted: a second block that does not extend
  the first makes \<^verbatim>\<open>ingest\<close> panic at \<^verbatim>\<open>expect("just inserted")\<close>, and one that extends it is
  reported as the new best although the monitor has no best afterwards.\<close>

theorem capacity_one_breaks:
  assumes "cap \<le> 1" and "tip_key C t2 \<noteq> tip_key C t1"
  shows "\<exists>m1. ingest C t1 (new cap) = Returns (Genesis, m1) \<and>
    (if tip_prev_key C t2 = tip_key C t1
     then \<exists>m2. ingest C t2 m1 = Returns (Extend (tip_height t2), m2) \<and> best_hash m2 = None \<and> len m2 = 1
     else ingest C t2 m1 = Panics)"
proof -
  have ok0: "window_ok (new cap)" by (simp add: new_def window_ok_def)
  obtain m1 where first: "ingest C t1 (new cap) = Returns (Genesis, m1)"
    and m1: "m1 = \<lparr>nodes = Mapping.update (tip_key C t1) (tip_node C t1) Mapping.empty,
      order = [tip_key C t1], capacity = 1, best = Some (tip_key C t1)\<rparr>"
    using insert_node_room [OF ok0, of "tip_key C t1" "tip_node C t1"] assms(1)
      ingest_genesis [of C t1 "new cap"]
    by (simp add: after_insert_def new_def)
  have ok1: "window_ok m1" by (simp add: m1 window_ok_def)
  have new: "tip_key C t2 \<notin> Mapping.keys (nodes m1)" using assms(2) by (simp add: m1)
  have best: "best m1 = Some (tip_key C t1)" by (simp add: m1)
  have look: "Mapping.lookup (nodes (after_insert C t2 m1)) k =
      (if k = tip_key C t1 then Some (tip_node C t1) else None)" for k
    using insert_node_lookup [OF ok1 new, of "tip_node C t2" k] assms(2)
    by (simp add: after_insert_def m1 victim_def lookup_update' lookup_empty)
  have len: "len (after_insert C t2 m1) = 1"
    using insert_node_window_ok [OF ok1 new, of "tip_node C t2"] by (simp add: after_insert_def m1 len_def)
  have "if tip_prev_key C t2 = tip_key C t1
     then \<exists>m2. ingest C t2 m1 = Returns (Extend (tip_height t2), m2) \<and> best_hash m2 = None \<and> len m2 = 1
     else ingest C t2 m1 = Panics"
  proof (cases "tip_prev_key C t2 = tip_key C t1")
    case True
    then show ?thesis
      using ingest_extend [OF new] best look assms(2) len by (simp add: best_hash_def len_def)
  next
    case False
    have "ingest C t2 m1 = Panics"
      unfolding ingest_def after_insert_def [symmetric] Let_def
      using new best look [of "tip_key C t1"] look [of "tip_key C t2"] assms(2) False by simp
    then show ?thesis using False by simp
  qed
  then show ?thesis using first by blast
qed

theorem capacity_one_breaks_witness:
  "\<exists>m1. ingest sample_consensus (sample_tip 10 0 1) (new 1) = Returns (Genesis, m1) \<and>
     ingest sample_consensus (sample_tip 22 11 2) m1 = Panics"
  using capacity_one_breaks [of 1 sample_consensus "sample_tip 22 11 2" "sample_tip 10 0 1"] by auto

text \<open>C11. The best tip of a monitor of capacity at least two is the abstract fork-choice register:
  the first tip ever, then replaced exactly by a child of the current one or by a tip the Samasika
  rule prefers to it; a duplicate leaves it alone. What \<^verbatim>\<open>best\<close> and \<^verbatim>\<open>best_height\<close> return is
  read off that register.\<close>

theorem best_refines_register:
  assumes "reachable monitor_start (any_step C feed) m" and "ingest C tip m = Returns (out, m')"
  shows "best_node m' = (if out = Duplicate then best_node m else register_step C tip (best_node m)) \<and>
    best_hash m' = map_option nd_hash (best_node m') \<and> best_height m' = map_option nd_height (best_node m')"
  using best_node_ingest [OF gate_mon.reachable_inv [OF assms(1)] assms(2)]
  by (simp add: best_hash_def best_height_def best_node_def)

theorem best_refines_register_witness: "best_hash sample_m4 = Some 22 \<and> best_height sample_m4 = Some 2"
proof -
  have "best_node sample_m3 = Some (tip_node sample_consensus (sample_tip 21 10 2))"
    by (simp add: best_node_def) code_simp
  moreover have "register_step sample_consensus (sample_tip 22 10 2) (Some (tip_node sample_consensus (sample_tip 21 10 2))) =
      Some (tip_node sample_consensus (sample_tip 22 10 2))"
    by code_simp
  ultimately show ?thesis
    using best_refines_register [OF reachable_any [OF sample_m3_reachable] sample_reorg]
    by simp
qed

end
