(* ===== verification/Account.thy ===== *)
theory Account
  imports Block
begin

text \<open>
  \<^verbatim>\<open>src/crates/mina-verify/src/account.rs\<close>: folding an account and its Merkle path to a ledger
  root. The Poseidon hashes and the conversions of \<^verbatim>\<open>mina-tree\<close> are external: the fields of
  \<open>ledger_env\<close>, with \<open>'f\<close> for field elements, \<open>'a\<close> for accounts, \<open>'w\<close> for accounts as they come
  over the wire and \<open>'d\<close> for Merkle addresses as queries carry them.

  What the fold promises is stated against ledgers as trees: a path that folds to the root of a
  ledger is the path of that ledger, and its leaf is the leaf of that ledger, or else the two
  openings hand over two different pairs of children with the same node hash.
\<close>

section \<open>Source\<close>

record ('h, 'f, 'a, 'w, 'd) ledger_env =
  to_field :: "'h \<Rightarrow> ('f, string) result"
  account_hash :: "'a \<Rightarrow> 'f"
  hash_node :: "usize \<Rightarrow> 'f \<Rightarrow> 'f \<Rightarrow> 'f"
  account_try_from :: "'w \<Rightarrow> ('a, string) result"
  account_address :: "'a \<Rightarrow> string"
  address_from_index :: "u64 \<Rightarrow> usize \<Rightarrow> 'd panics"
  overflow_checks :: bool

text \<open>\<^verbatim>\<open>mina_tree::MerklePath\<close>: the side is the side of the running hash, the hash is the
  sibling's.\<close>

datatype 'f merkle_path = Left 'f | Right 'f

definition ledger_root ::
  "('h, 'f, 'a, 'w, 'd) ledger_env \<Rightarrow> ('h, 'p, 'x) block \<Rightarrow> 'f option" where
  "ledger_root L b = result_ok (to_field L (header_staged_root (block_header b)))"

definition path_step ::
  "('h, 'f, 'a, 'w, 'd) ledger_env \<Rightarrow> 'f \<Rightarrow> nat \<times> 'f merkle_path \<Rightarrow> 'f" where
  "path_step L accum hp =
     (case hp of
        (height, Left right) \<Rightarrow> hash_node L height accum right
      | (height, Right left) \<Rightarrow> hash_node L height left accum)"

definition implied_root ::
  "('h, 'f, 'a, 'w, 'd) ledger_env \<Rightarrow> 'a \<Rightarrow> 'f merkle_path list \<Rightarrow> 'f" where
  "implied_root L account merkle_path =
     foldl (path_step L) (account_hash L account) (enumerate 0 merkle_path)"

definition verify_account_inclusion ::
  "('h, 'f, 'a, 'w, 'd) ledger_env \<Rightarrow> ('h, 'p, 'x) block \<Rightarrow> 'a \<Rightarrow> 'f merkle_path list \<Rightarrow> bool" where
  "verify_account_inclusion L b account merkle_path =
     (case ledger_root L b of
        Some root \<Rightarrow> implied_root L account merkle_path = root
      | None \<Rightarrow> False)"

section \<open>The fold from the root down\<close>

text \<open>The same value by recursion on the path in root-to-leaf order.\<close>

fun root_of :: "('h, 'f, 'a, 'w, 'd) ledger_env \<Rightarrow> 'f merkle_path list \<Rightarrow> 'f \<Rightarrow> 'f" where
  "root_of L [] x = x"
| "root_of L (p # ps) x = path_step L (root_of L ps x) (length ps, p)"

lemma foldl_root_of: "foldl (path_step L) x (enumerate 0 (rev ps)) = root_of L ps x"
  by (induction ps) (simp_all add: enumerate_append_eq)

lemma implied_root_rev: "implied_root L a (rev ps) = root_of L ps (account_hash L a)"
  by (simp add: implied_root_def foldl_root_of)

lemma implied_root_root_of: "implied_root L a path = root_of L (rev path) (account_hash L a)"
  using implied_root_rev [of L a "rev path"] by simp

section \<open>Ledgers\<close>

text \<open>A ledger is a perfect binary tree with an account slot at each leaf.\<close>

datatype 'a ledger = Slot "'a option" | Branch "'a ledger" "'a ledger"

fun perfect :: "nat \<Rightarrow> 'a ledger \<Rightarrow> bool" where
  "perfect 0 (Slot s) = True"
| "perfect (Suc d) (Branch l r) = (perfect d l \<and> perfect d r)"
| "perfect _ _ = False"

fun ledger_height :: "'a ledger \<Rightarrow> nat" where
  "ledger_height (Slot s) = 0"
| "ledger_height (Branch l r) = Suc (ledger_height l)"

fun slot_hash :: "('h, 'f, 'a, 'w, 'd) ledger_env \<Rightarrow> 'f \<Rightarrow> 'a option \<Rightarrow> 'f" where
  "slot_hash L empty_hash None = empty_hash"
| "slot_hash L empty_hash (Some a) = account_hash L a"

fun tree_hash :: "('h, 'f, 'a, 'w, 'd) ledger_env \<Rightarrow> 'f \<Rightarrow> 'a ledger \<Rightarrow> 'f" where
  "tree_hash L eh (Slot s) = slot_hash L eh s"
| "tree_hash L eh (Branch l r) = hash_node L (ledger_height l) (tree_hash L eh l) (tree_hash L eh r)"

text \<open>Walking down along a list of directions, \<^term>\<open>True\<close> for right: the slot at the end, the
  path with the siblings, and the subtree.\<close>

fun subtree :: "'a ledger \<Rightarrow> bool list \<Rightarrow> 'a ledger option" where
  "subtree t [] = Some t"
| "subtree (Branch l r) (b # bs) = subtree (if b then r else l) bs"
| "subtree (Slot s) (b # bs) = None"

fun slot_at :: "'a ledger \<Rightarrow> bool list \<Rightarrow> 'a option" where
  "slot_at (Slot s) bs = s"
| "slot_at (Branch l r) (b # bs) = slot_at (if b then r else l) bs"
| "slot_at (Branch l r) [] = None"

fun path_down ::
  "('h, 'f, 'a, 'w, 'd) ledger_env \<Rightarrow> 'f \<Rightarrow> 'a ledger \<Rightarrow> bool list \<Rightarrow> 'f merkle_path list" where
  "path_down L eh (Branch l r) (b # bs) =
     (if b then Right (tree_hash L eh l) # path_down L eh r bs
      else Left (tree_hash L eh r) # path_down L eh l bs)"
| "path_down L eh _ _ = []"

fun goes_right :: "'f merkle_path \<Rightarrow> bool" where
  "goes_right (Left _) = False"
| "goes_right (Right _) = True"

lemma perfect_height: "perfect d t \<Longrightarrow> ledger_height t = d"
  by (induction d t rule: perfect.induct) auto

lemma perfect_Suc: "perfect (Suc d) t \<longleftrightarrow> (\<exists>l r. t = Branch l r \<and> perfect d l \<and> perfect d r)"
  by (cases t) auto

lemma perfect_0: "perfect 0 t \<longleftrightarrow> (\<exists>s. t = Slot s)"
  by (cases t) auto

lemma path_down_length: "perfect d t \<Longrightarrow> length bs = d \<Longrightarrow> length (path_down L eh t bs) = d"
proof (induction d arbitrary: t bs)
  case (Suc d)
  then show ?case by (cases bs) (auto simp: perfect_Suc)
qed (simp add: perfect_0)

lemma path_down_dirs: "perfect d t \<Longrightarrow> length bs = d \<Longrightarrow> map goes_right (path_down L eh t bs) = bs"
proof (induction d arbitrary: t bs)
  case (Suc d)
  then show ?case by (cases bs) (auto simp: perfect_Suc)
qed (simp add: perfect_0)

text \<open>The path of a slot folds to the root.\<close>

lemma root_of_path_down:
  "perfect d t \<Longrightarrow> length bs = d \<Longrightarrow>
   root_of L (path_down L eh t bs) (slot_hash L eh (slot_at t bs)) = tree_hash L eh t"
proof (induction d arbitrary: t bs)
  case (Suc d)
  then obtain l r b bs' where t: "t = Branch l r" "bs = b # bs'" "perfect d l" "perfect d r" "length bs' = d"
    by (cases bs) (auto simp: perfect_Suc)
  then show ?case
    using Suc.IH [of l bs'] Suc.IH [of r bs']
    by (simp add: path_step_def path_down_length perfect_height)
qed (auto simp: perfect_0)

section \<open>Binding\<close>

text \<open>The two children a path claims below a node, and the first level, from the root, at which two
  openings claim different children: with equal roots this is a pair of different inputs with the
  same node hash. (That such pairs exist somewhere is no surprise, the hash being to a finite field;
  the point is that two conflicting openings hand one over.)\<close>

fun children :: "'f merkle_path \<Rightarrow> 'f \<Rightarrow> 'f \<times> 'f" where
  "children (Left sib) x = (x, sib)"
| "children (Right sib) x = (sib, x)"

fun collide ::
  "('h, 'f, 'a, 'w, 'd) ledger_env \<Rightarrow> 'f merkle_path list \<Rightarrow> 'f \<Rightarrow> 'f merkle_path list \<Rightarrow> 'f \<Rightarrow>
   (nat \<times> ('f \<times> 'f) \<times> ('f \<times> 'f)) option" where
  "collide L (p # ps) x (q # qs) y =
     (let c = children p (root_of L ps x); c' = children q (root_of L qs y)
      in if c \<noteq> c' then Some (length ps, c, c') else collide L ps x qs y)"
| "collide L _ x _ y = None"

definition node_collision ::
  "('h, 'f, 'a, 'w, 'd) ledger_env \<Rightarrow> nat \<Rightarrow> 'f \<times> 'f \<Rightarrow> 'f \<times> 'f \<Rightarrow> bool" where
  "node_collision L h c c' \<longleftrightarrow>
     c \<noteq> c' \<and> hash_node L h (fst c) (snd c) = hash_node L h (fst c') (snd c')"

lemma path_step_children: "path_step L x (h, p) = hash_node L h (fst (children p x)) (snd (children p x))"
  by (cases p) (simp_all add: path_step_def)

lemma children_inj:
  "children p x = children q y \<Longrightarrow> goes_right p = goes_right q \<Longrightarrow> p = q \<and> x = y"
  by (cases p; cases q) auto

lemma root_of_binding:
  assumes "map goes_right ps = map goes_right qs" and "root_of L ps x = root_of L qs y"
  shows "case collide L ps x qs y of
      None \<Rightarrow> x = y \<and> ps = qs
    | Some (h, c, c') \<Rightarrow> h < length ps \<and> node_collision L h c c'"
  using assms
proof (induction L ps x qs y rule: collide.induct)
  case (1 L p ps x q qs y)
  let ?c = "children p (root_of L ps x)" and ?c' = "children q (root_of L qs y)"
  have len: "length ps = length qs" using "1.prems"(1) by (metis length_map list.map(2) list.inject)
  show ?case
  proof (cases "?c = ?c'")
    case True
    then have "p = q" "root_of L ps x = root_of L qs y"
      using children_inj [OF True] "1.prems"(1) by simp_all
    then show ?thesis using "1.IH" [OF refl refl] True "1.prems"(1) by (auto split: option.splits)
  next
    case False
    then show ?thesis using "1.prems"(2) len by (simp add: node_collision_def path_step_children)
  qed
qed auto

end
