(* ===== verification/AccountRead.thy ===== *)
theory AccountRead
  imports Account
begin

text \<open>
  \<^verbatim>\<open>src/crates/mina-verify/src/account_read.rs\<close>: the queries that read an account from an untrusted
  peer, the assembly of its Merkle path from the answers, the check against a proven root, and the
  sweep that maps public keys to leaf indices.

  Shifts, additions and multiplications on \<^verbatim>\<open>u64\<close> and the subtraction on \<^verbatim>\<open>usize\<close> are those of the
  build, with overflow checks or without; the functions that use them return \<^term>\<open>None\<close> for a panic, be
  it an overflow or one of the external \<^verbatim>\<open>Address::from_index\<close>.
\<close>

section \<open>Source\<close>

definition LEDGER_DEPTH :: usize where
  "LEDGER_DEPTH = 35"

definition CONTENTS_SUBTREE_HEIGHT :: usize where
  "CONTENTS_SUBTREE_HEIGHT = 5"

datatype account_read_error =
    AnswerCountMismatch (acm_expected: usize) (acm_got: usize)
  | NotChildHashes usize
  | NotContents
  | BadHash
  | BadAccount
  | NotIncluded

fun account_read_error_text :: "account_read_error \<Rightarrow> string" where
  "account_read_error_text (AnswerCountMismatch expected got) =
     ''expected '' @ show_nat expected @ '' sync-ledger answers, got '' @ show_nat got"
| "account_read_error_text (NotChildHashes level) =
     ''answer at level '' @ show_nat level @ '' was not ChildHashesAre''"
| "account_read_error_text NotContents = ''leaf answer was not a non-empty ContentsAre''"
| "account_read_error_text BadHash = ''a sync-ledger hash was not a valid field element''"
| "account_read_error_text BadAccount = ''account binprot did not decode''"
| "account_read_error_text NotIncluded =
     ''account + path do not fold to the block'' @ [char_of (39::nat)] @ ''s verified ledger root''"

text \<open>The RPC's queries and answers; the source distinguishes two kinds of answers from all others.\<close>

datatype 'd sync_query = WhatChildHashes 'd | WhatContents 'd | NumAccounts

datatype ('h, 'w) sync_answer = ChildHashesAre 'h 'h | ContentsAre "'w list" | OtherAnswer

definition node_addr ::
  "('h, 'f, 'a, 'w, 'd) ledger_env \<Rightarrow> u64 \<Rightarrow> usize \<Rightarrow> usize \<Rightarrow> 'd panics" where
  "node_addr L index depth level =
     do {
       n \<leftarrow> sub_usize_in (overflow_checks L) depth level;
       prefix \<leftarrow> shr_u64_in (overflow_checks L) index n;
       address_from_index L prefix level
     }"

text \<open>The loop \<^verbatim>\<open>for level in 0..depth\<close>, with the queries pushed so far.\<close>

fun child_queries ::
  "('h, 'f, 'a, 'w, 'd) ledger_env \<Rightarrow> u64 \<Rightarrow> usize \<Rightarrow> usize list \<Rightarrow> 'd sync_query list \<Rightarrow>
   'd sync_query list panics" where
  "child_queries L index depth [] queries = Some queries"
| "child_queries L index depth (level # levels) queries =
     (case node_addr L index depth level of
        None \<Rightarrow> None
      | Some a \<Rightarrow> child_queries L index depth levels (queries @ [WhatChildHashes a]))"

definition sync_ledger_queries ::
  "('h, 'f, 'a, 'w, 'd) ledger_env \<Rightarrow> u64 \<Rightarrow> usize \<Rightarrow> 'd sync_query list panics" where
  "sync_ledger_queries L index depth =
     do {
       queries \<leftarrow> child_queries L index depth [0..<depth] [];
       leaf \<leftarrow> address_from_index L index depth;
       Some (queries @ [WhatContents leaf])
     }"

definition staking_epoch_ledger_hash :: "('h, 'p, 'x) block \<Rightarrow> 'h" where
  "staking_epoch_ledger_hash b =
     ledger_hash (epoch_ledger (staking_epoch_data (header_consensus (block_header b))))"

definition next_epoch_ledger_hash :: "('h, 'p, 'x) block \<Rightarrow> 'h" where
  "next_epoch_ledger_hash b =
     ledger_hash (epoch_ledger (next_epoch_data (header_consensus (block_header b))))"

definition sweep_base_index :: "u64 \<Rightarrow> u64" where
  "sweep_base_index start_index =
     push_bit CONTENTS_SUBTREE_HEIGHT (drop_bit CONTENTS_SUBTREE_HEIGHT start_index)"

definition ledger_sweep_queries ::
  "('h, 'f, 'a, 'w, 'd) ledger_env \<Rightarrow> u64 \<Rightarrow> u64 \<Rightarrow> usize \<Rightarrow> 'd sync_query list panics" where
  "ledger_sweep_queries L start_index num_accounts depth =
     do {
       subtree_depth \<leftarrow> sub_usize_in (overflow_checks L) depth CONTENTS_SUBTREE_HEIGHT;
       let first = drop_bit CONTENTS_SUBTREE_HEIGHT start_index;
       let last = div_ceil_u64 num_accounts (push_bit CONTENTS_SUBTREE_HEIGHT 1);
       those (map (\<lambda>s. map_option WhatContents (address_from_index L s subtree_depth)) (u64_range first last))
     }"

text \<open>The two nested loops of \<^verbatim>\<open>pubkey_index_pairs\<close>, each with its counter and the pairs so far.\<close>

fun leaf_pairs ::
  "('h, 'f, 'a, 'w, 'd) ledger_env \<Rightarrow> u64 \<Rightarrow> usize \<Rightarrow> 'w list \<Rightarrow> (string \<times> u64) list \<Rightarrow>
   ((string \<times> u64) list, account_read_error) result panics" where
  "leaf_pairs L subtree_base j [] pairs = Some (Ok pairs)"
| "leaf_pairs L subtree_base j (a # as) pairs =
     (case account_try_from L a of
        Inl _ \<Rightarrow> Some (Err BadAccount)
      | Inr account \<Rightarrow>
          (case add_u64_in (overflow_checks L) subtree_base (of_nat j) of
             None \<Rightarrow> None
           | Some i \<Rightarrow> leaf_pairs L subtree_base (Suc j) as (pairs @ [(account_address L account, i)])))"

fun subtree_pairs ::
  "('h, 'f, 'a, 'w, 'd) ledger_env \<Rightarrow> u64 \<Rightarrow> usize \<Rightarrow> ('h, 'w) sync_answer list \<Rightarrow> (string \<times> u64) list \<Rightarrow>
   ((string \<times> u64) list, account_read_error) result panics" where
  "subtree_pairs L base_index s [] pairs = Some (Ok pairs)"
| "subtree_pairs L base_index s (answer # answers) pairs =
     (case answer of
        ContentsAre accounts \<Rightarrow>
          do {
            offset \<leftarrow> mul_u64_in (overflow_checks L) (of_nat s) (push_bit CONTENTS_SUBTREE_HEIGHT 1);
            subtree_base \<leftarrow> add_u64_in (overflow_checks L) base_index offset;
            try_bind (leaf_pairs L subtree_base 0 accounts pairs)
              (subtree_pairs L base_index (Suc s) answers)
          }
      | _ \<Rightarrow> Some (Err NotContents))"

definition pubkey_index_pairs ::
  "('h, 'f, 'a, 'w, 'd) ledger_env \<Rightarrow> ('h, 'w) sync_answer list \<Rightarrow> u64 \<Rightarrow> usize \<Rightarrow>
   ((string \<times> u64) list, account_read_error) result panics" where
  "pubkey_index_pairs L answers base_index depth = subtree_pairs L base_index 0 answers []"

definition hash_to_fp ::
  "('h, 'f, 'a, 'w, 'd) ledger_env \<Rightarrow> 'h \<Rightarrow> ('f, account_read_error) result" where
  "hash_to_fp L h = map_err (\<lambda>_. BadHash) (to_field L h)"

text \<open>The loop over the child-hash answers, root to leaf.\<close>

fun path_loop ::
  "('h, 'f, 'a, 'w, 'd) ledger_env \<Rightarrow> u64 \<Rightarrow> usize \<Rightarrow> usize \<Rightarrow> ('h, 'w) sync_answer list \<Rightarrow>
   'f merkle_path list \<Rightarrow> ('f merkle_path list, account_read_error) result panics" where
  "path_loop L index depth level [] root_to_leaf = Some (Ok root_to_leaf)"
| "path_loop L index depth level (answer # answers) root_to_leaf =
     (case answer of
        ChildHashesAre left right \<Rightarrow>
          do {
            n \<leftarrow> sub_usize_in (overflow_checks L) depth level;
            n' \<leftarrow> sub_usize_in (overflow_checks L) n 1;
            shifted \<leftarrow> shr_u64_in (overflow_checks L) index n';
            let p = (if and shifted 1 = 1
                     then and_then (hash_to_fp L left) (\<lambda>f. Ok (Right f))
                     else and_then (hash_to_fp L right) (\<lambda>f. Ok (Left f)));
            try_bind (Some p)
              (\<lambda>q. path_loop L index depth (Suc level) answers (root_to_leaf @ [q]))
          }
      | _ \<Rightarrow> Some (Err (NotChildHashes level)))"

definition leaf_account ::
  "('h, 'f, 'a, 'w, 'd) ledger_env \<Rightarrow> ('h, 'w) sync_answer \<Rightarrow> ('a, account_read_error) result" where
  "leaf_account L answer =
     (case answer of
        ContentsAre accounts \<Rightarrow>
          and_then (ok_or (case accounts of [] \<Rightarrow> None | a # _ \<Rightarrow> Some a) NotContents)
            (\<lambda>a. map_err (\<lambda>_. BadAccount) (account_try_from L a))
      | _ \<Rightarrow> Err NotContents)"

definition account_with_path ::
  "('h, 'f, 'a, 'w, 'd) ledger_env \<Rightarrow> u64 \<Rightarrow> usize \<Rightarrow> ('h, 'w) sync_answer list \<Rightarrow>
   ('a \<times> 'f merkle_path list, account_read_error) result panics" where
  "account_with_path L index depth answers =
     (if length answers \<noteq> depth + 1
      then Some (Err (AnswerCountMismatch (depth + 1) (length answers)))
      else
        try_bind (path_loop L index depth 0 (take depth answers) [])
          (\<lambda>root_to_leaf.
             let path = rev root_to_leaf
             in Some (and_then (leaf_account L (answers ! depth)) (\<lambda>account. Ok (account, path)))))"

definition verify_account_at_root ::
  "('h, 'f, 'a, 'w, 'd) ledger_env \<Rightarrow> 'h \<Rightarrow> u64 \<Rightarrow> usize \<Rightarrow> ('h, 'w) sync_answer list \<Rightarrow>
   ('a, account_read_error) result panics" where
  "verify_account_at_root L root index depth answers =
     try_bind (account_with_path L index depth answers)
       (\<lambda>(account, path). try_bind (Some (map_err (\<lambda>_. BadHash) (to_field L root)))
          (\<lambda>root_fp. Some (if implied_root L account path = root_fp then Ok account
                           else Err NotIncluded)))"

end
