(* ===== verification/LedgerPeer.thy ===== *)
theory LedgerPeer
  imports AccountRead
begin

text \<open>
  Reading accounts, proved against ledgers as trees. \<open>serve\<close> is the peer that answers from a
  ledger, as the tests of \<^verbatim>\<open>account_read.rs\<close> have it. The queries and answers go through external
  codecs; what is relied on of them is \<open>codec_laws\<close>: hashes and accounts survive the trip over the
  wire, and the address made from an index and a length spells the index in that many bits, most
  significant first.
\<close>

section \<open>Index bits\<close>

fun index_bits :: "nat \<Rightarrow> u64 \<Rightarrow> bool list" where
  "index_bits 0 i = []"
| "index_bits (Suc d) i = bit i d # index_bits d i"

lemma length_index_bits [simp]: "length (index_bits d i) = d"
  by (induction d) auto

lemma nth_index_bits: "k < d \<Longrightarrow> index_bits d i ! k = bit i (d - Suc k)"
proof (induction d arbitrary: k)
  case (Suc d)
  then show ?case by (cases k) auto
qed simp

lemma take_index_bits: "k \<le> d \<Longrightarrow> take k (index_bits d i) = index_bits k (drop_bit (d - k) i)"
  by (rule nth_equalityI) (auto simp: nth_index_bits bit_drop_bit_eq)

lemma prefix_bound: "unat i < 2 ^ d \<Longrightarrow> k \<le> d \<Longrightarrow> unat (drop_bit (d - k) (i :: u64)) < 2 ^ k"
  by (simp add: unat_drop_bit less_mult_imp_div_less flip: power_add)

lemma low_bit: "and (drop_bit n (i :: u64)) 1 = 1 \<longleftrightarrow> bit i n"
  by (simp add: and_one_eq bit_iff_odd_drop_bit mod_2_eq_odd)

section \<open>The honest peer\<close>

fun accounts_of :: "'a ledger \<Rightarrow> 'a list" where
  "accounts_of (Slot None) = []"
| "accounts_of (Slot (Some a)) = [a]"
| "accounts_of (Branch l r) = accounts_of l @ accounts_of r"

record ('h, 'f, 'a, 'w, 'd) wire_codec =
  of_field :: "'f \<Rightarrow> 'h"
  encode_account :: "'a \<Rightarrow> 'w"
  address_bits :: "'d \<Rightarrow> bool list"

definition codec_laws ::
  "('h, 'f, 'a, 'w, 'd) ledger_env \<Rightarrow> ('h, 'f, 'a, 'w, 'd) wire_codec \<Rightarrow> bool" where
  "codec_laws L W \<longleftrightarrow>
     (\<forall>f. to_field L (of_field W f) = Ok f) \<and>
     (\<forall>a. account_try_from L (encode_account W a) = Ok a) \<and>
     (\<forall>i n. unat i < 2 ^ n \<longrightarrow> (\<exists>d. address_from_index L i n = Some d \<and> address_bits W d = index_bits n i))"

definition serve ::
  "('h, 'f, 'a, 'w, 'd) ledger_env \<Rightarrow> 'f \<Rightarrow> ('h, 'f, 'a, 'w, 'd) wire_codec \<Rightarrow> 'a ledger \<Rightarrow> 'd sync_query \<Rightarrow>
   ('h, 'w) sync_answer" where
  "serve L eh W t q =
     (case q of
        WhatChildHashes d \<Rightarrow>
          (case subtree t (address_bits W d) of
             Some (Branch l r) \<Rightarrow> ChildHashesAre (of_field W (tree_hash L eh l)) (of_field W (tree_hash L eh r))
           | _ \<Rightarrow> OtherAnswer)
      | WhatContents d \<Rightarrow>
          (case subtree t (address_bits W d) of
             Some u \<Rightarrow> ContentsAre (map (encode_account W) (accounts_of u))
           | None \<Rightarrow> OtherAnswer)
      | NumAccounts \<Rightarrow> OtherAnswer)"

text \<open>The child-hash answers along a walk, by recursion on the ledger.\<close>

fun walk_answers ::
  "('h, 'f, 'a, 'w, 'd) ledger_env \<Rightarrow> 'f \<Rightarrow> ('h, 'f, 'a, 'w, 'd) wire_codec \<Rightarrow> 'a ledger \<Rightarrow> bool list \<Rightarrow>
   ('h, 'w) sync_answer list" where
  "walk_answers L eh W (Branch l r) (b # bs) =
     ChildHashesAre (of_field W (tree_hash L eh l)) (of_field W (tree_hash L eh r)) #
     walk_answers L eh W (if b then r else l) bs"
| "walk_answers L eh W _ _ = []"

lemma length_walk_answers: "perfect d t \<Longrightarrow> length bs = d \<Longrightarrow> length (walk_answers L eh W t bs) = d"
proof (induction d arbitrary: t bs)
  case (Suc d)
  then show ?case by (cases bs) (auto simp: perfect_Suc)
qed (simp add: perfect_0)

lemma nth_walk_answers:
  "\<lbrakk>perfect d t; length bs = d; k < d; address_bits W a = take k bs\<rbrakk> \<Longrightarrow>
   walk_answers L eh W t bs ! k = serve L eh W t (WhatChildHashes a)"
proof -
  have "\<exists>l r. subtree t (take k bs) = Some (Branch l r) \<and>
      walk_answers L eh W t bs ! k =
        ChildHashesAre (of_field W (tree_hash L eh l)) (of_field W (tree_hash L eh r))"
    if "perfect d t" "length bs = d" "k < d"
    using that
  proof (induction d arbitrary: t bs k)
    case (Suc d)
    then obtain l r b bs' where t: "t = Branch l r" "bs = b # bs'" "perfect d l" "perfect d r" "length bs' = d"
      by (cases bs) (auto simp: perfect_Suc)
    show ?case
    proof (cases k)
      case 0
      then show ?thesis using t by simp
    next
      case (Suc j)
      then show ?thesis using t Suc.prems(3) Suc.IH [of "if b then r else l" bs' j] by simp
    qed
  qed simp
  then show "\<lbrakk>perfect d t; length bs = d; k < d; address_bits W a = take k bs\<rbrakk> \<Longrightarrow>
    walk_answers L eh W t bs ! k = serve L eh W t (WhatChildHashes a)"
    by (fastforce simp: serve_def)
qed

lemma subtree_leaf: "perfect d t \<Longrightarrow> length bs = d \<Longrightarrow> subtree t bs = Some (Slot (slot_at t bs))"
proof (induction d arbitrary: t bs)
  case (Suc d)
  then show ?case by (cases bs) (auto simp: perfect_Suc)
qed (auto simp: perfect_0)

section \<open>The query plan\<close>

lemma node_addr_Some:
  "level < depth \<Longrightarrow> depth < 64 \<Longrightarrow>
   node_addr L index depth level = address_from_index L (drop_bit (depth - level) index) level"
  by (simp add: node_addr_def checked_simps)

lemma child_queries_Some:
  "\<lbrakk>set levels \<subseteq> {..<depth}; depth < 64;
      \<forall>k < depth. address_from_index L (drop_bit (depth - k) index) k = Some (addr k)\<rbrakk> \<Longrightarrow>
   child_queries L index depth levels queries = Some (queries @ map (\<lambda>k. WhatChildHashes (addr k)) levels)"
  by (induction levels arbitrary: queries) (simp_all add: node_addr_Some)

lemma sync_ledger_queries_Some:
  assumes "depth < 64" and "\<forall>k \<le> depth. address_from_index L (drop_bit (depth - k) index) k = Some (addr k)"
  shows "sync_ledger_queries L index depth =
    Some (map (\<lambda>k. WhatChildHashes (addr k)) [0..<depth] @ [WhatContents (addr depth)])"
  using assms child_queries_Some [of "[0..<depth]" depth L index addr "[]"] spec [OF assms(2), of depth]
  by (simp add: sync_ledger_queries_def atLeast0LessThan)

text \<open>The addresses of the plan spell the beginnings of the index.\<close>

lemma plan_addresses:
  assumes "codec_laws L W" and "unat index < 2 ^ depth"
  obtains addr where "\<forall>k \<le> depth. address_from_index L (drop_bit (depth - k) index) k = Some (addr k)"
    and "\<forall>k \<le> depth. address_bits W (addr k) = take k (index_bits depth index)"
proof -
  have "\<exists>d. address_from_index L (drop_bit (depth - k) index) k = Some d \<and>
      address_bits W d = take k (index_bits depth index)" if "k \<le> depth" for k
    using assms(1) prefix_bound [OF assms(2) that] that by (simp add: codec_laws_def take_index_bits)
  then show ?thesis using that by metis
qed

lemma plan_exists:
  assumes "codec_laws L W" and "unat index < 2 ^ depth" and "depth < 64"
  shows "\<exists>queries. sync_ledger_queries L index depth = Some queries \<and> length queries = depth + 1"
proof -
  obtain addr where "\<forall>k \<le> depth. address_from_index L (drop_bit (depth - k) index) k = Some (addr k)"
    by (rule plan_addresses [OF assms(1,2)])
  from sync_ledger_queries_Some [OF assms(3) this] show ?thesis by simp
qed

text \<open>When making the plan panics.\<close>

lemma child_queries_None_iff:
  "child_queries L index depth levels queries = None \<longleftrightarrow> (\<exists>k \<in> set levels. node_addr L index depth k = None)"
  by (induction levels arbitrary: queries) (auto split: option.split)

definition addresses_total :: "('h, 'f, 'a, 'w, 'd) ledger_env \<Rightarrow> usize \<Rightarrow> bool" where
  "addresses_total L depth \<longleftrightarrow> (\<forall>i. \<forall>n \<le> depth. address_from_index L i n \<noteq> None)"

lemma node_addr_None_iff:
  assumes "addresses_total L depth" and "level < depth"
  shows "node_addr L index depth level = None \<longleftrightarrow> overflow_checks L \<and> 64 \<le> depth - level"
proof (cases "overflow_checks L \<and> 64 \<le> depth - level")
  case True
  then show ?thesis using assms(2) by (simp add: node_addr_def checked_simps)
next
  case False
  then obtain prefix where "shr_u64_in (overflow_checks L) index (depth - level) = Some prefix"
    by (cases "overflow_checks L") (auto simp: checked_simps)
  then show ?thesis
    using False assms by (simp add: node_addr_def checked_simps addresses_total_def del: not_None_eq)
qed

lemma sync_ledger_queries_None_iff:
  assumes "addresses_total L depth"
  shows "sync_ledger_queries L index depth = None \<longleftrightarrow> overflow_checks L \<and> 64 \<le> depth"
proof -
  have "address_from_index L index depth \<noteq> None" using assms by (simp add: addresses_total_def del: not_None_eq)
  then have "sync_ledger_queries L index depth = None \<longleftrightarrow> (\<exists>k < depth. node_addr L index depth k = None)"
    using child_queries_None_iff [of L index depth "[0..<depth]" "[]"]
    by (cases "child_queries L index depth [0..<depth] []") (fastforce simp: sync_ledger_queries_def)+
  also have "\<dots> \<longleftrightarrow> (\<exists>k < depth. overflow_checks L \<and> 64 \<le> depth - k)"
    using node_addr_None_iff [OF assms] by blast
  also have "\<dots> \<longleftrightarrow> overflow_checks L \<and> 64 \<le> depth" by (auto intro: exI [of _ 0])
  finally show ?thesis .
qed

lemma served_plan:
  assumes laws: "codec_laws L W" and t: "perfect depth t" and idx: "unat index < 2 ^ depth" and d: "depth < 64"
    and q: "sync_ledger_queries L index depth = Some queries"
  shows "map (serve L eh W t) queries =
    walk_answers L eh W t (index_bits depth index) @
    [ContentsAre (map (encode_account W) (accounts_of (Slot (slot_at t (index_bits depth index)))))]"
proof -
  obtain addr where addr: "\<forall>k \<le> depth. address_from_index L (drop_bit (depth - k) index) k = Some (addr k)"
    and bits: "\<forall>k \<le> depth. address_bits W (addr k) = take k (index_bits depth index)"
    by (rule plan_addresses [OF laws idx])
  have len: "length (walk_answers L eh W t (index_bits depth index)) = depth"
    by (rule length_walk_answers [OF t]) simp
  have walk: "map (\<lambda>k. serve L eh W t (WhatChildHashes (addr k))) [0..<depth] =
      walk_answers L eh W t (index_bits depth index)"
    by (intro nth_equalityI) (simp_all add: len nth_walk_answers [OF t _ _ bits [rule_format]])
  have "serve L eh W t (WhatContents (addr depth)) =
      ContentsAre (map (encode_account W) (accounts_of (Slot (slot_at t (index_bits depth index)))))"
    using bits subtree_leaf [OF t, of "index_bits depth index"] by (simp add: serve_def)
  then show ?thesis using walk q by (auto simp: sync_ledger_queries_Some [OF d addr] o_def)
qed

section \<open>Assembling the path\<close>

lemma path_loop_step:
  assumes "level + Suc r = depth" and "r < 64"
  shows "path_loop L index depth level (ChildHashesAre left right # answers) acc =
    try_bind (Some (if bit index r then and_then (hash_to_fp L left) (\<lambda>f. Ok (Right f))
                    else and_then (hash_to_fp L right) (\<lambda>f. Ok (Left f))))
      (\<lambda>q. path_loop L index depth (Suc level) answers (acc @ [q]))"
proof -
  have "sub_usize_in (overflow_checks L) depth level = Some (Suc r)"
    using assms(1) sub_usize_in_Some [of level depth] by simp
  then show ?thesis using assms(2) by (simp add: checked_simps low_bit Let_def)
qed

declare path_loop.simps(2) [simp del]

lemma path_loop_other:
  "\<nexists>l r. answer = ChildHashesAre l r \<Longrightarrow>
   path_loop L index depth level (answer # answers) acc = Some (Err (NotChildHashes level))"
  by (cases answer) (auto simp: path_loop.simps(2))

lemma path_loop_walk:
  assumes laws: "codec_laws L W"
  shows "\<lbrakk>perfect r t; level + r = depth; r \<le> 64\<rbrakk> \<Longrightarrow>
    path_loop L index depth level (walk_answers L eh W t (index_bits r index)) acc =
      Some (Ok (acc @ path_down L eh t (index_bits r index)))"
proof (induction r arbitrary: t level acc)
  case (Suc r)
  obtain lt rt where t: "t = Branch lt rt" "perfect r lt" "perfect r rt" using Suc.prems by (auto simp: perfect_Suc)
  show ?case
    using Suc.prems t Suc.IH [of _ "Suc level"] laws
    by (simp add: path_loop_step hash_to_fp_def codec_laws_def)
qed (simp add: perfect_0)

lemma path_loop_dirs:
  "\<lbrakk>level + length answers = depth; overflow_checks L \<or> depth \<le> 64;
      path_loop L index depth level answers acc = Some (Ok out)\<rbrakk> \<Longrightarrow>
   \<exists>ps. out = acc @ ps \<and> map goes_right ps = index_bits (length answers) index"
proof (induction answers arbitrary: level acc)
  case (Cons ans answers)
  show ?case
  proof (cases "\<exists>l r. ans = ChildHashesAre l r")
    case False
    then show ?thesis using Cons.prems by (simp add: path_loop_other)
  next
    case True
    then obtain l r where ans: "ans = ChildHashesAre l r" by blast
    have small: "length answers < 64"
    proof (rule ccontr)
      assume "\<not> length answers < 64"
      then have "overflow_checks L" "64 \<le> length answers" using Cons.prems(1,2) by auto
      moreover have "sub_usize_in (overflow_checks L) depth level = Some (Suc (length answers))"
        using Cons.prems(1) sub_usize_in_Some [of level depth] by simp
      ultimately show False using Cons.prems(3) ans by (simp add: path_loop.simps(2) checked_simps)
    qed
    have "level + Suc (length answers) = depth" using Cons.prems by simp
    note step = path_loop_step [OF this small, of L index l r answers acc]
    have "\<exists>q. goes_right q = bit index (length answers) \<and>
      path_loop L index depth (Suc level) answers (acc @ [q]) = Some (Ok out)"
      using Cons.prems(3) unfolding ans step
      by (cases "bit index (length answers)") (auto simp: result_simps intro: exI [of _ "Left _"] exI [of _ "Right _"])
    then obtain q where q: "goes_right q = bit index (length answers)"
      "path_loop L index depth (Suc level) answers (acc @ [q]) = Some (Ok out)" by blast
    then show ?thesis using Cons.IH [of "Suc level" "acc @ [q]"] Cons.prems(1,2) by auto
  qed
qed simp

text \<open>Depth up to 64 is no panic, whatever the peer answers.\<close>

lemma path_loop_no_panic:
  "\<lbrakk>level + length answers = depth; depth \<le> 64\<rbrakk> \<Longrightarrow> path_loop L index depth level answers acc \<noteq> None"
proof (induction answers arbitrary: level acc)
  case (Cons ans answers)
  show ?case
  proof (cases "\<exists>l r. ans = ChildHashesAre l r")
    case False
    then show ?thesis by (simp add: path_loop_other)
  next
    case True
    then obtain l r where ans: "ans = ChildHashesAre l r" by blast
    have "level + Suc (length answers) = depth" "length answers < 64" using Cons.prems by simp_all
    note step = path_loop_step [OF this, of L index l r answers acc]
    show ?thesis unfolding ans step using Cons.IH [of "Suc level"] Cons.prems by (auto simp: result_simps)
  qed
qed simp

section \<open>Reading an account\<close>

lemma account_with_path_Ok:
  assumes "account_with_path L index depth answers = Some (Ok (a, path))" and "overflow_checks L \<or> depth \<le> 64"
  shows "map goes_right (rev path) = index_bits depth index"
    and "leaf_account L (answers ! depth) = Ok a" and "length answers = depth + 1"
proof -
  have len: "length answers = depth + 1"
    using assms(1) by (simp add: account_with_path_def split: if_splits)
  obtain out where out: "path_loop L index depth 0 (take depth answers) [] = Some (Ok out)"
    and leaf: "and_then (leaf_account L (answers ! depth)) (\<lambda>account. Ok (account, rev out)) = Ok (a, path)"
    using assms(1) len by (auto simp: account_with_path_def result_simps)
  have "map goes_right out = index_bits depth index"
    using path_loop_dirs [OF _ assms(2) out] len by simp
  then show "map goes_right (rev path) = index_bits depth index"
    and "leaf_account L (answers ! depth) = Ok a" and "length answers = depth + 1"
    using leaf len by (auto simp: result_simps)
qed

lemma account_with_path_served:
  assumes laws: "codec_laws L W" and t: "perfect depth t" and idx: "unat index < 2 ^ depth"
    and a: "slot_at t (index_bits depth index) = Some a" and d: "depth < 64"
    and q: "sync_ledger_queries L index depth = Some queries"
  shows "account_with_path L index depth (map (serve L eh W t) queries) =
    Some (Ok (a, rev (path_down L eh t (index_bits depth index))))"
proof -
  have len: "length (walk_answers L eh W t (index_bits depth index)) = depth"
    by (rule length_walk_answers [OF t]) simp
  show ?thesis
    unfolding served_plan [OF laws t idx d q]
    using laws path_loop_walk [OF laws t, of 0 depth index eh "[]"] a d
    by (simp add: account_with_path_def len nth_append leaf_account_def codec_laws_def)
qed

lemma verify_account_served_root:
  assumes "codec_laws L W" and t: "perfect depth t" and "unat index < 2 ^ depth"
    and a: "slot_at t (index_bits depth index) = Some a" and "depth < 64"
    and q: "sync_ledger_queries L index depth = Some queries" and root: "to_field L root = Ok f"
  shows "verify_account_at_root L root index depth (map (serve L eh W t) queries) =
    Some (if f = tree_hash L eh t then Ok a else Err NotIncluded)"
proof -
  have "implied_root L a (rev (path_down L eh t (index_bits depth index))) = tree_hash L eh t"
    using root_of_path_down [OF t, of "index_bits depth index" L eh] a by (simp add: implied_root_rev)
  then show ?thesis
    using account_with_path_served [OF assms(1-6), of eh] root by (auto simp: verify_account_at_root_def)
qed

lemma verify_account_served:
  assumes "codec_laws L W" and "perfect depth t" and "unat index < 2 ^ depth"
    and "slot_at t (index_bits depth index) = Some a" and "depth < 64"
    and "sync_ledger_queries L index depth = Some queries"
  shows "verify_account_at_root L (of_field W (tree_hash L eh t)) index depth (map (serve L eh W t) queries) =
    Some (Ok a)"
proof -
  have "to_field L (of_field W (tree_hash L eh t)) = Ok (tree_hash L eh t)"
    using assms(1) by (simp add: codec_laws_def)
  from verify_account_served_root [OF assms this, of eh] show ?thesis by simp
qed

lemma verify_account_at_root_Ok:
  assumes "verify_account_at_root L root index depth answers = Some (Ok a)"
  obtains path where "account_with_path L index depth answers = Some (Ok (a, path))"
    and "to_field L root = Ok (implied_root L a path)"
  using assms
  by (auto simp: verify_account_at_root_def result_simps split: if_splits)

text \<open>The right number of answers is never reported as wrong.\<close>

lemma path_loop_not_count:
  "path_loop L index depth level answers acc \<noteq> Some (Err (AnswerCountMismatch n k))"
proof (induction answers arbitrary: level acc)
  case (Cons answer answers)
  show ?case
  proof (cases answer)
    case (ChildHashesAre l r)
    have "hash_to_fp L h \<noteq> Err (AnswerCountMismatch n k)" for h by (auto simp: hash_to_fp_def result_simps)
    then show ?thesis
      using Cons ChildHashesAre
      by (auto simp: path_loop.simps(2) result_simps bind_eq_Some_conv Let_def split: if_splits)
  qed (simp_all add: path_loop.simps(2))
qed simp

lemma leaf_account_not_count: "leaf_account L answer \<noteq> Err (AnswerCountMismatch n k)"
  by (auto simp: leaf_account_def result_simps split: sync_answer.split list.split)

lemma verify_account_count:
  assumes "length answers = depth + 1"
  shows "verify_account_at_root L root index depth answers \<noteq> Some (Err (AnswerCountMismatch n k))"
  using assms path_loop_not_count [of L index depth 0 "take depth answers" "[]" n k]
    leaf_account_not_count [of L "answers ! depth" n k]
  by (auto simp: verify_account_at_root_def account_with_path_def result_simps split: if_splits)

text \<open>A read panics only in a build with overflow checks, and there at the first level of a deeper ledger.\<close>

lemma path_loop_panics:
  assumes "overflow_checks L" and "64 < depth"
  shows "path_loop L index depth 0 (ChildHashesAre l r # answers) acc = None"
  using assms by (simp add: path_loop.simps(2) checked_simps)

lemma path_loop_unchecked:
  "\<not> overflow_checks L \<Longrightarrow> level + length answers = depth \<Longrightarrow> path_loop L index depth level answers acc \<noteq> None"
proof (induction answers arbitrary: level acc)
  case (Cons ans answers)
  have "sub_usize_in (overflow_checks L) depth level = Some (Suc (length answers))"
    using Cons.prems(2) sub_usize_in_Some [of level depth] by simp
  then show ?case
    using Cons.prems Cons.IH [of "Suc level"]
    by (cases ans) (auto simp: path_loop.simps(2) checked_simps Let_def result_simps simp del: not_None_eq)
qed simp

lemma verify_account_at_root_no_panic:
  assumes "depth \<le> 64"
  shows "verify_account_at_root L root index depth answers \<noteq> None"
proof (cases "length answers = depth + 1")
  case True
  then have "path_loop L index depth 0 (take depth answers) [] \<noteq> None"
    using path_loop_no_panic [of 0 "take depth answers" depth L index "[]"] assms by simp
  then show ?thesis
    by (auto simp: verify_account_at_root_def account_with_path_def result_simps simp del: not_None_eq)
next
  case False
  then show ?thesis by (simp add: verify_account_at_root_def account_with_path_def)
qed

lemma verify_account_at_root_None_iff:
  "verify_account_at_root L root index depth answers = None \<longleftrightarrow>
     overflow_checks L \<and> 64 < depth \<and> length answers = depth + 1 \<and> (\<exists>l r. answers ! 0 = ChildHashesAre l r)"
proof (cases "overflow_checks L \<and> 64 < depth \<and> length answers = depth + 1")
  case True
  then obtain ans rest where ans: "take depth answers = ans # rest" "answers ! 0 = ans"
    by (cases answers; cases depth) auto
  then show ?thesis
    using True path_loop_panics [of L depth index _ _ rest "[]"] path_loop_other [of ans L index depth 0 rest "[]"]
    by (cases "\<exists>l r. ans = ChildHashesAre l r") (auto simp: verify_account_at_root_def account_with_path_def)
next
  case False
  then have "length answers = depth + 1 \<Longrightarrow> path_loop L index depth 0 (take depth answers) [] \<noteq> None"
    using path_loop_unchecked [of L 0 "take depth answers" depth index "[]"]
      path_loop_no_panic [of 0 "take depth answers" depth L index "[]"]
    by (cases "overflow_checks L") (simp_all del: not_None_eq)
  then show ?thesis
    using False by (auto simp: verify_account_at_root_def account_with_path_def result_simps simp del: not_None_eq)
qed

section \<open>Faults\<close>

text \<open>What is wrong with the answer at a level, if anything.\<close>

fun level_fault ::
  "('h, 'f, 'a, 'w, 'd) ledger_env \<Rightarrow> u64 \<Rightarrow> usize \<Rightarrow> usize \<Rightarrow> ('h, 'w) sync_answer \<Rightarrow> account_read_error option" where
  "level_fault L index depth k (ChildHashesAre left right) =
     (if is_ok (to_field L (if bit index (depth - Suc k) then left else right)) then None else Some BadHash)"
| "level_fault L index depth k _ = Some (NotChildHashes k)"

lemma path_loop_fault:
  assumes "level + Suc (length answers) = depth" and "depth \<le> 64"
  shows "level_fault L index depth level ans = Some e \<Longrightarrow>
      path_loop L index depth level (ans # answers) acc = Some (Err e)"
    and "level_fault L index depth level ans = None \<Longrightarrow>
      \<exists>q. path_loop L index depth level (ans # answers) acc =
        path_loop L index depth (Suc level) answers (acc @ [q])"
proof -
  have r: "length answers < 64" "depth - Suc level = length answers" using assms by simp_all
  note step = path_loop_step [OF assms(1) r(1), of L index]
  show "path_loop L index depth level (ans # answers) acc = Some (Err e)"
    if "level_fault L index depth level ans = Some e"
    using that r
    by (cases ans)
      (auto simp: step path_loop_other result_simps hash_to_fp_def not_ok_iff split: if_splits)
  show "\<exists>q. path_loop L index depth level (ans # answers) acc =
      path_loop L index depth (Suc level) answers (acc @ [q])"
    if "level_fault L index depth level ans = None"
    using that r
    by (cases ans) (auto simp: step hash_to_fp_def is_ok_iff split: if_splits)
qed

lemma path_loop_first_fault:
  "\<lbrakk>level + length answers = depth; depth \<le> 64\<rbrakk> \<Longrightarrow>
   path_loop L index depth level answers acc = Some (Err e) \<longleftrightarrow>
     (\<exists>k < length answers. level_fault L index depth (level + k) (answers ! k) = Some e \<and>
        (\<forall>j < k. level_fault L index depth (level + j) (answers ! j) = None))"
proof (induction answers arbitrary: level acc)
  case (Cons ans answers)
  have lv: "level + Suc (length answers) = depth" using Cons.prems by simp
  note fault = path_loop_fault [OF lv Cons.prems(2), of L index ans]
  show ?case
  proof (cases "level_fault L index depth level ans")
    case None
    obtain q where q: "path_loop L index depth level (ans # answers) acc =
        path_loop L index depth (Suc level) answers (acc @ [q])"
      using fault(2) [OF None] by blast
    have "(\<exists>k < length (ans # answers). level_fault L index depth (level + k) ((ans # answers) ! k) = Some e \<and>
        (\<forall>j < k. level_fault L index depth (level + j) ((ans # answers) ! j) = None)) \<longleftrightarrow>
      (\<exists>k < length answers. level_fault L index depth (Suc level + k) (answers ! k) = Some e \<and>
        (\<forall>j < k. level_fault L index depth (Suc level + j) (answers ! j) = None))"
      using None by (simp add: Ex_less_Suc2 All_less_Suc2)
    then show ?thesis using q Cons.IH [of "Suc level" "acc @ [q]"] Cons.prems by simp
  next
    case (Some e')
    then show ?thesis using fault(1) [OF Some, of acc] by (auto simp: Ex_less_Suc2 All_less_Suc2)
  qed
qed simp

end
