(* ===== verification/Sweep.thy ===== *)
theory Sweep
  imports LedgerPeer
begin

text \<open>
  The sweep of \<^verbatim>\<open>account_read.rs\<close> against a peer that serves a ledger whose accounts fill the slots
  from index zero on: the pairs it yields are exactly the accounts with their leaf indices.
\<close>

section \<open>Slots of a subtree\<close>

fun slots :: "'a ledger \<Rightarrow> 'a option list" where
  "slots (Slot s) = [s]"
| "slots (Branch l r) = slots l @ slots r"

fun somes :: "'a option list \<Rightarrow> 'a list" where
  "somes [] = []"
| "somes (None # xs) = somes xs"
| "somes (Some a # xs) = a # somes xs"

lemma somes_append [simp]: "somes (xs @ ys) = somes xs @ somes ys"
  by (induction xs rule: somes.induct) auto

lemma somes_filled [simp]: "somes (map Some xs) = xs" "somes (replicate n None) = []"
  by (induction xs, auto) (induction n, auto)

lemma accounts_of_slots: "accounts_of t = somes (slots t)"
  by (induction t rule: accounts_of.induct) auto

lemma length_slots: "perfect d t \<Longrightarrow> length (slots t) = 2 ^ d"
  by (induction d t rule: perfect.induct) auto

lemma mod_double: "(n :: nat) mod 2 ^ Suc k = (if odd (n div 2 ^ k) then 2 ^ k else 0) + n mod 2 ^ k"
proof -
  have "n mod (2 ^ k * 2) = 2 ^ k * (n div 2 ^ k mod 2) + n mod 2 ^ k" by (rule mod_mult2_eq)
  then show ?thesis by (simp add: mult.commute mod_2_eq_odd)
qed

lemma subtree_slots:
  "perfect (k + e) t \<Longrightarrow> \<exists>u. subtree t (index_bits k s) = Some u \<and> perfect e u \<and>
     slots u = take (2 ^ e) (drop ((unat s mod 2 ^ k) * 2 ^ e) (slots t))"
proof (induction k arbitrary: t)
  case 0
  then show ?case by (simp add: length_slots)
next
  case (Suc k)
  obtain l r where t: "t = Branch l r" "perfect (k + e) l" "perfect (k + e) r"
    using Suc.prems by (auto simp: perfect_Suc)
  have len: "length (slots l) = 2 ^ k * 2 ^ e" using length_slots [OF t(2)] by (simp add: power_add)
  have b: "bit s k \<longleftrightarrow> odd (unat s div 2 ^ k)" by (rule bit_u64_div)
  show ?case
  proof (cases "bit s k")
    case True
    then have m: "(unat s mod 2 ^ Suc k) * 2 ^ e = length (slots l) + (unat s mod 2 ^ k) * 2 ^ e"
      using b len unfolding mod_double [of _ k] by (simp add: algebra_simps)
    obtain u where "subtree r (index_bits k s) = Some u" "perfect e u"
      "slots u = take (2 ^ e) (drop ((unat s mod 2 ^ k) * 2 ^ e) (slots r))"
      using Suc.IH [OF t(3)] by blast
    then show ?thesis using t(1) True unfolding m by simp
  next
    case False
    then have m: "unat s mod 2 ^ Suc k = unat s mod 2 ^ k" using b unfolding mod_double [of _ k] by simp
    have "Suc (unat s mod 2 ^ k) * 2 ^ e \<le> 2 ^ k * 2 ^ e" by (rule mult_le_mono1) (simp add: Suc_leI)
    then have room: "2 ^ e \<le> length (slots l) - (unat s mod 2 ^ k) * 2 ^ e" using len by simp
    obtain u where "subtree l (index_bits k s) = Some u" "perfect e u"
      "slots u = take (2 ^ e) (drop ((unat s mod 2 ^ k) * 2 ^ e) (slots l))"
      using Suc.IH [OF t(2)] by blast
    then show ?thesis using t(1) False room unfolding m by simp
  qed
qed

section \<open>The answers of a dense ledger\<close>

definition dense :: "nat \<Rightarrow> 'a list \<Rightarrow> 'a ledger \<Rightarrow> bool" where
  "dense d accts t \<longleftrightarrow> perfect d t \<and> length accts \<le> 2 ^ d \<and>
     slots t = map Some accts @ replicate (2 ^ d - length accts) None"

text \<open>The ledger with the given accounts in its first slots.\<close>

fun ledger_of :: "nat \<Rightarrow> 'a list \<Rightarrow> 'a ledger" where
  "ledger_of 0 as = Slot (case as of [] \<Rightarrow> None | a # _ \<Rightarrow> Some a)"
| "ledger_of (Suc d) as = Branch (ledger_of d (take (2 ^ d) as)) (ledger_of d (drop (2 ^ d) as))"

lemma perfect_ledger_of: "perfect d (ledger_of d as)"
  by (induction d arbitrary: "as") simp_all

lemma slots_ledger_of:
  "length as \<le> 2 ^ d \<Longrightarrow> slots (ledger_of d as) = map Some as @ replicate (2 ^ d - length as) None"
proof (induction d arbitrary: "as")
  case 0
  then show ?case by (cases "as") auto
next
  case (Suc d)
  show ?case
  proof (cases "length as \<le> 2 ^ d")
    case True
    then have "slots (ledger_of (Suc d) as) = map Some as @ replicate (2 ^ d - length as) None @ replicate (2 ^ d) None"
      using Suc.IH [of "as"] Suc.IH [of "[]"] by simp
    also have "\<dots> = map Some as @ replicate (2 ^ Suc d - length as) None"
      using True by (simp add: replicate_add [symmetric])
    finally show ?thesis .
  next
    case False
    then show ?thesis
      using Suc.IH [of "take (2 ^ d) as"] Suc.IH [of "drop (2 ^ d) as"] Suc.prems
      by (simp add: map_append [symmetric] mult_2 del: map_append flip: append_assoc)
  qed
qed

lemma dense_ledger_of: "length as \<le> 2 ^ d \<Longrightarrow> dense d as (ledger_of d as)"
  by (simp add: dense_def perfect_ledger_of slots_ledger_of)

lemma slot_at_slots:
  assumes "perfect d t"
  shows "slot_at t (index_bits d i) = slots t ! (unat i mod 2 ^ d)"
proof -
  obtain u where u: "subtree t (index_bits d i) = Some u" "perfect 0 u"
    "slots u = take 1 (drop (unat i mod 2 ^ d) (slots t))"
    using subtree_slots [of d 0 t i] assms by auto
  have "unat i mod 2 ^ d < length (slots t)" by (simp add: length_slots [OF assms])
  then have "slots u = [slots t ! (unat i mod 2 ^ d)]" using u(3) by (simp add: take_Suc hd_drop_conv_nth)
  moreover have "u = Slot (slot_at t (index_bits d i))" using subtree_leaf [OF assms] u(1) by simp
  ultimately show ?thesis by simp
qed

lemma slot_at_ledger_of:
  assumes "k < length as" and "length as \<le> 2 ^ d" and "k < 2 ^ 64"
  shows "slot_at (ledger_of d as) (index_bits d (of_nat k)) = Some (as ! k)"
  using assms by (simp add: slot_at_slots [OF perfect_ledger_of] slots_ledger_of unat_of_nat_u64 nth_append)

lemma served_subtree:
  assumes laws: "codec_laws L W" and t: "dense (k + e) accts t" and s: "unat s < 2 ^ k"
  shows "\<exists>d. address_from_index L s k = Some d \<and>
    serve L eh W t (WhatContents d) =
      ContentsAre (map (encode_account W) (take (2 ^ e) (drop (unat s * 2 ^ e) accts)))"
proof -
  have p: "perfect (k + e) t" using t by (simp add: dense_def)
  obtain u where u: "subtree t (index_bits k s) = Some u"
    "slots u = take (2 ^ e) (drop ((unat s mod 2 ^ k) * 2 ^ e) (slots t))"
    using subtree_slots [OF p] by blast
  have "accounts_of u = take (2 ^ e) (drop (unat s * 2 ^ e) accts)"
    using t s by (simp add: accounts_of_slots u(2) dense_def take_map drop_map)
  moreover obtain d where "address_from_index L s k = Some d" "address_bits W d = index_bits k s"
    using laws s unfolding codec_laws_def by blast
  ultimately show ?thesis using u(1) by (simp add: serve_def)
qed

section \<open>The pairs\<close>

definition entry :: "('h, 'f, 'a, 'w, 'd) ledger_env \<Rightarrow> 'a list \<Rightarrow> nat \<Rightarrow> string \<times> u64" where
  "entry L accts i = (account_address L (accts ! i), of_nat i)"

lemma leaf_pairs_served:
  assumes laws: "codec_laws L W"
  shows "\<lbrakk>\<forall>k < length as. as ! k = accts ! (unat b + j + k); unat b + j + length as \<le> 2 ^ 64\<rbrakk> \<Longrightarrow>
    leaf_pairs L b j (map (encode_account W) as) pairs =
      Some (Ok (pairs @ map (entry L accts) [unat b + j..<unat b + j + length as]))"
proof (induction as arbitrary: j pairs)
  case (Cons a as)
  have j: "unat (of_nat j :: u64) = j" using Cons.prems(2) by (simp add: unat_of_nat_u64)
  then have add: "add_u64 b (of_nat j) = Some (of_nat (unat b + j))"
    using Cons.prems(2) by (simp add: add_u64_def)
  have a: "a = accts ! (unat b + j)" using Cons.prems(1) by force
  have rest: "\<forall>k < length as. as ! k = accts ! (unat b + Suc j + k)"
    using Cons.prems(1) by (metis Suc_less_eq add_Suc_right add_Suc_shift length_Cons nth_Cons_Suc)
  have upt: "[unat b + j..<unat b + j + length (a # as)] =
      (unat b + j) # [unat b + Suc j..<unat b + Suc j + length as]"
    by (simp add: upt_conv_Cons del: upt_Suc)
  have "leaf_pairs L b j (map (encode_account W) (a # as)) pairs =
      leaf_pairs L b (Suc j) (map (encode_account W) as) (pairs @ [entry L accts (unat b + j)])"
    using laws add a by (simp add: codec_laws_def entry_def checked_simps)
  also have "\<dots> = Some (Ok ((pairs @ [entry L accts (unat b + j)]) @
      map (entry L accts) [unat b + Suc j..<unat b + Suc j + length as]))"
    by (rule Cons.IH [OF rest]) (use Cons.prems(2) in simp)
  finally show ?case by (simp only: upt list.map append_assoc append_Cons append_Nil)
qed simp

lemma chunk_join:
  assumes f: "f < stop" and m: "32 * f < n"
  shows "[32 * f..<32 * f + min 32 (n - 32 * f)] @ [32 * Suc f..<min n (32 * stop)] =
    [32 * f..<min n (32 * stop)]"
proof (cases "32 * f + 32 \<le> n")
  case True
  have chunk: "min 32 (n - 32 * f) = 32" using True by simp
  have "32 * f + 32 \<le> min n (32 * stop)" using True f by simp
  then show ?thesis
    unfolding chunk
    using upt_add_eq_append [of "32 * f" "32 * f + 32" "min n (32 * stop) - (32 * f + 32)"]
    by (simp add: add.commute [of 32])
next
  case False
  then show ?thesis using m f by (auto simp: min_def)
qed

lemma subtree_base:
  assumes base: "unat base = 32 * first" and small: "32 * (first + s) < 2 ^ 64"
  shows "mul_u64 (of_nat s) (push_bit CONTENTS_SUBTREE_HEIGHT 1) = Some (of_nat (32 * s))"
    and "\<exists>sb. add_u64 base (of_nat (32 * s)) = Some sb \<and> unat sb = 32 * (first + s)"
proof -
  have "unat (of_nat s :: u64) = s" using small by (simp add: unat_of_nat_u64)
  then show "mul_u64 (of_nat s) (push_bit CONTENTS_SUBTREE_HEIGHT 1) = Some (of_nat (32 * s))"
    using small by (simp add: mul_u64_def CONTENTS_SUBTREE_HEIGHT_def)
  have off: "unat (of_nat (32 * s) :: u64) = 32 * s"
    by (rule unat_of_nat_u64) (use small in simp)
  have "unat base + unat (of_nat (32 * s) :: u64) < 2 ^ 64" using small base by (simp only: off) simp
  then obtain sb where sb: "add_u64 base (of_nat (32 * s)) = Some sb" by (simp only: add_u64_def if_True)
  then show "\<exists>sb. add_u64 base (of_nat (32 * s)) = Some sb \<and> unat sb = 32 * (first + s)"
    using add_u64_Some_unat [OF sb] base off by simp
qed

lemma subtree_pairs_served:
  assumes laws: "codec_laws L W" and n: "length accts < 2 ^ 64" and base: "unat base = 32 * first"
  shows "\<lbrakk>r = stop - (first + s); 32 * stop < length accts + 32\<rbrakk> \<Longrightarrow>
    subtree_pairs L base s
      (map (\<lambda>i. ContentsAre (map (encode_account W) (take 32 (drop (i * 32) accts)))) [first + s..<stop]) pairs =
    Some (Ok (pairs @ map (entry L accts) [32 * (first + s)..<min (length accts) (32 * max stop (first + s))]))"
proof (induction r arbitrary: s pairs)
  case 0
  then show ?case by simp
next
  case (Suc r)
  let ?m = "32 * (first + s)"
  let ?as = "take 32 (drop (32 * (first + s)) accts)"
  have lt: "first + s < stop" using Suc.prems(1) by simp
  have m: "?m < length accts" using lt Suc.prems(2) by simp
  have "?m < 2 ^ 64" using m n by simp
  note mul = subtree_base(1) [OF base this] and sum = subtree_base(2) [OF base this]
  obtain sb where sb: "add_u64 base (of_nat (32 * s)) = Some sb" "unat sb = ?m" using sum by blast
  have leaf: "leaf_pairs L sb 0 (map (encode_account W) ?as) pairs =
      Some (Ok (pairs @ map (entry L accts) [?m..<?m + length ?as]))"
    using leaf_pairs_served [OF laws, of ?as accts sb 0 pairs] sb(2) m n by simp
  have upt: "[first + s..<stop] = (first + s) # [first + Suc s..<stop]" using lt by (simp add: upt_conv_Cons)
  have join: "[?m..<?m + length ?as] @ [32 * (first + Suc s)..<min (length accts) (32 * stop)] =
      [?m..<min (length accts) (32 * stop)]"
    using chunk_join [OF lt m] by (simp add: min.commute)
  have "max stop (first + Suc s) = stop" "max stop (first + s) = stop" using lt by simp_all
  then have rest: "subtree_pairs L base (Suc s)
      (map (\<lambda>i. ContentsAre (map (encode_account W) (take 32 (drop (i * 32) accts)))) [first + Suc s..<stop])
      (pairs @ map (entry L accts) [?m..<?m + length ?as]) =
      Some (Ok (pairs @ map (entry L accts) [?m..<min (length accts) (32 * stop)]))"
    using Suc.IH [of "Suc s" "pairs @ map (entry L accts) [?m..<?m + length ?as]"] Suc.prems
    unfolding join [symmetric] map_append by simp
  show ?case
    using rest leaf mul sb(1) \<open>max stop (first + s) = stop\<close>
    by (simp add: checked_simps upt mult.commute [of _ 32] del: upt_Suc)
qed

lemma unat_sweep_base: "unat (sweep_base_index start) = 32 * (unat start div 32)"
proof -
  have le: "32 * (unat start div 32) < 2 ^ 64"
    by (rule order_le_less_trans [OF _ unat_u64_less [of start]]) simp
  have "of_nat (unat (drop_bit 5 start)) = drop_bit 5 start" by simp
  then have "drop_bit 5 start = of_nat (unat start div 32)" by (simp only: unat_drop_bit) simp
  then have "sweep_base_index start = of_nat (32 * (unat start div 32))"
    by (simp add: sweep_base_index_def CONTENTS_SUBTREE_HEIGHT_def push_bit_eq_mult)
  then show ?thesis using unat_of_nat_u64 [OF le] by simp
qed

text \<open>The plan of a sweep, with the addresses spelled out.\<close>

lemma sweep_plan:
  assumes "\<forall>i \<in> {unat start div 32..<unat (div_ceil_u64 num 32)}.
      address_from_index L (of_nat i) (depth - 5) = Some (addr i)" and "5 \<le> depth"
  shows "ledger_sweep_queries L start num depth =
    Some (map (\<lambda>i. WhatContents (addr i)) [unat start div 32..<unat (div_ceil_u64 num 32)])"
  using assms
  by (simp add: ledger_sweep_queries_def CONTENTS_SUBTREE_HEIGHT_def checked_simps u64_range_def unat_drop_bit
      those_Some_iff o_def)

lemma sweep_served:
  assumes laws: "codec_laws L W" and t: "dense depth accts t" and d: "5 \<le> depth"
    and n: "unat num = length accts"
  shows "\<exists>queries. ledger_sweep_queries L start num depth = Some queries \<and>
    length queries = (length accts + 31) div 32 - unat start div 32 \<and>
    pubkey_index_pairs L (map (serve L eh W t) queries) (sweep_base_index start) depth =
      Some (Ok (map (entry L accts) [32 * (unat start div 32)..<length accts]))"
proof -
  let ?first = "unat start div 32"
  define stop where "stop = (length accts + 31) div 32"
  have n64: "length accts < 2 ^ 64" using n unat_u64_less [of num] by simp
  have last: "unat (div_ceil_u64 num 32) = stop"
    using unat_div_ceil_u64 [of 32 num] n by (simp add: stop_def)
  have bound: "i < 2 ^ (depth - 5)" "i < 2 ^ 64" if "i < stop" for i
  proof -
    have "32 * stop \<le> length accts + 31" by (simp add: stop_def)
    then have "32 * i < length accts" using that by linarith
    moreover have "length accts \<le> 32 * 2 ^ (depth - 5)"
      using t d power_add [of "2::nat" 5 "depth - 5"] by (simp add: dense_def)
    ultimately show "i < 2 ^ (depth - 5)" by linarith
    show "i < 2 ^ 64" using n64 \<open>32 * i < length accts\<close> by linarith
  qed
  have "\<exists>a. address_from_index L (of_nat i) (depth - 5) = Some a \<and> serve L eh W t (WhatContents a) =
      ContentsAre (map (encode_account W) (take 32 (drop (i * 32) accts)))" if "i < stop" for i
    using served_subtree [OF laws, of "depth - 5" 5 accts t "of_nat i" eh] t d bound [OF that]
    by (simp add: unat_of_nat_u64)
  then obtain addr where addr: "\<forall>i < stop. address_from_index L (of_nat i) (depth - 5) = Some (addr i)"
    and ans: "\<forall>i < stop. serve L eh W t (WhatContents (addr i)) =
      ContentsAre (map (encode_account W) (take 32 (drop (i * 32) accts)))"
    by metis
  define queries where "queries = map (\<lambda>i. WhatContents (addr i)) [?first..<stop]"
  have plan: "ledger_sweep_queries L start num depth = Some queries"
    using sweep_plan [of start num L depth addr] addr d by (simp add: last queries_def)
  have served: "map (serve L eh W t) queries =
      map (\<lambda>i. ContentsAre (map (encode_account W) (take 32 (drop (i * 32) accts)))) [?first + 0..<stop]"
    using ans by (simp add: queries_def)
  have stop: "32 * stop < length accts + 32" by (simp add: stop_def)
  have "min (length accts) (32 * max stop ?first) = length accts \<or> length accts \<le> 32 * ?first"
    by (auto simp: stop_def)
  then have "[32 * ?first..<min (length accts) (32 * max stop ?first)] = [32 * ?first..<length accts]" by auto
  then show ?thesis
    using subtree_pairs_served [OF laws n64 unat_sweep_base refl stop, of start 0 "[]"]
    by (intro exI [of _ queries]) (simp add: plan pubkey_index_pairs_def served, simp add: queries_def stop_def)
qed

end
