(* ===== verification/AccountCorrect.thy ===== *)
theory AccountCorrect
  imports Sweep Samples
begin

text \<open>
  The properties of account reads, each with a witness on a ledger of depth two with three
  accounts.
\<close>

definition sample_ledger_env :: "(nat, nat, nat, nat, bool list) ledger_env" where
  "sample_ledger_env =
     \<lparr>to_field = Ok, account_hash = (\<lambda>a. a), hash_node = (\<lambda>h l r. l + 2 * r + h),
      account_try_from = Ok, account_address = (\<lambda>a. [char_of a]),
      address_from_index = (\<lambda>i n. Some (index_bits n i)), overflow_checks = True\<rparr>"

definition sample_codec :: "(nat, nat, nat, nat, bool list) wire_codec" where
  "sample_codec = \<lparr>of_field = (\<lambda>f. f), encode_account = (\<lambda>a. a), address_bits = (\<lambda>d. d)\<rparr>"

definition sample_ledger :: "nat ledger" where
  "sample_ledger = Branch (Branch (Slot (Some 1)) (Slot (Some 2))) (Branch (Slot (Some 3)) (Slot None))"

definition sample_answers :: "(nat, nat) sync_answer list" where
  "sample_answers = map (serve sample_ledger_env 0 sample_codec sample_ledger)
     (the (sync_ledger_queries sample_ledger_env 2 2))"

lemma sample_codec_laws: "codec_laws sample_ledger_env sample_codec"
  by (simp add: codec_laws_def sample_ledger_env_def sample_codec_def)

lemma sample_ledger_perfect: "perfect 2 sample_ledger"
  by code_simp

section \<open>Soundness\<close>

text \<open>C3. In a build with overflow checks, and for depths up to 64 in any build (the ledger has 35):
  whatever the peer answers, an account that \<^verbatim>\<open>verify_account_at_root\<close> accepts at an index
  against the root of a ledger hashes to what that ledger has in its slot at the index, and the
  assembled path is the ledger's path; otherwise the answers and the ledger together exhibit two
  different pairs of children with the same node hash, which \<open>collide\<close> finds.\<close>

theorem verify_account_at_root_sound:
  assumes t: "perfect depth t" and root: "to_field L root = Ok (tree_hash L eh t)"
    and run: "verify_account_at_root L root idx depth answers = Some (Ok a)"
    and depth: "overflow_checks L \<or> depth \<le> 64"
  shows "\<exists>path. account_with_path L idx depth answers = Some (Ok (a, path)) \<and>
    (case collide L (rev path) (account_hash L a) (path_down L eh t (index_bits depth idx))
            (slot_hash L eh (slot_at t (index_bits depth idx))) of
       None \<Rightarrow> account_hash L a = slot_hash L eh (slot_at t (index_bits depth idx)) \<and>
         rev path = path_down L eh t (index_bits depth idx)
     | Some (h, c, c') \<Rightarrow> h < depth \<and> node_collision L h c c')"
proof -
  obtain path where path: "account_with_path L idx depth answers = Some (Ok (a, path))"
    and fold: "to_field L root = Ok (implied_root L a path)"
    by (rule verify_account_at_root_Ok [OF run])
  have dirs: "map goes_right (rev path) = index_bits depth idx"
    by (rule account_with_path_Ok(1) [OF path depth])
  then have len: "length (rev path) = depth" by (metis length_index_bits length_map)
  have roots: "root_of L (rev path) (account_hash L a) =
      root_of L (path_down L eh t (index_bits depth idx)) (slot_hash L eh (slot_at t (index_bits depth idx)))"
    using fold root root_of_path_down [OF t, of "index_bits depth idx" L eh]
    by (simp add: implied_root_root_of)
  show ?thesis
    by (intro exI conjI, rule path, rule root_of_binding [OF _ roots, unfolded len])
      (simp only: dirs path_down_dirs [OF t length_index_bits])
qed

theorem verify_account_at_root_sound_witness:
  "verify_account_at_root sample_ledger_env (tree_hash sample_ledger_env 0 sample_ledger) 2 2 sample_answers = Some (Ok 3) \<and>
   account_hash sample_ledger_env 3 = slot_hash sample_ledger_env 0 (slot_at sample_ledger (index_bits 2 2))"
proof -
  have run: "verify_account_at_root sample_ledger_env (tree_hash sample_ledger_env 0 sample_ledger) 2 2 sample_answers =
      Some (Ok 3)"
    by code_simp
  have root: "to_field sample_ledger_env (tree_hash sample_ledger_env 0 sample_ledger) =
      Ok (tree_hash sample_ledger_env 0 sample_ledger)"
    by (simp add: sample_ledger_env_def)
  have path: "account_with_path sample_ledger_env 2 2 sample_answers = Some (Ok (3, [Left 0, Right 5]))"
    by code_simp
  have free: "collide sample_ledger_env (rev [Left 0, Right 5]) (account_hash sample_ledger_env 3)
      (path_down sample_ledger_env 0 sample_ledger (index_bits 2 2))
      (slot_hash sample_ledger_env 0 (slot_at sample_ledger (index_bits 2 2))) = None"
    by code_simp
  show ?thesis
    using verify_account_at_root_sound [OF sample_ledger_perfect root run] run path free by auto
qed

text \<open>C25. An account opening is binding for a block: if \<^verbatim>\<open>verify_account_inclusion\<close> accepts two
  accounts at the same leaf position (paths that turn the same way at every level), then the two
  accounts have the same hash and the paths are equal, or the two paths exhibit a collision of the
  node hash.\<close>

theorem inclusion_binding:
  assumes "verify_account_inclusion L b a path" and "verify_account_inclusion L b a' path'"
    and "map goes_right path = map goes_right path'"
  shows "case collide L (rev path) (account_hash L a) (rev path') (account_hash L a') of
      None \<Rightarrow> account_hash L a = account_hash L a' \<and> path = path'
    | Some (h, c, c') \<Rightarrow> h < length path \<and> node_collision L h c c'"
proof -
  have roots: "root_of L (rev path) (account_hash L a) = root_of L (rev path') (account_hash L a')"
    using assms(1,2)
    by (auto simp: verify_account_inclusion_def implied_root_root_of split: option.splits)
  have dirs: "map goes_right (rev path) = map goes_right (rev path')" using assms(3) by (simp flip: rev_map)
  show ?thesis by (rule root_of_binding [OF dirs roots, unfolded length_rev rev_is_rev_conv])
qed

theorem inclusion_binding_witness:
  "\<exists>b :: (nat, bool, unit) block.
     verify_account_inclusion sample_ledger_env b 3 [Left 0, Right 5] \<and>
     verify_account_inclusion sample_ledger_env b 1 [Left 1, Right 5] \<and>
     node_collision sample_ledger_env 0 (3, 0) (1, 1)"
proof -
  define b where "b = sample_block True 10 2\<lparr>block_header := sample_header True 10 2 12\<rparr>"
  have in1: "verify_account_inclusion sample_ledger_env b 3 [Left 0, Right 5]"
    unfolding b_def by code_simp
  have in2: "verify_account_inclusion sample_ledger_env b 1 [Left 1, Right 5]"
    unfolding b_def by code_simp
  have "collide sample_ledger_env (rev [Left 0, Right 5]) (account_hash sample_ledger_env 3)
      (rev [Left 1, Right 5]) (account_hash sample_ledger_env 1) = Some (0, (3, 0), (1, 1))"
    by code_simp
  then show ?thesis using inclusion_binding [OF in1 in2] in1 in2 by auto
qed

section \<open>Completeness\<close>

text \<open>C10. An honest peer is never rejected: for an account in the ledger, the plan of
  \<^verbatim>\<open>sync_ledger_queries\<close> answered from that ledger makes \<^verbatim>\<open>account_with_path\<close> assemble that account and
  the ledger's own path, and \<^verbatim>\<open>verify_account_at_root\<close> return the account at the ledger's root and
  \<^verbatim>\<open>NotIncluded\<close> at every other.\<close>

theorem account_read_complete:
  assumes laws: "codec_laws L W" and t: "perfect depth t" and fits: "unat idx < 2 ^ depth"
    and a: "slot_at t (index_bits depth idx) = Some a" and d: "depth < 64"
  shows "\<exists>queries. sync_ledger_queries L idx depth = Some queries \<and> length queries = depth + 1 \<and>
    account_with_path L idx depth (map (serve L eh W t) queries) =
      Some (Ok (a, rev (path_down L eh t (index_bits depth idx)))) \<and>
    (\<forall>f. verify_account_at_root L (of_field W f) idx depth (map (serve L eh W t) queries) =
      Some (if f = tree_hash L eh t then Ok a else Err NotIncluded))"
proof -
  obtain queries where q: "sync_ledger_queries L idx depth = Some queries" and len: "length queries = depth + 1"
    using plan_exists [OF laws fits d] by blast
  have "to_field L (of_field W f) = Ok f" for f using laws by (simp add: codec_laws_def)
  then show ?thesis
    using q len account_with_path_served [OF laws t fits a d q] verify_account_served_root [OF laws t fits a d q] by blast
qed

theorem account_read_complete_witness:
  "\<exists>queries. sync_ledger_queries sample_ledger_env 2 2 = Some queries \<and> length queries = 3 \<and>
    verify_account_at_root sample_ledger_env (of_field sample_codec (tree_hash sample_ledger_env 0 sample_ledger)) 2 2
      (map (serve sample_ledger_env 0 sample_codec sample_ledger) queries) = Some (Ok 3)"
proof -
  have "slot_at sample_ledger (index_bits 2 2) = Some 3" by code_simp
  from account_read_complete [OF sample_codec_laws sample_ledger_perfect _ this, of 0] show ?thesis by auto
qed

section \<open>Errors and panics\<close>

text \<open>C32. When an account read panics, provided \<^verbatim>\<open>Address::from_index\<close> itself does not panic for the lengths
  up to the depth, and memory suffices. Making the query plan panics exactly in a build with overflow
  checks for a depth of 64 or more, on a shift as wide as the index. Verifying the answers panics exactly
  in such a build for a depth above 64, when the number of answers is right and the first one is a pair of
  child hashes. A release build, which masks the width of a shift, never panics, nor does any build for
  the depths below 64, whatever a peer answers.\<close>

theorem account_read_panics:
  assumes "addresses_total L depth"
  shows "(sync_ledger_queries L idx depth = None \<longleftrightarrow> overflow_checks L \<and> 64 \<le> depth) \<and>
    (verify_account_at_root L root idx depth answers = None \<longleftrightarrow>
      overflow_checks L \<and> 64 < depth \<and> length answers = depth + 1 \<and>
      (\<exists>l r. answers ! 0 = ChildHashesAre l r))"
  using sync_ledger_queries_None_iff [OF assms, of idx] verify_account_at_root_None_iff [of L root idx depth answers]
  by blast

theorem account_read_panics_witness:
  "sync_ledger_queries sample_ledger_env 7 64 = None \<and>
   sync_ledger_queries (sample_ledger_env\<lparr>overflow_checks := False\<rparr>) 7 64 \<noteq> None \<and>
   verify_account_at_root sample_ledger_env 0 7 65 (replicate 66 (ChildHashesAre 1 2)) = None \<and>
   verify_account_at_root sample_ledger_env 0 7 64 (replicate 65 (ChildHashesAre 1 2)) \<noteq> None"
proof -
  have total: "addresses_total sample_ledger_env n" "addresses_total (sample_ledger_env\<lparr>overflow_checks := False\<rparr>) n" for n
    by (simp_all add: addresses_total_def sample_ledger_env_def)
  have checks: "overflow_checks sample_ledger_env" by (simp add: sample_ledger_env_def)
  show ?thesis
    using account_read_panics [OF total(1), of 7 64 0 "replicate 65 (ChildHashesAre 1 2)"]
      account_read_panics [OF total(2), of 7 64]
      account_read_panics [OF total(1), of 7 65 0 "replicate 66 (ChildHashesAre 1 2)"] checks
    by (simp del: replicate.simps not_None_eq)
qed

text \<open>C26. The error of an account read: a wrong number of answers is reported first; then the first
  level, from the root, whose answer is not a pair of child hashes or whose sibling hash is no field
  element; then the leaf answer; then the root; and \<^verbatim>\<open>NotIncluded\<close> exactly when everything
  decodes and the fold differs from the root.\<close>

theorem account_read_errors:
  assumes "depth \<le> 64"
  shows "verify_account_at_root L root idx depth answers = Some (Err e) \<longleftrightarrow>
    (if length answers \<noteq> depth + 1 then e = AnswerCountMismatch (depth + 1) (length answers)
     else if \<exists>k < depth. level_fault L idx depth k (answers ! k) \<noteq> None then
       \<exists>k < depth. level_fault L idx depth k (answers ! k) = Some e \<and>
         (\<forall>j < k. level_fault L idx depth j (answers ! j) = None)
     else leaf_account L (answers ! depth) = Err e \<or>
       (\<exists>a path. account_with_path L idx depth answers = Some (Ok (a, path)) \<and>
          (case to_field L root of
             Inl _ \<Rightarrow> e = BadHash
           | Inr f \<Rightarrow> e = NotIncluded \<and> implied_root L a path \<noteq> f)))"
proof (cases "length answers = depth + 1")
  case False
  then show ?thesis by (auto simp: verify_account_at_root_def account_with_path_def)
next
  case len: True
  have first: "path_loop L idx depth 0 (take depth answers) [] = Some (Err e) \<longleftrightarrow>
      (\<exists>k < depth. level_fault L idx depth k (answers ! k) = Some e \<and>
         (\<forall>j < k. level_fault L idx depth j (answers ! j) = None))" for e
    using path_loop_first_fault [of 0 "take depth answers" depth L idx "[]" e] assms len by auto
  have nopanic: "path_loop L idx depth 0 (take depth answers) [] \<noteq> None"
    using path_loop_no_panic [of 0 "take depth answers" depth L idx "[]"] assms len by simp
  show ?thesis
  proof (cases "\<exists>k < depth. level_fault L idx depth k (answers ! k) \<noteq> None")
    case True
    then obtain k where "k < depth \<and> level_fault L idx depth k (answers ! k) \<noteq> None"
      "\<forall>j < k. \<not> (j < depth \<and> level_fault L idx depth j (answers ! j) \<noteq> None)"
      using exists_least_iff [of "\<lambda>k. k < depth \<and> level_fault L idx depth k (answers ! k) \<noteq> None"] by blast
    then have k: "k < depth" "level_fault L idx depth k (answers ! k) \<noteq> None"
      "\<forall>j < k. level_fault L idx depth j (answers ! j) = None"
      by auto
    then obtain e' where e': "path_loop L idx depth 0 (take depth answers) [] = Some (Err e')"
      using first by blast
    then show ?thesis
      using True first [of e] len by (auto simp: verify_account_at_root_def account_with_path_def)
  next
    case False
    then have "\<And>e. path_loop L idx depth 0 (take depth answers) [] \<noteq> Some (Err e)" using first by auto
    then obtain out where out: "path_loop L idx depth 0 (take depth answers) [] = Some (Ok out)"
      using nopanic by (metis option.exhaust sum.exhaust)
    show ?thesis
      using False len out
      by (cases "leaf_account L (answers ! depth)"; cases "to_field L root")
        (auto simp: verify_account_at_root_def account_with_path_def)
  qed
qed

theorem account_read_errors_witness:
  "verify_account_at_root sample_ledger_env 7 2 2 sample_answers = Some (Err NotIncluded)"
proof -
  have len: "length sample_answers = 3" by code_simp
  have levels: "\<not> (\<exists>k < 2. level_fault sample_ledger_env 2 2 k (sample_answers ! k) \<noteq> None)" by code_simp
  have path: "account_with_path sample_ledger_env 2 2 sample_answers = Some (Ok (3, [Left 0, Right 5]))"
    by code_simp
  have root: "to_field sample_ledger_env 7 = Ok 7" by (simp add: sample_ledger_env_def)
  have fold: "implied_root sample_ledger_env 3 [Left 0, Right 5] \<noteq> 7" by code_simp
  show ?thesis
    using account_read_errors [of 2 sample_ledger_env 7 2 sample_answers NotIncluded] len levels path root fold
    by (simp del: not_None_eq)
qed

section \<open>The sweep\<close>

text \<open>C27. A sweep of a ledger whose accounts fill the slots from zero on, answered by an honest
  peer, yields every account from the subtree boundary below the start index on, each once, in
  order, with its own leaf index; it neither fails nor panics.\<close>

theorem sweep_reconstructs:
  assumes "codec_laws L W" and "dense depth accts t" and d: "5 \<le> depth" and "unat num = length accts"
  shows "\<exists>queries. ledger_sweep_queries L start num depth = Some queries \<and>
    pubkey_index_pairs L (map (serve L eh W t) queries) (sweep_base_index start) depth =
      Some (Ok (map (\<lambda>i. (account_address L (accts ! i), of_nat i)) [32 * (unat start div 32)..<length accts]))"
  using sweep_served [OF assms, of start eh] by (auto simp: entry_def)

theorem sweep_reconstructs_witness:
  "\<exists>queries. ledger_sweep_queries sample_ledger_env 2 3 5 = Some queries \<and>
    pubkey_index_pairs sample_ledger_env (map (serve sample_ledger_env 0 sample_codec (ledger_of 5 [7, 8, 9])) queries)
      (sweep_base_index 2) 5 =
      Some (Ok [([char_of (7 :: nat)], 0), ([char_of (8 :: nat)], 1), ([char_of (9 :: nat)], 2)])"
proof -
  have "dense 5 [7, 8, 9] (ledger_of 5 [7, 8, 9])" by (rule dense_ledger_of) simp
  from sweep_reconstructs [OF sample_codec_laws this, of 3 2 0] show ?thesis
    by (simp add: upt_rec sample_ledger_env_def)
qed

end
