(* ===== verification/UnitTests.thy ===== *)
theory UnitTests
  imports AccountCorrect
begin

text \<open>
  The unit tests inside \<^verbatim>\<open>account.rs\<close>, \<^verbatim>\<open>account_read.rs\<close> and \<^verbatim>\<open>precomputed.rs\<close>. A test is the conjunction of
  its assertions, with everything it unwraps; the theorems show that the tests hold not only for the
  accounts, depths and fixtures they pick but for all of them.

  The \<^verbatim>\<open>Database\<close> of mina-tree that the tests fill is the tree \<open>ledger_of\<close> with the accounts in the slots
  from zero on, in the order of their insertion.
\<close>

section \<open>account\_read.rs\<close>

text \<open>One round of the loop over the accounts, and the test. The right root and a wrong one, which the
  test takes to be seven.\<close>

definition reconstructs_at ::
  "('h, 'f, 'a, 'w, 'd) ledger_env \<Rightarrow> 'f \<Rightarrow> ('h, 'f, 'a, 'w, 'd) wire_codec \<Rightarrow> 'f \<Rightarrow> nat \<Rightarrow> 'a ledger \<Rightarrow> u64 \<Rightarrow> bool" where
  "reconstructs_at L eh W wrong depth db idx =
     (let want_path = rev (path_down L eh db (index_bits depth idx));
          want_account = slot_at db (index_bits depth idx)
      in case sync_ledger_queries L idx depth of
           None \<Rightarrow> False
         | Some queries \<Rightarrow>
             length queries = depth + 1 \<and>
             (let answers = map (serve L eh W db) queries in
              case account_with_path L idx depth answers of
                Some (Inr (got_account, got_path)) \<Rightarrow>
                  got_path = want_path \<and> Some got_account = want_account \<and>
                  implied_root L got_account got_path = tree_hash L eh db \<and>
                  verify_account_at_root L (of_field W (tree_hash L eh db)) idx depth answers =
                    Some (Ok got_account) \<and>
                  verify_account_at_root L (of_field W wrong) idx depth answers = Some (Err NotIncluded)
              | _ \<Rightarrow> False))"

definition reconstructs_mina_tree_path_for_several_accounts ::
  "('h, 'f, 'a, 'w, 'd) ledger_env \<Rightarrow> 'f \<Rightarrow> ('h, 'f, 'a, 'w, 'd) wire_codec \<Rightarrow> 'f \<Rightarrow> nat \<Rightarrow> 'a list \<Rightarrow> bool" where
  "reconstructs_mina_tree_path_for_several_accounts L eh W wrong depth accounts =
     (let db = ledger_of depth accounts
      in list_all (\<lambda>k. reconstructs_at L eh W wrong depth db (of_nat k)) [0..<length accounts])"

definition wrong_answer_count_is_rejected :: "('h, 'f, 'a, 'w, 'd) ledger_env \<Rightarrow> bool" where
  "wrong_answer_count_is_rejected L \<longleftrightarrow>
     account_with_path L 0 10 [] = Some (Err (AnswerCountMismatch 11 0))"

definition sweep_indices ::
  "('h, 'f, 'a, 'w, 'd) ledger_env \<Rightarrow> 'f \<Rightarrow> ('h, 'f, 'a, 'w, 'd) wire_codec \<Rightarrow> nat \<Rightarrow> 'a ledger \<Rightarrow> u64 \<Rightarrow> u64 \<Rightarrow>
   (nat \<times> (string \<times> u64) list) option" where
  "sweep_indices L eh W depth db start n =
     (case ledger_sweep_queries L start n depth of
        None \<Rightarrow> None
      | Some queries \<Rightarrow>
          (case pubkey_index_pairs L (map (serve L eh W db) queries) (sweep_base_index start) depth of
             Some (Inr pairs) \<Rightarrow> Some (length queries, pairs)
           | _ \<Rightarrow> None))"

definition sweep_reconstructs_every_leaf_index ::
  "('h, 'f, 'a, 'w, 'd) ledger_env \<Rightarrow> 'f \<Rightarrow> ('h, 'f, 'a, 'w, 'd) wire_codec \<Rightarrow> nat \<Rightarrow> 'a list \<Rightarrow> string \<Rightarrow> bool" where
  "sweep_reconstructs_every_leaf_index L eh W depth accounts want_addr =
     (let db = ledger_of depth accounts; n = length accounts in
      (case sweep_indices L eh W depth db 0 (of_nat n) of
         None \<Rightarrow> False
       | Some (asked, pairs) \<Rightarrow>
           asked = (n + 31) div 32 \<and> length pairs = n \<and>
           sort (map (unat \<circ> snd) pairs) = [0..<n] \<and> list_all (\<lambda>(addr, _). addr = want_addr) pairs) \<and>
      (let base = sweep_base_index 40 in
       base = 32 \<and>
       (case sweep_indices L eh W depth db 40 (of_nat n) of
          None \<Rightarrow> False
        | Some (_, tail) \<Rightarrow> sort (map (unat \<circ> snd) tail) = [unat base..<n])))"

section \<open>account.rs\<close>

text \<open>The first sibling of the path is replaced; the fold must then miss the root.\<close>

fun tamper :: "'f \<Rightarrow> 'f merkle_path list \<Rightarrow> 'f merkle_path list" where
  "tamper f [] = []"
| "tamper f (Left h # path) = Left f # path"
| "tamper f (Right h # path) = Right f # path"

definition implied_root_matches_real_ledger_and_rejects_tampering ::
  "('h, 'f, 'a, 'w, 'd) ledger_env \<Rightarrow> 'f \<Rightarrow> 'f \<Rightarrow> nat \<Rightarrow> 'a \<Rightarrow> bool" where
  "implied_root_matches_real_ledger_and_rejects_tampering L eh seven depth account =
     (let db = ledger_of depth [account];
          root = tree_hash L eh db;
          path = rev (path_down L eh db (index_bits depth 0))
      in implied_root L account path = root \<and> implied_root L account (tamper seven path) \<noteq> root)"

section \<open>The tests hold\<close>

theorem reconstructs_test_holds:
  assumes laws: "codec_laws L W" and d: "depth < 64" and n: "length accounts \<le> 2 ^ depth"
    and wrong: "wrong \<noteq> tree_hash L eh (ledger_of depth accounts)"
  shows "reconstructs_mina_tree_path_for_several_accounts L eh W wrong depth accounts"
proof -
  let ?db = "ledger_of depth accounts"
  have "reconstructs_at L eh W wrong depth ?db (of_nat k)" if k: "k < length accounts" for k
  proof -
    have "(2::nat) ^ depth < 2 ^ 64" using d by (rule power_strict_increasing) simp
    moreover have "k < 2 ^ depth" using k n by simp
    ultimately have idx: "unat (of_nat k :: u64) < 2 ^ depth" and a: "slot_at ?db (index_bits depth (of_nat k)) = Some (accounts ! k)"
      using slot_at_ledger_of [OF k n] by (simp_all add: unat_of_nat_u64)
    obtain queries where q: "sync_ledger_queries L (of_nat k) depth = Some queries" and len: "length queries = depth + 1"
      using plan_exists [OF laws idx d] by blast
    have fields: "to_field L (of_field W f) = Ok f" for f using laws by (simp add: codec_laws_def)
    have "implied_root L (accounts ! k) (rev (path_down L eh ?db (index_bits depth (of_nat k)))) = tree_hash L eh ?db"
      using root_of_path_down [OF perfect_ledger_of, of "index_bits depth (of_nat k)" depth L eh accounts] a
      by (simp add: implied_root_rev)
    then show ?thesis
      using q len a account_with_path_served [OF laws perfect_ledger_of idx a d q, of eh] wrong
        verify_account_served_root [OF laws perfect_ledger_of idx a d q fields]
      by (simp add: reconstructs_at_def Let_def)
  qed
  then show ?thesis
    by (simp add: reconstructs_mina_tree_path_for_several_accounts_def Let_def list_all_iff)
qed

theorem wrong_answer_count_holds: "wrong_answer_count_is_rejected L"
  by (simp add: wrong_answer_count_is_rejected_def account_with_path_def)

lemma sweep_indices_Some:
  assumes laws: "codec_laws L W" and d: "5 \<le> depth" and n: "length accounts \<le> 2 ^ depth" "length accounts < 2 ^ 64"
  shows "\<exists>asked. sweep_indices L eh W depth (ledger_of depth accounts) start (of_nat (length accounts)) =
      Some (asked, map (entry L accounts) [32 * (unat start div 32)..<length accounts]) \<and>
    asked = (length accounts + 31) div 32 - unat start div 32"
proof -
  have num: "unat (of_nat (length accounts) :: u64) = length accounts" using n(2) by (simp add: unat_of_nat_u64)
  show ?thesis
    using sweep_served [OF laws dense_ledger_of [OF n(1)] d num, of start eh] by (auto simp: sweep_indices_def)
qed

theorem sweep_test_holds:
  assumes "codec_laws L W" and "5 \<le> depth" and "length accounts \<le> 2 ^ depth" and n: "length accounts < 2 ^ 64"
    and addr: "\<And>a. a \<in> set accounts \<Longrightarrow> account_address L a = want_addr"
  shows "sweep_reconstructs_every_leaf_index L eh W depth accounts want_addr"
proof -
  let ?n = "length accounts"
  note swept = sweep_indices_Some [OF assms(1-4), of eh]
  have sorted: "sort (map (unat \<circ> snd) (map (entry L accounts) [b..<?n])) = [b..<?n]" for b
  proof -
    have "map (unat \<circ> snd) (map (entry L accounts) [b..<?n]) = [b..<?n]"
      using n by (auto simp: entry_def unat_of_nat_u64 intro: map_idI)
    then show ?thesis by (simp add: sorted_sort_id)
  qed
  have base: "sweep_base_index 40 = 32" by code_simp
  have "list_all (\<lambda>(addr, _). addr = want_addr) (map (entry L accounts) [0..<?n])"
    using addr by (auto simp: list_all_iff entry_def)
  then show ?thesis
    using swept [of 0] swept [of 40] sorted [of 0] sorted [of 32] base
    by (auto simp: sweep_reconstructs_every_leaf_index_def Let_def)
qed

text \<open>Tampering is noticed unless the tampered path exhibits a collision of the node hash.\<close>

lemma tamper_dirs: "map goes_right (tamper f path) = map goes_right path"
  by (cases "(f, path)" rule: tamper.cases) simp_all

theorem tampering_test_holds:
  assumes "0 < depth" and "path = path_down L eh (ledger_of depth [account]) (index_bits depth 0)"
    and seven: "tamper seven (rev path) \<noteq> rev path"
  shows "implied_root_matches_real_ledger_and_rejects_tampering L eh seven depth account \<or>
    (case collide L path (account_hash L account) (rev (tamper seven (rev path))) (account_hash L account) of
       None \<Rightarrow> False
     | Some (h, c, c') \<Rightarrow> node_collision L h c c')"
proof -
  let ?db = "ledger_of depth [account]" and ?t = "rev (tamper seven (rev path))"
  have a: "slot_at ?db (index_bits depth 0) = Some account"
    using slot_at_ledger_of [of 0 "[account]" depth] by simp
  have root: "root_of L path (account_hash L account) = tree_hash L eh ?db"
    using root_of_path_down [OF perfect_ledger_of, of "index_bits depth 0" depth L eh "[account]"] a assms(2) by simp
  have dirs: "map goes_right path = map goes_right ?t" by (simp add: tamper_dirs flip: rev_map)
  show ?thesis
  proof (cases "root_of L ?t (account_hash L account) = tree_hash L eh ?db")
    case True
    then have "root_of L path (account_hash L account) = root_of L ?t (account_hash L account)" using root by simp
    note bound = root_of_binding [OF dirs this]
    show ?thesis
    proof (cases "collide L path (account_hash L account) ?t (account_hash L account)")
      case None
      then have "path = ?t" using bound by simp
      then show ?thesis using seven by (metis rev_rev_ident)
    next
      case (Some hit)
      then show ?thesis using bound by (cases hit) simp
    qed
  next
    case False
    then show ?thesis
      using root assms(2)
      by (simp add: implied_root_matches_real_ledger_and_rejects_tampering_def Let_def implied_root_root_of)
  qed
qed

end
