(* ===== verification/Precomputed.thy ===== *)
theory Precomputed
  imports ForkChoice
begin

text \<open>
  \<^verbatim>\<open>src/crates/mina-verify/src/precomputed.rs\<close> and \<^verbatim>\<open>ingest.rs\<close>: decoding a precomputed block into a
  header, and the gates that verify a header before its facts are handed out.

  JSON values are a datatype with the operations of \<^verbatim>\<open>serde_json::Value\<close> that the sources use; parsing
  the text and decoding values, base64 and binprot are external, the fields of \<open>json_env\<close>, each with
  the text of its error.

  The interface of a gate is the locale \<open>verify_gate\<close>: what it lets through has a proof that was
  checked. The gates of the sources are its interpretations.
\<close>

section \<open>JSON values\<close>

datatype json =
    JNull
  | JBool bool
  | JNumber string
  | JString string
  | JArray "json list"
  | JObject "(string \<times> json) list"

fun json_get :: "json \<Rightarrow> string \<Rightarrow> json option" where
  "json_get (JObject kvs) k = map_of kvs k"
| "json_get _ k = None"

record ('h, 'p, 'x) json_env =
  json_from_str :: "string \<Rightarrow> (json, string) result"
  state_from_value :: "json \<Rightarrow> (('h, 'x) protocol_state, string) result"
  string_from_value :: "json \<Rightarrow> (string, string) result"
  base64_decode :: "string \<Rightarrow> (bytes, string) result"
  proof_read :: "bytes \<Rightarrow> ('p \<times> bytes, string) result"

section \<open>Precomputed blocks\<close>

definition invalid :: "string \<Rightarrow> verifier_error" where
  "invalid e = InvalidIndexJson e"

definition backtick :: string where
  "backtick = [char_of (96::nat)]"

definition precomputed_field :: "json \<Rightarrow> string \<Rightarrow> (json, verifier_error) result" where
  "precomputed_field data name =
     ok_or (json_get data name)
       (InvalidIndexJson (''precomputed block missing '' @ backtick @ name @ backtick))"

definition header_from_precomputed ::
  "('h, 'p, 'x) json_env \<Rightarrow> string \<Rightarrow> (('h, 'p, 'x) header, verifier_error) result" where
  "header_from_precomputed J json =
     and_then (map_err invalid (json_from_str J json)) (\<lambda>v.
     let data = (case json_get v ''data'' of Some d \<Rightarrow> d | None \<Rightarrow> v) in
     and_then (and_then (precomputed_field data ''protocol_state'')
                 (\<lambda>j. map_err invalid (state_from_value J j))) (\<lambda>ps.
     and_then (and_then (precomputed_field data ''protocol_state_proof'')
                 (\<lambda>j. map_err invalid (string_from_value J j))) (\<lambda>b64.
     and_then (map_err invalid (base64_decode J b64)) (\<lambda>proof_bytes.
     and_then (map_err invalid (proof_read J proof_bytes)) (\<lambda>(pf, _).
     let zero = 0 in
     Ok \<lparr>protocol_state = ps, protocol_state_proof = pf,
         delta_block_chain_proof = (previous_state_hash ps, []),
         current_protocol_version = \<lparr>pv_transaction = zero, pv_network = zero, pv_patch = zero\<rparr>,
         proposed_protocol_version_opt = None\<rparr>)))))"

definition verify_precomputed_block ::
  "('h, 'p, 'x, 'c) mina_env \<Rightarrow> ('h, 'p, 'x) json_env \<Rightarrow> ('c, 'x) verifier \<Rightarrow> string \<Rightarrow>
   (bool, verifier_error) result panics" where
  "verify_precomputed_block E J v json =
     try_bind (Some (header_from_precomputed J json)) (\<lambda>h. map_option Ok (verify_header E v h))"

section \<open>Verify before ingest\<close>

record 'h verified_block =
  vb_height :: u32
  vb_state_hash :: 'h
  vb_previous_state_hash :: 'h
  vb_staged_ledger_hash :: 'h

definition from_header ::
  "('h, 'p, 'x, 'c) mina_env \<Rightarrow> ('h, 'p, 'x) header \<Rightarrow> ('h verified_block, verifier_error) result" where
  "from_header E h =
     and_then (map_err BlockDecode (header_try_hash E h)) (\<lambda>sh.
       Ok \<lparr>vb_height = blockchain_length (header_consensus h),
           vb_state_hash = sh,
           vb_previous_state_hash = previous_state_hash (protocol_state h),
           vb_staged_ledger_hash = header_staged_root h\<rparr>)"

definition verify_and_extract ::
  "('h, 'p, 'x, 'c) mina_env \<Rightarrow> ('c, 'x) verifier \<Rightarrow> ('h, 'p, 'x) header \<Rightarrow>
   ('h verified_block, verifier_error) result panics" where
  "verify_and_extract E v h =
     do {
       ok \<leftarrow> verify_header E v h;
       if \<not> ok then Some (Err ProofInvalid) else Some (from_header E h)
     }"

definition verify_precomputed_and_extract ::
  "('h, 'p, 'x, 'c) mina_env \<Rightarrow> ('h, 'p, 'x) json_env \<Rightarrow> ('c, 'x) verifier \<Rightarrow> string \<Rightarrow>
   ('h verified_block, verifier_error) result panics" where
  "verify_precomputed_and_extract E J v json =
     try_bind (Some (header_from_precomputed J json)) (verify_and_extract E v)"

section \<open>What decoding yields\<close>

text \<open>The placeholder header made of a protocol state and a proof.\<close>

definition placeholder_header :: "('h, 'x) protocol_state \<Rightarrow> 'p \<Rightarrow> ('h, 'p, 'x) header" where
  "placeholder_header ps pf =
     \<lparr>protocol_state = ps, protocol_state_proof = pf,
      delta_block_chain_proof = (previous_state_hash ps, []),
      current_protocol_version = \<lparr>pv_transaction = 0, pv_network = 0, pv_patch = 0\<rparr>,
      proposed_protocol_version_opt = None\<rparr>"

definition block_object :: "json \<Rightarrow> json" where
  "block_object v = (case json_get v ''data'' of Some d \<Rightarrow> d | None \<Rightarrow> v)"

lemma header_from_precomputed_Ok_iff:
  "header_from_precomputed J json = Ok h \<longleftrightarrow>
     (\<exists>v j k b64 bs ps pf rest. json_from_str J json = Ok v \<and>
        json_get (block_object v) ''protocol_state'' = Some j \<and> state_from_value J j = Ok ps \<and>
        json_get (block_object v) ''protocol_state_proof'' = Some k \<and> string_from_value J k = Ok b64 \<and>
        base64_decode J b64 = Ok bs \<and> proof_read J bs = Ok (pf, rest) \<and> h = placeholder_header ps pf)"
  by (auto simp: header_from_precomputed_def result_simps precomputed_field_def placeholder_header_def
      block_object_def Let_def)

lemma header_from_precomputed_Err:
  "header_from_precomputed J json = Err e \<Longrightarrow> \<exists>m. e = InvalidIndexJson m"
  by (auto simp: header_from_precomputed_def result_simps precomputed_field_def invalid_def Let_def)

lemma header_from_precomputed_cong:
  assumes "json_from_str J s = Ok v" and "json_from_str J s' = Ok v'" and "block_object v = block_object v'"
  shows "header_from_precomputed J s = header_from_precomputed J s'"
  using assms by (simp add: header_from_precomputed_def block_object_def)

section \<open>What the gates let through\<close>

lemma verify_and_extract_Ok_iff:
  "verify_and_extract E v h = Some (Ok vb) \<longleftrightarrow> verify_header E v h = Some True \<and> from_header E h = Ok vb"
  by (cases "verify_header E v h") (auto simp: verify_and_extract_def)

lemma verify_and_extract_invalid_iff:
  "verify_and_extract E v h = Some (Err ProofInvalid) \<longleftrightarrow> verify_header E v h = Some False"
  by (cases "verify_header E v h") (auto simp: verify_and_extract_def from_header_def result_simps)

lemma from_header_Ok:
  "from_header E h = Ok vb \<longleftrightarrow>
     header_try_hash E h = Ok (vb_state_hash vb) \<and> vb_height vb = blockchain_length (header_consensus h) \<and>
     vb_previous_state_hash vb = previous_state_hash (protocol_state h) \<and>
     vb_staged_ledger_hash vb = header_staged_root h"
  by (cases vb) (auto simp: from_header_def result_simps)

text \<open>What came through a computation that may panic or fail.\<close>

fun through :: "('a, 'e) result panics \<Rightarrow> 'a option" where
  "through (Some (Inr a)) = Some a"
| "through _ = None"

lemma through_Some [simp]: "through r = Some a \<longleftrightarrow> r = Some (Ok a)"
  by (cases r rule: through.cases) auto

text \<open>A gate takes raw inputs and returns what may be ingested, if anything. \<open>proved i out\<close> says that a
  proof was checked and covers \<open>out\<close>.\<close>

locale verify_gate =
  fixes gate :: "'i \<Rightarrow> 'o option"
    and proved :: "'i \<Rightarrow> 'o \<Rightarrow> bool"
  assumes gate_proved: "gate i = Some out \<Longrightarrow> proved i out"
begin

text \<open>Everything a loop over inputs takes in was proved for one of the inputs.\<close>

lemma taken_proved: "out \<in> set (List.map_filter gate is) \<Longrightarrow> \<exists>i \<in> set is. proved i out"
  by (induction "is") (auto simp: map_filter_simps split: option.splits dest: gate_proved)

end

interpretation header_gate: verify_gate "\<lambda>h. through (verify_and_extract E v h)"
  "\<lambda>h vb. verify_header E v h = Some True \<and> from_header E h = Ok vb"
  for E :: "('h, 'p, 'x, 'c) mina_env" and v
  by unfold_locales (simp add: verify_and_extract_Ok_iff)

interpretation precomputed_gate: verify_gate "\<lambda>json. through (verify_precomputed_and_extract E J v json)"
  "\<lambda>json vb. \<exists>h. header_from_precomputed J json = Ok h \<and> verify_header E v h = Some True \<and> from_header E h = Ok vb"
  for E :: "('h, 'p, 'x, 'c) mina_env" and J and v
  by unfold_locales (auto simp: verify_precomputed_and_extract_def result_simps verify_and_extract_Ok_iff)

interpretation tip_gate: verify_gate "\<lambda>b. Option.bind (through (verify_tip E v b)) (\<lambda>t. t)"
  "\<lambda>b t. verify_block E v b = Some True \<and> tip_block t = b \<and> block_try_hash E b = Ok (tip_state_hash t)"
  for E :: "('h, 'p, 'x, 'c) mina_env" and v
proof unfold_locales
  fix b t
  assume "Option.bind (through (verify_tip E v b)) (\<lambda>t. t) = Some t"
  then have "verify_tip E v b = Some (Ok (Some t))" by (cases "through (verify_tip E v b)") auto
  then show "verify_block E v b = Some True \<and> tip_block t = b \<and> block_try_hash E b = Ok (tip_state_hash t)"
    by (simp add: verify_tip_Some_iff)
qed

end
