(* ===== verification/Utf8.thy ===== *)
theory Utf8
  imports Prelude
begin

text \<open>
  \<^verbatim>\<open>String::from_utf8_lossy\<close> of the standard library, which the server applies to every request body:
  each maximal prefix of a well-formed sequence that turns out ill-formed is replaced by U+FFFD. The
  lemmas show that the result is always well formed, and that well-formed input is unchanged.
\<close>

definition is_cont :: "u8 \<Rightarrow> bool" where
  "is_cont b \<longleftrightarrow> 0x80 \<le> b \<and> b \<le> 0xBF"

text \<open>The second bytes allowed after a lead byte.\<close>

definition second_ok :: "u8 \<Rightarrow> u8 \<Rightarrow> bool" where
  "second_ok b c \<longleftrightarrow>
     (if b = 0xE0 then 0xA0 \<le> c \<and> c \<le> 0xBF
      else if b = 0xED then 0x80 \<le> c \<and> c \<le> 0x9F
      else if b = 0xF0 then 0x90 \<le> c \<and> c \<le> 0xBF
      else if b = 0xF4 then 0x80 \<le> c \<and> c \<le> 0x8F
      else is_cont c)"

text \<open>How many more continuation bytes follow; the count of bytes accepted so far is returned when one
  is missing.\<close>

fun conts :: "nat \<Rightarrow> nat \<Rightarrow> bytes \<Rightarrow> bool \<times> nat" where
  "conts 0 seen bs = (True, seen)"
| "conts (Suc n) seen [] = (False, seen)"
| "conts (Suc n) seen (c # cs) = (if is_cont c then conts n (Suc seen) cs else (False, seen))"

text \<open>How many bytes follow a lead byte; zero for a byte that leads nothing.\<close>

definition more :: "u8 \<Rightarrow> nat" where
  "more b =
     (if 0xC2 \<le> b \<and> b \<le> 0xDF then 1 else if 0xE0 \<le> b \<and> b \<le> 0xEF then 2
      else if 0xF0 \<le> b \<and> b \<le> 0xF4 then 3 else 0)"

text \<open>Whether the input starts with a well-formed sequence, and how many bytes the sequence, or the
  ill-formed start of one, has.\<close>

fun utf8_step :: "bytes \<Rightarrow> bool \<times> nat" where
  "utf8_step [] = (True, 0)"
| "utf8_step (b # bs) =
     (if b < 0x80 then (True, 1)
      else if more b = 0 then (False, 1)
      else
        (case bs of
           [] \<Rightarrow> (False, 1)
         | c # cs \<Rightarrow> if second_ok b c then conts (more b - 1) 2 cs else (False, 1)))"

lemma conts_seen: "seen \<le> snd (conts n seen bs)"
proof (induction n seen bs rule: conts.induct)
  case (3 n seen c cs)
  then show ?case by (auto dest: Suc_leD)
qed simp_all

lemma utf8_step_pos: "bs \<noteq> [] \<Longrightarrow> 0 < snd (utf8_step bs)"
  using order_less_le_trans [OF _ conts_seen [of 2], of 0]
  by (cases bs) (auto split: list.split)

function utf8_lossy :: "bytes \<Rightarrow> bytes" where
  "utf8_lossy bs =
     (if bs = [] then []
      else (if fst (utf8_step bs) then take (snd (utf8_step bs)) bs else [0xEF, 0xBF, 0xBD]) @
           utf8_lossy (drop (snd (utf8_step bs)) bs))"
  by pat_completeness auto
termination
  by (relation "measure length") (auto simp: utf8_step_pos)

function utf8_valid :: "bytes \<Rightarrow> bool" where
  "utf8_valid bs =
     (bs = [] \<or> (fst (utf8_step bs) \<and> (bs \<noteq> [] \<longrightarrow> utf8_valid (drop (snd (utf8_step bs)) bs))))"
  by pat_completeness auto
termination
  by (relation "measure length") (auto simp: utf8_step_pos)

declare utf8_lossy.simps [simp del] utf8_valid.simps [simp del]

text \<open>A well-formed sequence is recognised whatever follows it.\<close>

lemma conts_prefix:
  "conts n seen bs = (True, k) \<Longrightarrow> k = seen + n \<and> n \<le> length bs \<and> conts n seen (take n bs @ ys) = (True, k)"
  by (induction n seen bs rule: conts.induct) (auto split: if_splits)

lemma utf8_step_prefix:
  assumes "fst (utf8_step bs)" and "bs \<noteq> []"
  shows "utf8_step (take (snd (utf8_step bs)) bs @ ys) = utf8_step bs"
    and "snd (utf8_step bs) \<le> length bs"
proof -
  obtain b cs where bs: "bs = b # cs" using assms(2) by (cases bs) auto
  obtain k where k: "utf8_step bs = (True, k)" using assms(1) by (cases "utf8_step bs") auto
  have "utf8_step (take k bs @ ys) = (True, k) \<and> k \<le> length bs"
    using k conts_prefix [of "more b - 1" 2 "tl cs" k ys] unfolding bs
    by (cases cs) (auto simp: take_Cons' split: if_splits)
  then show "utf8_step (take (snd (utf8_step bs)) bs @ ys) = utf8_step bs"
    and "snd (utf8_step bs) \<le> length bs"
    using k by simp_all
qed

lemma utf8_valid_append:
  assumes "utf8_step (p @ ys) = (True, length p)" and "p \<noteq> []"
  shows "utf8_valid (p @ ys) = utf8_valid ys"
  using assms utf8_valid.simps [of "p @ ys"] by simp

lemma utf8_lossy_valid: "utf8_valid (utf8_lossy bs)"
proof (induction bs rule: utf8_lossy.induct)
  case (1 bs)
  show ?case
  proof (cases "bs = []")
    case True
    then show ?thesis using utf8_valid.simps [of "[]"] utf8_lossy.simps [of "[]"] by simp
  next
    case False
    let ?n = "snd (utf8_step bs)" and ?rest = "utf8_lossy (drop (snd (utf8_step bs)) bs)"
    show ?thesis
    proof (cases "fst (utf8_step bs)")
      case True
      have "length (take ?n bs) = ?n" using utf8_step_prefix(2) [OF True False] by simp
      moreover have "utf8_step (take ?n bs @ ?rest) = (True, ?n)"
        using utf8_step_prefix(1) [OF True False] True by (cases "utf8_step bs") simp
      ultimately show ?thesis
        using utf8_valid_append [of "take ?n bs" ?rest] "1.IH" [OF False] True False utf8_step_pos [OF False]
        by (simp add: utf8_lossy.simps [of bs])
    next
      case invalid: False
      have "utf8_step ([0xEF, 0xBF, 0xBD] @ ?rest) = (True, 3)"
        by (simp add: second_ok_def is_cont_def more_def)
      then show ?thesis
        using utf8_valid_append [of "[0xEF, 0xBF, 0xBD]" ?rest] "1.IH" [OF False] invalid False
        by (simp add: utf8_lossy.simps [of bs])
    qed
  qed
qed

lemma utf8_lossy_id: "utf8_valid bs \<Longrightarrow> utf8_lossy bs = bs"
proof (induction bs rule: utf8_lossy.induct)
  case (1 bs)
  show ?case
  proof (cases "bs = []")
    case True
    then show ?thesis using utf8_lossy.simps [of "[]"] by simp
  next
    case False
    then have "fst (utf8_step bs)" "utf8_valid (drop (snd (utf8_step bs)) bs)"
      using "1.prems" utf8_valid.simps [of bs] by simp_all
    then show ?thesis using "1.IH" [OF False] False by (simp add: utf8_lossy.simps [of bs])
  qed
qed

lemma utf8_ascii: "\<forall>b \<in> set bs. b < 0x80 \<Longrightarrow> utf8_valid bs"
proof (induction bs)
  case (Cons b bs)
  then show ?case using utf8_valid_append [of "[b]" bs] by simp
qed (use utf8_valid.simps [of "[]"] in simp)

end
