(* ===== verification/Server.thy ===== *)
theory Server
  imports Precomputed Utf8
begin

text \<open>
  \<^verbatim>\<open>src/crates/mina-verify-server/src/lib.rs\<close>: the verify sidecar. A request carries what the HTTP
  library hands over: the method, the URL, and the body as the bytes the reader delivers followed by
  its end or an error. The process environment, the file system and the number of processors are the
  fields of \<open>os_env\<close>; the rendering of a JSON value and the sending of a response are those of
  \<open>http_env\<close>. A handler is the function from a request to the response it hands to the HTTP library
  and the warning it logs when that fails; the other log lines are left out.
\<close>

section \<open>Configuration\<close>

definition MAX_BODY_BYTES :: nat where
  "MAX_BODY_BYTES = 32 * 1024 * 1024"

definition DEFAULT_BIND :: string where
  "DEFAULT_BIND = ''0.0.0.0:8090''"

record os_env =
  env_var :: "string \<Rightarrow> string option"
  read_to_string :: "string \<Rightarrow> (string, string) result"
  available_parallelism :: "usize option"

definition env_or :: "os_env \<Rightarrow> string \<Rightarrow> string \<Rightarrow> string" where
  "env_or Os key dflt = (case env_var Os key of Some s \<Rightarrow> s | None \<Rightarrow> dflt)"

definition build_verifier ::
  "os_env \<Rightarrow> ('h, 'p, 'x, 'c::linorder) mina_env \<Rightarrow> 'g globals \<Rightarrow>
   (('c, 'x) verifier, string) result \<times> 'g globals" where
  "build_verifier Os E g =
     (case env_var Os ''MINA_VK_JSON'' of
        Some path \<Rightarrow>
          (case map_err (\<lambda>e. ''cannot read MINA_VK_JSON '' @ debug_str path @ '': '' @ e) (read_to_string Os path) of
             Inl e \<Rightarrow> (Err e, g)
           | Inr json \<Rightarrow> (let (r, g') = with_index_json E json g in (map_err verifier_error_text r, g')))
      | None \<Rightarrow>
          let net = env_or Os ''MINA_NETWORK'' ''devnet'';
              (r, g') = for_network_offline E net g
          in (map_err verifier_error_text r, g'))"

text \<open>\<^verbatim>\<open>str::parse\<close> at an unsigned 64-bit type: an optional plus sign and at least one digit, with a
  value that fits.\<close>

definition is_digit :: "char \<Rightarrow> bool" where
  "is_digit c \<longleftrightarrow> 48 \<le> (of_char c :: nat) \<and> (of_char c :: nat) \<le> 57"

definition digits_value :: "string \<Rightarrow> nat" where
  "digits_value = foldl (\<lambda>n c. 10 * n + (of_char c - 48)) 0"

definition parse_u64 :: "string \<Rightarrow> nat option" where
  "parse_u64 s =
     (let ds = (case s of [] \<Rightarrow> [] | c # cs \<Rightarrow> if c = CHR ''+'' then cs else s) in
      if ds = [] \<or> \<not> list_all is_digit ds then None
      else let n = digits_value ds in if n < 2 ^ 64 then Some n else None)"

definition worker_threads :: "os_env \<Rightarrow> usize" where
  "worker_threads Os =
     (case Option.bind (Option.bind (env_var Os ''VERIFY_THREADS'') parse_u64)
             (\<lambda>n. if 0 < n then Some n else None) of
        Some n \<Rightarrow> n
      | None \<Rightarrow> (case available_parallelism Os of Some n \<Rightarrow> n | None \<Rightarrow> 4))"

section \<open>Requests\<close>

datatype http_method = Get | Post | OtherMethod string

record 'h hash_text =
  state_hash_text :: "'h \<Rightarrow> string"
  ledger_hash_text :: "'h \<Rightarrow> string"

definition verify_body ::
  "('h, 'p, 'x, 'c) mina_env \<Rightarrow> ('h, 'p, 'x) json_env \<Rightarrow> 'h hash_text \<Rightarrow> ('c, 'x) verifier \<Rightarrow> string \<Rightarrow>
   (u16 \<times> json) panics" where
  "verify_body E J T v body =
     map_option
       (\<lambda>r. case r of
          Inr vb \<Rightarrow>
            (200, JObject
              [(''valid'', JBool True),
               (''height'', JNumber (show_nat (unat (vb_height vb)))),
               (''state_hash'', JString (state_hash_text T (vb_state_hash vb))),
               (''previous_state_hash'', JString (state_hash_text T (vb_previous_state_hash vb))),
               (''staged_ledger_hash'', JString (ledger_hash_text T (vb_staged_ledger_hash vb)))])
        | Inl ProofInvalid \<Rightarrow>
            (200, JObject [(''valid'', JBool False), (''error'', JString ''block proof did not verify'')])
        | Inl e \<Rightarrow>
            (400, JObject [(''valid'', JBool False), (''error'', JString (verifier_error_text e))]))
       (verify_precomputed_and_extract E J v body)"

definition dispatch ::
  "('h, 'p, 'x, 'c) mina_env \<Rightarrow> ('h, 'p, 'x) json_env \<Rightarrow> 'h hash_text \<Rightarrow> ('c, 'x) verifier \<Rightarrow>
   http_method \<Rightarrow> string \<Rightarrow> string \<Rightarrow> u16 \<times> json" where
  "dispatch E J T v meth path body =
     (if meth = Get \<and> path = ''/health'' then
        (200, JObject [(''status'', JString ''ok''), (''network'', JString (network v))])
      else if meth = Post \<and> path = ''/verify'' then
        (case verify_body E J T v body of
           Some r \<Rightarrow> r
         | None \<Rightarrow>
             (500, JObject [(''valid'', JBool False), (''error'', JString ''internal verifier error'')]))
      else
        (404, JObject [(''error'', JString ''not found; use GET /health or POST /verify'')]))"

record request =
  rq_method :: http_method
  rq_url :: string
  rq_body :: bytes
  rq_body_error :: "string option"

text \<open>\<^verbatim>\<open>as_reader().take(limit).read_to_end()\<close>: at most \<open>limit\<close> bytes are read, and an error that
  would come after them is never seen.\<close>

definition read_capped :: "nat \<Rightarrow> request \<Rightarrow> (bytes, string) result" where
  "read_capped limit req =
     (if limit \<le> length (rq_body req) then Ok (take limit (rq_body req))
      else case rq_body_error req of None \<Rightarrow> Ok (rq_body req) | Some e \<Rightarrow> Err e)"

definition string_of_bytes :: "bytes \<Rightarrow> string" where
  "string_of_bytes bs = map (\<lambda>b. char_of (unat b)) bs"

definition from_utf8_lossy :: "bytes \<Rightarrow> string" where
  "from_utf8_lossy bs = string_of_bytes (utf8_lossy bs)"

text \<open>A response as the code builds it: the status, the headers it sets, and the text.\<close>

record http_response =
  rs_status :: u16
  rs_headers :: "(string \<times> string) list"
  rs_text :: string

record http_env =
  json_text :: "json \<Rightarrow> string"
  send_response :: "request \<Rightarrow> http_response \<Rightarrow> (unit, string) result"

definition json_header :: "string \<times> string" where
  "json_header = (''Content-Type'', ''application/json'')"

text \<open>The response handed to the library, and the warnings logged.\<close>

definition respond :: "http_env \<Rightarrow> request \<Rightarrow> u16 \<Rightarrow> json \<Rightarrow> http_response \<times> string list" where
  "respond H req status body =
     (let response = \<lparr>rs_status = status, rs_headers = [json_header], rs_text = json_text H body\<rparr>
      in (response,
          case send_response H req response of
            Inl e \<Rightarrow> [''failed to send response: '' @ e]
          | Inr _ \<Rightarrow> []))"

definition handle ::
  "('h, 'p, 'x, 'c) mina_env \<Rightarrow> ('h, 'p, 'x) json_env \<Rightarrow> 'h hash_text \<Rightarrow> http_env \<Rightarrow> ('c, 'x) verifier \<Rightarrow>
   request \<Rightarrow> http_response \<times> string list" where
  "handle E J T H v req =
     (let path = takeWhile (\<lambda>c. c \<noteq> CHR ''?'') (rq_url req) in
      case read_capped MAX_BODY_BYTES req of
        Inl e \<Rightarrow>
          respond H req 400 (JObject [(''valid'', JBool False), (''error'', JString (''reading body: '' @ e))])
      | Inr bs \<Rightarrow>
          let (status, json) = dispatch E J T v (rq_method req) path (from_utf8_lossy bs)
          in respond H req status json)"

text \<open>Start-up: the verifier is built once; failing that, the process exits with code 2, and so it does
  when the address cannot be bound. Otherwise the workers of the theory \<open>ServerPool\<close> are spawned.\<close>

record ('c, 'x) server =
  sv_verifier :: "('c, 'x) verifier"
  sv_bind :: string
  sv_threads :: usize

definition serve_bind ::
  "(string \<Rightarrow> (unit, string) result) \<Rightarrow> ('c, 'x) verifier \<Rightarrow> string \<Rightarrow> usize \<Rightarrow> (('c, 'x) server, string) result" where
  "serve_bind http_bind v addr threads =
     and_then (map_err (\<lambda>e. ''cannot bind '' @ addr @ '': '' @ e) (http_bind addr))
       (\<lambda>_. Ok \<lparr>sv_verifier = v, sv_bind = addr, sv_threads = threads\<rparr>)"

definition run_server ::
  "os_env \<Rightarrow> (string \<Rightarrow> (unit, string) result) \<Rightarrow> ('h, 'p, 'x, 'c::linorder) mina_env \<Rightarrow> 'g globals \<Rightarrow>
   (('c, 'x) server, nat \<times> string) result" where
  "run_server Os http_bind E g =
     and_then (map_err (\<lambda>e. (2, ''error: '' @ e)) (fst (build_verifier Os E g))) (\<lambda>v.
       let addr = env_or Os ''BIND'' DEFAULT_BIND;
           threads = worker_threads Os
       in map_err (\<lambda>e. (2, ''error: '' @ e)) (serve_bind http_bind v addr threads))"

section \<open>Lemmas\<close>

lemma fst_respond [simp]:
  "fst (respond H req st js) = \<lparr>rs_status = st, rs_headers = [json_header], rs_text = json_text H js\<rparr>"
  by (simp add: respond_def Let_def)

lemma parse_u64_bound: "parse_u64 s = Some n \<Longrightarrow> n < 2 ^ 64"
  by (auto simp: parse_u64_def Let_def split: if_splits)

lemma digits_value_append: "digits_value (ds @ [c]) = 10 * digits_value ds + (of_char c - 48)"
  by (simp add: digits_value_def)

lemma show_nat_digits: "show_nat n \<noteq> [] \<and> list_all is_digit (show_nat n) \<and> digits_value (show_nat n) = n"
proof (induction n rule: show_nat.induct)
  case (1 n)
  have d: "is_digit (char_of (48 + k))" "of_char (char_of (48 + k) :: char) = 48 + k" if "k < 10" for k :: nat
    using that by (simp_all add: is_digit_def of_char_of)
  show ?case
  proof (cases "n < 10")
    case True
    then show ?thesis using d [of n] by (simp add: show_nat.simps [of n] digits_value_def)
  next
    case False
    then show ?thesis
      using "1.IH" d [of "n mod 10"] by (simp add: show_nat.simps [of n] digits_value_append)
  qed
qed

lemma parse_show: "n < 2 ^ 64 \<Longrightarrow> parse_u64 (show_nat n) = Some n"
proof -
  assume n: "n < 2 ^ 64"
  obtain c cs where s: "show_nat n = c # cs" using show_nat_digits [of n] by (cases "show_nat n") auto
  have "is_digit c" using show_nat_digits [of n] s by simp
  then have "c \<noteq> CHR ''+''" by (auto simp: is_digit_def)
  then show ?thesis using n show_nat_digits [of n] s by (simp add: parse_u64_def)
qed

end
