(* ===== verification/PrecomputedTests.thy ===== *)
theory PrecomputedTests
  imports Server
begin

text \<open>
  The unit tests inside \<^verbatim>\<open>precomputed.rs\<close>. A test is the conjunction of its assertions, with everything
  it unwraps; the fixture and the rendering of a JSON value are parameters. The theorem shows them for
  every fixture that decodes and every JSON library that parses what it renders.
\<close>

section \<open>The tests\<close>

definition fixture_json :: "(string \<Rightarrow> (bytes, string) result) \<Rightarrow> string \<Rightarrow> string panics" where
  "fixture_json read_file path = map_option from_utf8_lossy (result_ok (read_file path))"

definition height :: "('h, 'p, 'x) header \<Rightarrow> u32" where
  "height h = blockchain_length (header_consensus h)"

definition decodes_to :: "('h, 'p, 'x) json_env \<Rightarrow> u32 \<Rightarrow> string \<Rightarrow> bool" where
  "decodes_to J n json =
     (case header_from_precomputed J json of Inl _ \<Rightarrow> False | Inr header \<Rightarrow> height header = n)"

definition decodes_a_real_precomputed_block :: "('h, 'p, 'x) json_env \<Rightarrow> u32 \<Rightarrow> string \<Rightarrow> bool" where
  "decodes_a_real_precomputed_block J n fixture = decodes_to J n fixture"

definition accepts_a_bare_block_without_the_data_envelope ::
  "('h, 'p, 'x) json_env \<Rightarrow> (json \<Rightarrow> string) \<Rightarrow> u32 \<Rightarrow> string \<Rightarrow> bool" where
  "accepts_a_bare_block_without_the_data_envelope J to_string n fixture =
     (case json_from_str J fixture of
        Inl _ \<Rightarrow> False
      | Inr v \<Rightarrow>
          (case json_get v ''data'' of None \<Rightarrow> False | Some data \<Rightarrow> decodes_to J n (to_string data)))"

definition rejects_non_json :: "('h, 'p, 'x) json_env \<Rightarrow> bool" where
  "rejects_non_json J =
     (case header_from_precomputed J ''this is not json'' of Inl (InvalidIndexJson _) \<Rightarrow> True | _ \<Rightarrow> False)"

text \<open>\<^verbatim>\<open>str::contains\<close>.\<close>

fun contains :: "string \<Rightarrow> string \<Rightarrow> bool" where
  "contains [] pat \<longleftrightarrow> pat = []"
| "contains (c # s) pat \<longleftrightarrow> take (length pat) (c # s) = pat \<or> contains s pat"

definition rejects_mentioning :: "('h, 'p, 'x) json_env \<Rightarrow> string \<Rightarrow> string \<Rightarrow> bool" where
  "rejects_mentioning J json name =
     (case header_from_precomputed J json of Inl (InvalidIndexJson m) \<Rightarrow> contains m name | _ \<Rightarrow> False)"

definition rejects_missing_protocol_state :: "('h, 'p, 'x) json_env \<Rightarrow> bool" where
  "rejects_missing_protocol_state J = rejects_mentioning J ''{}'' ''protocol_state''"

text \<open>Changing the object under \<^verbatim>\<open>data\<close>: \<^verbatim>\<open>v["data"].as_object_mut().unwrap()\<close> fails unless it is an object.
  (The assignment in the last test also takes a null there, which no fixture that decodes has.)\<close>

fun with_data :: "((string \<times> json) list \<Rightarrow> (string \<times> json) list) \<Rightarrow> json \<Rightarrow> json panics" where
  "with_data f (JObject kvs) =
     (case map_of kvs ''data'' of
        Some (JObject ds) \<Rightarrow>
          Some (JObject (map (\<lambda>(k, x). if k = ''data'' then (k, JObject (f ds)) else (k, x)) kvs))
      | _ \<Rightarrow> None)"
| "with_data f _ = None"

definition changed_fixture ::
  "('h, 'p, 'x) json_env \<Rightarrow> (json \<Rightarrow> string) \<Rightarrow> ((string \<times> json) list \<Rightarrow> (string \<times> json) list) \<Rightarrow> string \<Rightarrow>
   string panics" where
  "changed_fixture J to_string f fixture =
     map_option to_string (Option.bind (result_ok (json_from_str J fixture)) (with_data f))"

definition rejects_missing_proof :: "('h, 'p, 'x) json_env \<Rightarrow> (json \<Rightarrow> string) \<Rightarrow> string \<Rightarrow> bool" where
  "rejects_missing_proof J to_string fixture =
     (case changed_fixture J to_string (filter (\<lambda>(k, _). k \<noteq> ''protocol_state_proof'')) fixture of
        None \<Rightarrow> False
      | Some json \<Rightarrow> rejects_mentioning J json ''protocol_state_proof'')"

definition rejects_non_base64_proof :: "('h, 'p, 'x) json_env \<Rightarrow> (json \<Rightarrow> string) \<Rightarrow> string \<Rightarrow> bool" where
  "rejects_non_base64_proof J to_string fixture =
     (case changed_fixture J to_string (AList.update ''protocol_state_proof'' (JString ''!!! not base64 !!!'')) fixture of
        None \<Rightarrow> False
      | Some json \<Rightarrow>
          (case header_from_precomputed J json of Inl (InvalidIndexJson _) \<Rightarrow> True | _ \<Rightarrow> False))"

section \<open>The tests hold\<close>

text \<open>What the tests rely on of the JSON and base64 libraries.\<close>

definition json_laws :: "('h, 'p, 'x) json_env \<Rightarrow> (json \<Rightarrow> string) \<Rightarrow> bool" where
  "json_laws J to_string \<longleftrightarrow>
     (\<forall>v. json_from_str J (to_string v) = Ok v) \<and> json_from_str J ''{}'' = Ok (JObject []) \<and>
     \<not> is_ok (json_from_str J ''this is not json'') \<and> (\<forall>s. string_from_value J (JString s) = Ok s) \<and>
     \<not> is_ok (base64_decode J ''!!! not base64 !!!'')"

lemma contains_infix: "contains (a @ pat @ b) pat"
proof (induction a)
  case Nil
  have "take (length pat) (pat @ b) = pat" by simp
  then show ?case by (cases "pat @ b") (auto simp del: append_eq_conv_conj)
next
  case (Cons c a)
  then show ?case by simp
qed

lemma missing_field_mentioned:
  "contains (''precomputed block missing '' @ backtick @ name @ backtick) name"
  using contains_infix [of "''precomputed block missing '' @ backtick" name backtick] by (simp add: append_assoc)

lemma with_data_object:
  assumes "json_get v ''data'' = Some (JObject ds)"
  obtains v' where "with_data f v = Some v'" and "json_get v' ''data'' = Some (JObject (f ds))"
proof (cases v)
  case (JObject kvs)
  have "map_of kvs ''data'' = Some (JObject ds) \<Longrightarrow>
      map_of (map (\<lambda>(k, x). if k = ''data'' then (k, JObject (f ds)) else (k, x)) kvs) ''data'' = Some (JObject (f ds))"
    by (induction kvs) (auto split: if_splits)
  then show ?thesis using that assms JObject by simp
qed (use assms in auto)

lemma changed_fixture_parses:
  assumes laws: "json_laws J to_string" and "json_from_str J fixture = Ok v"
    and "json_get v ''data'' = Some (JObject ds)"
  obtains json v' where "changed_fixture J to_string f fixture = Some json" and "json_from_str J json = Ok v'"
    and "block_object v' = JObject (f ds)"
proof -
  obtain v' where v': "with_data f v = Some v'" "json_get v' ''data'' = Some (JObject (f ds))"
    using with_data_object [OF assms(3)] by blast
  show ?thesis
    by (rule that [of "to_string v'" v'])
      (use assms(1,2) v' in \<open>simp_all add: changed_fixture_def json_laws_def block_object_def\<close>)
qed

lemma header_missing_field:
  assumes "json_from_str J json = Ok v" and "json_get (block_object v) ''protocol_state'' = Some j"
    and "state_from_value J j = Ok ps" and "json_get (block_object v) ''protocol_state_proof'' = None"
  shows "rejects_mentioning J json ''protocol_state_proof''"
  using assms missing_field_mentioned [of "''protocol_state_proof''"]
  by (simp add: rejects_mentioning_def header_from_precomputed_def precomputed_field_def block_object_def Let_def)

theorem precomputed_tests_hold:
  assumes laws: "json_laws J to_string" and fixture: "header_from_precomputed J fixture = Ok h"
    and v: "json_from_str J fixture = Ok v" and data: "json_get v ''data'' = Some (JObject ds)"
    and bare: "map_of ds ''data'' = None"
  shows "decodes_a_real_precomputed_block J (height h) fixture \<and>
    accepts_a_bare_block_without_the_data_envelope J to_string (height h) fixture \<and>
    rejects_non_json J \<and> rejects_missing_protocol_state J \<and> rejects_missing_proof J to_string fixture \<and>
    rejects_non_base64_proof J to_string fixture"
proof (intro conjI)
  obtain j ps where ps: "map_of ds ''protocol_state'' = Some j" "state_from_value J j = Ok ps"
    using fixture v data by (auto simp: header_from_precomputed_Ok_iff block_object_def)
  show "decodes_a_real_precomputed_block J (height h) fixture"
    using fixture by (simp add: decodes_a_real_precomputed_block_def decodes_to_def)
  have "block_object (JObject ds) = JObject ds" unfolding block_object_def json_get.simps bare by simp
  moreover have "block_object v = JObject ds" using data by (simp add: block_object_def)
  ultimately have "header_from_precomputed J (to_string (JObject ds)) = header_from_precomputed J fixture"
    using laws by (intro header_from_precomputed_cong [OF _ v]) (simp_all add: json_laws_def)
  then show "accepts_a_bare_block_without_the_data_envelope J to_string (height h) fixture"
    using fixture v data by (simp add: accepts_a_bare_block_without_the_data_envelope_def decodes_to_def)
  show "rejects_non_json J"
    using laws by (auto simp: json_laws_def rejects_non_json_def header_from_precomputed_def not_ok_iff invalid_def)
  show "rejects_missing_protocol_state J"
    using laws missing_field_mentioned [of "''protocol_state''"]
    by (simp add: json_laws_def rejects_missing_protocol_state_def rejects_mentioning_def
        header_from_precomputed_def precomputed_field_def Let_def)
  obtain json v' where "changed_fixture J to_string (filter (\<lambda>(k, _). k \<noteq> ''protocol_state_proof'')) fixture = Some json"
    "json_from_str J json = Ok v'"
    "block_object v' = JObject (filter (\<lambda>(k, _). k \<noteq> ''protocol_state_proof'') ds)"
    using changed_fixture_parses [OF laws v data] by blast
  moreover have "map_of (filter (\<lambda>(k, _). k \<noteq> ''protocol_state_proof'') ds) k =
      (if k = ''protocol_state_proof'' then None else map_of ds k)" for k
    by (induction ds) auto
  ultimately show "rejects_missing_proof J to_string fixture"
    using ps header_missing_field [of J json v' j ps] by (simp add: rejects_missing_proof_def)
  obtain json v' where "changed_fixture J to_string
      (AList.update ''protocol_state_proof'' (JString ''!!! not base64 !!!'')) fixture = Some json"
    "json_from_str J json = Ok v'"
    "block_object v' = JObject (AList.update ''protocol_state_proof'' (JString ''!!! not base64 !!!'') ds)"
    using changed_fixture_parses [OF laws v data] by blast
  then show "rejects_non_base64_proof J to_string fixture"
    using ps laws
    by (auto simp: rejects_non_base64_proof_def header_from_precomputed_def precomputed_field_def block_object_def
        json_laws_def update_conv' not_ok_iff invalid_def Let_def)
qed

end
