(* ===== verification/VerifierCorrect.thy ===== *)
theory VerifierCorrect
  imports ForkChoice Samples
begin

text \<open>
  The properties of building verifiers and of the fork choice between tips,
  each with a witness.
\<close>

section \<open>Sample environments\<close>

text \<open>A configuration that is set once, as the network configuration is; an index parser that knows
  three texts; a proof checker that reads the proof bit and panics at height 99.\<close>

definition sample_netcfg :: "string option netcfg_env" where
  "sample_netcfg =
     \<lparr>nc_init = (\<lambda>c n. case c of None \<Rightarrow> (True, Some n) | Some a \<Rightarrow> (False, c)),
      nc_global = (\<lambda>c. case c of None \<Rightarrow> (''devnet'', Some ''devnet'') | Some a \<Rightarrow> (a, c))\<rparr>"

definition sample_index :: "(nat, unit) verifier_index" where
  "sample_index =
     \<lparr>domain = (), max_poly_size = 4, zk_rows = 3, vi_commitments = (), srs = (),
      permutation_vanishing_polynomial_m = (), vi_w = (), endo = (),
      linearization = \<lparr>constant_term = (), index_terms = []\<rparr>, powers_of_alpha = ()\<rparr>"

definition sample_kimchi :: "(nat, unit) kimchi_env" where
  "sample_kimchi =
     \<lparr>parse_index = (\<lambda>s. if s \<in> {''devnet-key'', ''mainnet-key''} then Ok sample_index else Err ''bad''),
      endos = ((), ()),
      expr_linearization = (\<lambda>_ _. (\<lparr>constant_term = (), index_terms = [(2, ()), (1, ())]\<rparr>, ())),
      srs_create = (\<lambda>_. ()), with_lagrange_basis = (\<lambda>_ _. ()),
      permutation_vanishing_polynomial = (\<lambda>_ _. ()), zk_w = (\<lambda>_ _. ())\<rparr>"

definition sample_env :: "(nat, bool, unit, nat) mina_env" where
  "sample_env =
     \<lparr>kimchi = sample_kimchi, get_srs = (),
      verify_block_proof = (\<lambda>h _ _.
        if blockchain_length (header_consensus h) = 99 then None else Some (protocol_state_proof h)),
      block_verifier_make = Some sample_index,
      header_try_hash = (\<lambda>h. Ok (10 * unat (blockchain_length (header_consensus h)))),
      block_try_hash = (\<lambda>b. Ok (10 * unat (blockchain_length (header_consensus (block_header b))))),
      devnet_index_json = ''devnet-key'', mainnet_index_json = ''mainnet-key'',
      target_family = Native, temp_dir = ''/var/tmp''\<rparr>"

definition sample_globals :: "string option globals" where
  "sample_globals = \<lparr>workdir = None, netcfg = None\<rparr>"

definition sample_verifier :: "(nat, unit) verifier" where
  "sample_verifier = \<lparr>network = ''devnet'', index = sample_index\<rparr>"

definition sample_wire :: "(nat, bool, unit) wire_env" where
  "sample_wire =
     \<lparr>gossip_read = (\<lambda>bs. case bs of [] \<Rightarrow> Err ''eof'' | b # rest \<Rightarrow>
        if b = 0 then Ok (NewState (sample_block True 10 2), rest) else Ok (OtherMessage (), rest)),
      block_read = (\<lambda>bs. case bs of [] \<Rightarrow> Err ''eof'' | b # rest \<Rightarrow> Ok (sample_block True 10 2, rest)),
      block_write = (\<lambda>_. [0])\<rparr>"

lemma sample_netcfg_laws: "netcfg_laws sample_netcfg (\<lambda>c. c)"
  by (simp add: netcfg_laws_def sample_netcfg_def split: option.split)

section \<open>Building verifiers\<close>

text \<open>C16. One network and one work directory per process: in whatever order a process builds verifiers,
  with \<^verbatim>\<open>for_network\<close>, from an embedded key or from a supplied key, all the \<^verbatim>\<open>for_network\<close> calls that
  succeed name the same network, and each returned verifier carries it; the work directory is then the
  one set before, or else the default of the platform, whatever came in between.\<close>

theorem one_network_per_process:
  assumes laws: "netcfg_laws N cfg"
    and "(ForNetwork n1, Ok v1) \<in> set (fst (builds N E bs g))"
    and "(ForNetwork n2, Ok v2) \<in> set (fst (builds N E bs g))"
  shows "n1 = n2 \<and> network v1 = n1 \<and> network v2 = n2 \<and>
    workdir (snd (builds N E bs g)) = Some (case workdir g of None \<Rightarrow> default_work_dir E | Some d \<Rightarrow> d)"
proof -
  have "\<exists>a. \<forall>n v. (ForNetwork n, Ok v) \<in> set (fst (builds N E bs g)) \<longrightarrow> n = a \<and> network v = a"
    by (rule builds_one_network [OF laws])
  then show ?thesis using assms(2,3) builds_workdir [OF assms(2)] by blast
qed

theorem one_network_per_process_witness:
  "fst (builds sample_netcfg sample_env [ForNetwork ''mainnet'', ForNetwork ''mainnet''] sample_globals) =
     [(ForNetwork ''mainnet'', Ok \<lparr>network = ''mainnet'', index = finalize sample_kimchi sample_index\<rparr>),
      (ForNetwork ''mainnet'', Ok \<lparr>network = ''mainnet'', index = finalize sample_kimchi sample_index\<rparr>)] \<and>
   network \<lparr>network = ''mainnet'', index = finalize sample_kimchi sample_index\<rparr> = ''mainnet''"
proof -
  have run: "fst (builds sample_netcfg sample_env [ForNetwork ''mainnet'', ForNetwork ''mainnet''] sample_globals) =
     [(ForNetwork ''mainnet'', Ok \<lparr>network = ''mainnet'', index = finalize sample_kimchi sample_index\<rparr>),
      (ForNetwork ''mainnet'', Ok \<lparr>network = ''mainnet'', index = finalize sample_kimchi sample_index\<rparr>)]"
    by (simp add: for_network_def sample_netcfg_def sample_globals_def with_index_json_def sample_env_def
        verifier_index_from_json_def sample_kimchi_def workdir_call_once_def)
  show ?thesis
    using run one_network_per_process [OF sample_netcfg_laws, of "''mainnet''" _ sample_env
        "[ForNetwork ''mainnet'', ForNetwork ''mainnet'']" sample_globals "''mainnet''"]
    by fastforce
qed

text \<open>C33. What \<^verbatim>\<open>for_network\<close> returns: \<^verbatim>\<open>UnknownNetwork\<close> for an unsupported name, without touching
  the process state; \<^verbatim>\<open>NetworkAlreadyInitialized\<close> naming both networks when another one is active;
  otherwise the verifier for the network's own key, or the error in loading that key. The process
  is on the requested network afterwards exactly in the last case. The mainnet key is loaded from the
  embedded JSON, so for mainnet the error is \<^verbatim>\<open>InvalidIndexJson\<close> and never, as the README has it,
  \<^verbatim>\<open>VerificationKeyUnavailable\<close>.\<close>

theorem for_network_result:
  assumes laws: "netcfg_laws N cfg" and run: "for_network N E net g = (r, g')"
  shows "(if net \<notin> set SUPPORTED_NETWORKS then r = Err (UnknownNetwork net) \<and> g' = g
    else case cfg (netcfg g) of
        None \<Rightarrow> r = and_then (network_key E net) (\<lambda>i. Ok \<lparr>network = net, index = i\<rparr>) \<and>
          cfg (netcfg g') = Some net
      | Some a \<Rightarrow> cfg (netcfg g') = Some a \<and>
          r = (if a = net then and_then (network_key E net) (\<lambda>i. Ok \<lparr>network = net, index = i\<rparr>)
               else Err (NetworkAlreadyInitialized a net))) \<and>
    (net = ''mainnet'' \<longrightarrow> r \<noteq> Err (VerificationKeyUnavailable n))"
  using laws run by (cases rule: for_network_outcome) (auto simp: network_key_def result_simps)

theorem for_network_result_witness:
  "\<exists>g'. for_network sample_netcfg sample_env ''devnet'' (sample_globals\<lparr>netcfg := Some ''mainnet''\<rparr>) =
     (Err (NetworkAlreadyInitialized ''mainnet'' ''devnet''), g')"
proof -
  obtain r g' where run:
    "for_network sample_netcfg sample_env ''devnet'' (sample_globals\<lparr>netcfg := Some ''mainnet''\<rparr>) = (r, g')"
    by (cases "for_network sample_netcfg sample_env ''devnet'' (sample_globals\<lparr>netcfg := Some ''mainnet''\<rparr>)")
  then show ?thesis using for_network_result [OF sample_netcfg_laws run] by (simp add: SUPPORTED_NETWORKS_def)
qed

text \<open>C34. As long as no other network is active in the process, the two ways of building agree: for mainnet on every target, and for every supported network
  on wasm, \<^verbatim>\<open>for_network\<close> returns what \<^verbatim>\<open>for_network_offline\<close> returns, and the offline way leaves
  the process-wide network configuration alone. (With another network active, \<^verbatim>\<open>for_network\<close> returns
  \<^verbatim>\<open>NetworkAlreadyInitialized\<close> instead.)\<close>

theorem offline_agrees:
  assumes laws: "netcfg_laws N cfg" and "net \<in> set SUPPORTED_NETWORKS" and "net = ''mainnet'' \<or> target_family E = Wasm"
    and "cfg (netcfg g) \<in> {None, Some net}"
  shows "fst (for_network N E net g) = fst (for_network_offline E net g) \<and>
    netcfg (snd (for_network_offline E net g)) = netcfg g"
proof -
  obtain r g' where run: "for_network N E net g = (r, g')" by (cases "for_network N E net g")
  have "r = and_then (network_key E net) (\<lambda>i. Ok \<lparr>network = net, index = i\<rparr>)"
    using laws run by (cases rule: for_network_outcome) (use assms in auto)
  then show ?thesis using run assms(2,3) offline_key [of net E g] by auto
qed

theorem offline_agrees_witness:
  "fst (for_network sample_netcfg sample_env ''mainnet'' sample_globals) =
   fst (for_network_offline sample_env ''mainnet'' sample_globals)"
  using offline_agrees [OF sample_netcfg_laws, of "''mainnet''" sample_env sample_globals]
  by (simp add: SUPPORTED_NETWORKS_def sample_globals_def)

text \<open>C36. Finalizing a verifier index recomputes everything derived: whatever a supplied JSON claims
  for the SRS, the permutation polynomial, the root of unity, the endomorphism, the linearization and
  the powers of alpha is overwritten; finalizing twice changes nothing; the linearization's terms are
  kimchi's own, sorted by column.\<close>

theorem finalize_recomputes:
  "finalize K (i\<lparr>srs := s, permutation_vanishing_polynomial_m := m, vi_w := w, endo := e,
       linearization := l, powers_of_alpha := p\<rparr>) = finalize K i \<and>
   finalize K (finalize K i) = finalize K i \<and>
   sorted (map fst (index_terms (linearization (finalize K i)))) \<and>
   mset (index_terms (linearization (finalize K i))) =
     mset (index_terms (fst (expr_linearization K (Some no_features) True)))"
proof -
  have "finalize K (i\<lparr>srs := s, permutation_vanishing_polynomial_m := m, vi_w := w, endo := e,
       linearization := l, powers_of_alpha := p\<rparr>) = finalize K i"
    by (rule finalize_cong) simp_all
  moreover have "finalize K (finalize K i) = finalize K i" by (rule finalize_cong) simp_all
  ultimately show ?thesis using finalize_index_terms [of K i] by blast
qed

section \<open>Fork choice\<close>

text \<open>C35. Where the Samasika rule is a strict order on the given tips, \<^verbatim>\<open>select_canonical\<close> returns the
  index of a tip that no given tip is preferred to; it returns none exactly for no tips.\<close>

theorem select_canonical_unbeaten:
  assumes strict: "strict_on C (set tips)"
  shows "case select_canonical C tips of
      None \<Rightarrow> tips = []
    | Some w \<Rightarrow> w < length tips \<and> (\<forall>t \<in> set tips. \<not> prefers_candidate C (tips ! w) t)"
proof (cases "tips = []")
  case True
  then show ?thesis by (simp add: select_canonical_def)
next
  case False
  then have "\<not> prefers_candidate C (tips ! foldl (select_step C tips) 0 [1..<length tips]) t" if "t \<in> set tips" for t
    using select_loop_unbeaten [OF strict, of "length tips"] that
    by (metis in_set_conv_nth length_greater_0_conv order_refl)
  then show ?thesis
    using False select_canonical_bound [of C tips] by (simp add: select_canonical_def)
qed

theorem select_canonical_unbeaten_witness:
  "select_canonical sample_consensus sample_tips = Some 3 \<and>
   list_all (\<lambda>t. \<not> prefers_candidate sample_consensus (sample_tips ! 3) t) sample_tips"
proof -
  have run: "select_canonical sample_consensus sample_tips = Some 3" by code_simp
  have "strict_on sample_consensus (set sample_tips)"
    by (auto simp: strict_on_def prefers_candidate_def sample_consensus_def)
  from select_canonical_unbeaten [OF this] show ?thesis using run by (simp add: list_all_iff)
qed

text \<open>Comparing two tips: they are the same exactly when their state hashes are equal, and for
  different tips \<^verbatim>\<open>canonical_is_b\<close> says whether the pair's own winner, in the sense of
  \<^verbatim>\<open>select_canonical\<close>, is the second one.\<close>

theorem compare_tips_selects:
  "compare_tips C a b =
     (if tip_state_hash a = tip_state_hash b then Same
      else Diverged (select_canonical C [a, b] = Some 1)
             (if core_is_short_range_fork C (tip_consensus_state a) (tip_consensus_state b) then Short else Long))"
  by (simp add: compare_tips_def select_canonical_def select_step_def is_short_range_fork_def)

end
