(* ===== verification/ServerCorrect.thy ===== *)
theory ServerCorrect
  imports Server VerifierCorrect
begin

text \<open>
  The properties of precomputed blocks, of the verify-before-ingest gates and of the server, each
  with a witness.
\<close>

section \<open>Samples\<close>

text \<open>A JSON environment in which the text of a block is its height followed by its proof bit, as two
  characters; an empty text is malformed.\<close>

definition sample_block_json :: "nat \<Rightarrow> bool \<Rightarrow> json" where
  "sample_block_json n pf =
     JObject [(''protocol_state'', JNumber [char_of n]),
              (''protocol_state_proof'', JString (if pf then ''t'' else ''f''))]"

definition sample_json_env :: "(nat, bool, unit) json_env" where
  "sample_json_env =
     \<lparr>json_from_str = (\<lambda>s. case s of
          [c] \<Rightarrow> Ok (sample_block_json (of_char c) True)
        | [c, d] \<Rightarrow> Ok (sample_block_json (of_char c) False)
        | [c, d, e] \<Rightarrow> Ok (JObject [(''data'', sample_block_json (of_char c) True)])
        | _ \<Rightarrow> Err ''malformed''),
      state_from_value = (\<lambda>j. case j of
          JNumber [c] \<Rightarrow> Ok (sample_state 10 (of_nat (of_char c)) 7) | _ \<Rightarrow> Err ''no state''),
      string_from_value = (\<lambda>j. case j of JString s \<Rightarrow> Ok s | _ \<Rightarrow> Err ''no string''),
      base64_decode = (\<lambda>s. Ok (if s = ''t'' then [1] else [0])),
      proof_read = (\<lambda>bs. case bs of [] \<Rightarrow> Err ''eof'' | b # rest \<Rightarrow> Ok (b = 1, rest))\<rparr>"

definition sample_text :: "nat hash_text" where
  "sample_text = \<lparr>state_hash_text = show_nat, ledger_hash_text = show_nat\<rparr>"

section \<open>Precomputed blocks\<close>

text \<open>A precomputed block is decoded the same in its \<^verbatim>\<open>{ "version", "data" }\<close> envelope and bare: a
  text whose value has the block object under \<^verbatim>\<open>data\<close> and a text whose value is that object decode to
  the same header or the same error, provided the block object has no \<^verbatim>\<open>data\<close> field of its own; other
  fields of the envelope do not matter.\<close>

theorem envelope_transparent:
  assumes "json_from_str J enveloped = Ok v" and "json_get v ''data'' = Some d"
    and "json_from_str J bare = Ok d" and "json_get d ''data'' = None"
  shows "header_from_precomputed J enveloped = header_from_precomputed J bare"
  using assms by (intro header_from_precomputed_cong [OF assms(1) assms(3)]) (simp add: block_object_def)

section \<open>The server\<close>

text \<open>C17. The answer of \<^verbatim>\<open>POST /verify\<close> to an untrusted body: \<^verbatim>\<open>valid\<close> is true exactly when the body
  decodes, its proof verifies and its hash is computed; status 500 exactly when the proof checker
  panicked; status 200 with \<^verbatim>\<open>valid\<close> false exactly when the proof was rejected; status 400 in all other
  cases. There is always an answer.\<close>

theorem verify_endpoint:
  assumes "dispatch E J T v Post ''/verify'' body = (st, js)"
  shows "(json_get js ''valid'' = Some (JBool True) \<longleftrightarrow>
      (\<exists>h vb. header_from_precomputed J body = Ok h \<and> verify_header E v h = Some True \<and> from_header E h = Ok vb)) \<and>
    (st = 500 \<longleftrightarrow> (\<exists>h. header_from_precomputed J body = Ok h \<and> verify_header E v h = None)) \<and>
    (st = 200 \<and> json_get js ''valid'' = Some (JBool False) \<longleftrightarrow>
      (\<exists>h. header_from_precomputed J body = Ok h \<and> verify_header E v h = Some False)) \<and>
    (st = 400 \<longleftrightarrow> (\<exists>e. header_from_precomputed J body = Err e) \<or>
      (\<exists>h e. header_from_precomputed J body = Ok h \<and> verify_header E v h = Some True \<and> from_header E h = Err e))"
proof (cases "header_from_precomputed J body")
  case (Inl e)
  then obtain m where "e = InvalidIndexJson m" using header_from_precomputed_Err by blast
  then show ?thesis
    using assms Inl by (auto simp: dispatch_def verify_body_def verify_precomputed_and_extract_def)
next
  case (Inr h)
  consider "verify_header E v h = None" | "verify_header E v h = Some False"
    | m where "verify_header E v h = Some True" "from_header E h = Err (BlockDecode m)"
    | vb where "verify_header E v h = Some True" "from_header E h = Ok vb"
    by (cases "verify_header E v h"; cases "header_try_hash E h") (auto simp: from_header_def)
  then show ?thesis
    by cases (use assms Inr in
        \<open>auto simp: dispatch_def verify_body_def verify_precomputed_and_extract_def verify_and_extract_def\<close>)
qed

theorem verify_endpoint_witness:
  "fst (dispatch sample_env sample_json_env sample_text sample_verifier Post ''/verify'' [char_of (99::nat)]) = 500"
proof -
  obtain st js where run:
    "dispatch sample_env sample_json_env sample_text sample_verifier Post ''/verify'' [char_of (99::nat)] = (st, js)"
    by (cases "dispatch sample_env sample_json_env sample_text sample_verifier Post ''/verify'' [char_of (99::nat)]")
  have "\<exists>h. header_from_precomputed sample_json_env [char_of (99::nat)] = Ok h \<and>
      verify_header sample_env sample_verifier h = None"
    by (simp add: header_from_precomputed_def precomputed_field_def sample_json_env_def sample_block_json_def
        verify_header_def sample_env_def sample_defs Let_def)
  then show ?thesis using verify_endpoint [OF run] run by simp
qed

text \<open>The type of an answer: the fields of its object with their types. A field of type \<open>TBool b\<close> is that
  boolean, a number is a 32-bit height.\<close>

datatype json_type = TBool bool | TNumber | TString

fun has_type :: "json \<Rightarrow> json_type \<Rightarrow> bool" where
  "has_type (JBool b) (TBool c) \<longleftrightarrow> b = c"
| "has_type (JNumber s) TNumber \<longleftrightarrow> (case parse_u64 s of Some n \<Rightarrow> n < 2 ^ 32 | None \<Rightarrow> False)"
| "has_type (JString s) TString \<longleftrightarrow> True"
| "has_type _ _ \<longleftrightarrow> False"

fun conforms :: "(string \<times> json_type) list \<Rightarrow> json \<Rightarrow> bool" where
  "conforms shape (JObject kvs) \<longleftrightarrow> map fst kvs = map fst shape \<and> list_all2 has_type (map snd kvs) (map snd shape)"
| "conforms shape _ \<longleftrightarrow> False"

definition refusal :: "(string \<times> json_type) list" where
  "refusal = [(''valid'', TBool False), (''error'', TString)]"

definition facts :: "(string \<times> json_type) list" where
  "facts = [(''valid'', TBool True), (''height'', TNumber), (''state_hash'', TString),
     (''previous_state_hash'', TString), (''staged_ledger_hash'', TString)]"

text \<open>What the module documentation lists under Endpoints: the statuses of a route, each with the type of
  the answer. Other routes are not listed.\<close>

definition documented :: "http_method \<Rightarrow> string \<Rightarrow> (u16 \<times> (string \<times> json_type) list) list" where
  "documented m path =
     (if m = Get \<and> path = ''/health'' then [(200, [(''status'', TString), (''network'', TString)])]
      else if m = Post \<and> path = ''/verify'' then [(200, facts), (200, refusal), (400, refusal)]
      else [])"

text \<open>The answers a request may get: those documented for its route, except when the body cannot be read,
  which comes first on every route, when the route is not listed, and when the proof checker panics.\<close>

definition checker_panics ::
  "('h, 'p, 'x, 'c) mina_env \<Rightarrow> ('h, 'p, 'x) json_env \<Rightarrow> ('c, 'x) verifier \<Rightarrow> string \<Rightarrow> bool" where
  "checker_panics E J v body =
     (case header_from_precomputed J body of Inl _ \<Rightarrow> False | Inr h \<Rightarrow> verify_header E v h = None)"

definition answer_types ::
  "('h, 'p, 'x, 'c) mina_env \<Rightarrow> ('h, 'p, 'x) json_env \<Rightarrow> ('c, 'x) verifier \<Rightarrow> http_method \<Rightarrow> string \<Rightarrow>
   (bytes, string) result \<Rightarrow> (u16 \<times> (string \<times> json_type) list) list" where
  "answer_types E J v m path body =
     (case body of
        Inl e \<Rightarrow> [(400, refusal)]
      | Inr bs \<Rightarrow>
          if documented m path = [] then [(404, [(''error'', TString)])]
          else if m = Post \<and> checker_panics E J v (from_utf8_lossy bs) then [(500, refusal)]
          else documented m path)"

lemma height_typed: "has_type (JNumber (show_nat (unat (h :: u32)))) TNumber"
proof -
  have "unat h < 2 ^ 32" using unsigned_less [of h] by simp
  then show ?thesis by (simp add: parse_show)
qed

lemma verify_body_typed:
  assumes "verify_body E J T v body = Some (st, js)"
  shows "\<exists>shape. (st, shape) \<in> {(200, facts), (200, refusal), (400, refusal)} \<and> conforms shape js"
proof -
  obtain r where r: "verify_precomputed_and_extract E J v body = Some r"
    using assms by (auto simp: verify_body_def)
  show ?thesis
  proof (cases r)
    case (Inl e)
    then show ?thesis
      using assms r by (cases e) (auto simp: verify_body_def refusal_def simp del: verifier_error_text.simps)
  next
    case (Inr vb)
    then show ?thesis
      using assms r height_typed [of "vb_height vb"]
      by (intro exI [of _ facts]) (auto simp: verify_body_def facts_def simp del: has_type.simps(2))
  qed
qed

lemma verify_body_None_iff: "verify_body E J T v body = None \<longleftrightarrow> checker_panics E J v body"
  by (cases "header_from_precomputed J body"; cases "verify_header E v (projr (header_from_precomputed J body))")
    (auto simp: verify_body_def checker_panics_def verify_precomputed_and_extract_def verify_and_extract_def)

lemma dispatch_typed:
  assumes "dispatch E J T v m path (from_utf8_lossy bs) = (st, js)"
  shows "\<exists>shape. (st, shape) \<in> set (answer_types E J v m path (Ok bs)) \<and> conforms shape js"
proof (cases "m = Post \<and> path = ''/verify''")
  case True
  then show ?thesis
    using assms verify_body_typed [of E J T v "from_utf8_lossy bs"]
      verify_body_None_iff [of E J T v "from_utf8_lossy bs"]
    by (cases "verify_body E J T v (from_utf8_lossy bs)")
      (auto simp: dispatch_def answer_types_def documented_def refusal_def)
next
  case False
  then show ?thesis using assms by (auto simp: dispatch_def answer_types_def documented_def split: if_splits)
qed

text \<open>C19. The type of every answer of the server, whatever the request and its body: the text is the
  rendering of one JSON object, sent as \<^verbatim>\<open>application/json\<close>, with exactly the fields and types that the
  documentation gives for one of the statuses of the route; the path alone, without the query string,
  decides the route. Three answers are not in the documentation: 400 whenever the body cannot be read,
  on \<^verbatim>\<open>GET /health\<close> and every other route too; 404 on the routes it does not list; 500 on \<^verbatim>\<open>POST /verify\<close>
  when the proof checker panics.\<close>

theorem response_typed:
  "\<exists>js shape. rs_text (fst (handle E J T H v req)) = json_text H js \<and> conforms shape js \<and>
     (rs_status (fst (handle E J T H v req)), shape) \<in>
       set (answer_types E J v (rq_method req) (takeWhile (\<lambda>c. c \<noteq> CHR ''?'') (rq_url req))
         (read_capped MAX_BODY_BYTES req)) \<and>
     rs_headers (fst (handle E J T H v req)) = [(''Content-Type'', ''application/json'')]"
proof (cases "read_capped MAX_BODY_BYTES req")
  case (Inl e)
  let ?js = "JObject [(''valid'', JBool False), (''error'', JString (''reading body: '' @ e))]"
  have "fst (handle E J T H v req) = \<lparr>rs_status = 400, rs_headers = [json_header], rs_text = json_text H ?js\<rparr>"
    using Inl by (simp add: handle_def)
  moreover have "conforms refusal ?js" by (simp add: refusal_def)
  ultimately show ?thesis
    using Inl by (intro exI [of _ ?js] exI [of _ refusal]) (simp add: json_header_def answer_types_def)
next
  case (Inr bs)
  obtain st js where run: "dispatch E J T v (rq_method req) (takeWhile (\<lambda>c. c \<noteq> CHR ''?'') (rq_url req))
      (from_utf8_lossy bs) = (st, js)"
    by (meson surj_pair)
  from dispatch_typed [OF this] show ?thesis
    using Inr run by (auto simp: handle_def json_header_def)
qed

text \<open>C39. A request body counts only up to the cap: two requests with the same method and the same path
  whose bodies agree on their first 32 MiB and are at least that long get the same response, whatever
  follows in the bodies, also when reading on would fail, and whatever the query strings; it is the
  response to those 32 MiB. A longer body is therefore not refused for its length: one whose first 32 MiB
  are a block, say one padded with white space, is answered like that block.\<close>

theorem body_capped:
  assumes "MAX_BODY_BYTES \<le> length (rq_body req)"
    and "take MAX_BODY_BYTES (rq_body req') = take MAX_BODY_BYTES (rq_body req)"
    and "rq_method req' = rq_method req"
    and "takeWhile (\<lambda>c. c \<noteq> CHR ''?'') (rq_url req') = takeWhile (\<lambda>c. c \<noteq> CHR ''?'') (rq_url req)"
    and "dispatch E J T v (rq_method req) (takeWhile (\<lambda>c. c \<noteq> CHR ''?'') (rq_url req))
      (from_utf8_lossy (take MAX_BODY_BYTES (rq_body req))) = (st, js)"
  shows "fst (handle E J T H v req') = fst (handle E J T H v req) \<and>
    fst (handle E J T H v req) = \<lparr>rs_status = st, rs_headers = [json_header], rs_text = json_text H js\<rparr>"
proof -
  have "length (take MAX_BODY_BYTES (rq_body req')) = MAX_BODY_BYTES"
    unfolding assms(2) using assms(1) by simp
  then have "MAX_BODY_BYTES \<le> length (rq_body req')" by simp
  then show ?thesis using assms by (simp add: handle_def read_capped_def)
qed

definition sample_http :: http_env where
  "sample_http =
     \<lparr>json_text = (\<lambda>j. if json_get j ''valid'' = Some (JBool True) then ''yes'' else ''no''),
      send_response = (\<lambda>_ _. Err ''reset'')\<rparr>"

text \<open>A parser that skips what follows a block, on a block of 32 MiB of padding and then some.\<close>

theorem body_capped_witness:
  "fst (handle sample_env (sample_json_env\<lparr>json_from_str :=
        \<lambda>s. case s of [] \<Rightarrow> Err '''' | c # _ \<Rightarrow> Ok (sample_block_json (of_char c) True)\<rparr>)
      sample_text sample_http sample_verifier
      \<lparr>rq_method = Post, rq_url = ''/verify'', rq_body = 65 # replicate MAX_BODY_BYTES 32, rq_body_error = Some ''reset''\<rparr>) =
    \<lparr>rs_status = 200, rs_headers = [json_header], rs_text = ''yes''\<rparr> \<and>
   fst (handle sample_env (sample_json_env\<lparr>json_from_str :=
        \<lambda>s. case s of [] \<Rightarrow> Err '''' | c # _ \<Rightarrow> Ok (sample_block_json (of_char c) True)\<rparr>)
      sample_text sample_http sample_verifier
      \<lparr>rq_method = Post, rq_url = ''/verify?x'', rq_body = 65 # replicate (MAX_BODY_BYTES - 1) 32, rq_body_error = None\<rparr>) =
    \<lparr>rs_status = 200, rs_headers = [json_header], rs_text = ''yes''\<rparr>"
proof -
  let ?J = "sample_json_env\<lparr>json_from_str :=
        \<lambda>s. case s of [] \<Rightarrow> Err '''' | c # _ \<Rightarrow> Ok (sample_block_json (of_char c) True)\<rparr>"
  let ?body = "65 # replicate MAX_BODY_BYTES 32 :: bytes"
  let ?req = "\<lparr>rq_method = Post, rq_url = ''/verify'', rq_body = ?body, rq_body_error = Some ''reset''\<rparr>"
  let ?req' = "\<lparr>rq_method = Post, rq_url = ''/verify?x'', rq_body = 65 # replicate (MAX_BODY_BYTES - 1) 32, rq_body_error = None\<rparr>"
  have MAX: "MAX_BODY_BYTES = Suc (MAX_BODY_BYTES - 1)" by (simp add: MAX_BODY_BYTES_def)
  have cut: "take MAX_BODY_BYTES ?body = 65 # replicate (MAX_BODY_BYTES - 1) 32"
    by (subst MAX, subst take_Suc_Cons) simp
  have cut': "take MAX_BODY_BYTES (65 # replicate (MAX_BODY_BYTES - 1) 32 :: bytes) = 65 # replicate (MAX_BODY_BYTES - 1) 32"
    by (rule take_all) (use MAX in simp)
  have "utf8_valid (65 # replicate k 32)" for k by (rule utf8_ascii) auto
  with cut have ascii: "from_utf8_lossy (take MAX_BODY_BYTES ?body) =
      char_of (65 :: nat) # string_of_bytes (replicate (MAX_BODY_BYTES - 1) 32)"
    by (simp add: from_utf8_lossy_def utf8_lossy_id string_of_bytes_def)
  obtain js where run: "dispatch sample_env ?J sample_text sample_verifier Post ''/verify''
      (from_utf8_lossy (take MAX_BODY_BYTES ?body)) = (200, js)" and js: "json_get js ''valid'' = Some (JBool True)"
    unfolding ascii
    by (simp add: dispatch_def verify_body_def verify_precomputed_and_extract_def verify_and_extract_def
        header_from_precomputed_def precomputed_field_def sample_json_env_def sample_block_json_def
        verify_header_def sample_env_def from_header_def sample_defs Let_def)
  have "json_text sample_http js = ''yes''" using js by (simp add: sample_http_def)
  moreover have "fst (handle sample_env ?J sample_text sample_http sample_verifier ?req') =
      fst (handle sample_env ?J sample_text sample_http sample_verifier ?req) \<and>
    fst (handle sample_env ?J sample_text sample_http sample_verifier ?req) =
      \<lparr>rs_status = 200, rs_headers = [json_header], rs_text = json_text sample_http js\<rparr>"
    by (rule body_capped) (use run cut cut' in simp_all)
  ultimately show ?thesis by simp
qed

text \<open>The lossy decoding of a request body yields well-formed UTF-8 whatever the bytes, leaves
  well-formed UTF-8 (hence ASCII) as it is, and applying it again changes nothing.\<close>

theorem lossy_decoding:
  "utf8_valid (utf8_lossy bs) \<and> utf8_lossy (utf8_lossy bs) = utf8_lossy bs \<and>
   (utf8_valid bs \<longrightarrow> from_utf8_lossy bs = string_of_bytes bs) \<and>
   ((\<forall>b \<in> set bs. b < 0x80) \<longrightarrow> from_utf8_lossy bs = string_of_bytes bs)"
  using utf8_lossy_valid [of bs] utf8_lossy_id [of bs] utf8_lossy_id [of "utf8_lossy bs"] utf8_ascii [of bs]
  by (simp add: from_utf8_lossy_def)

text \<open>The server always gets at least one worker: \<^verbatim>\<open>VERIFY_THREADS\<close> is used when it is a positive
  64-bit number, and anything else falls back to the available parallelism, or four.\<close>

theorem worker_threads_positive:
  assumes "available_parallelism Os \<noteq> Some 0"
  shows "0 < worker_threads Os \<and>
    (\<forall>n. 0 < n \<longrightarrow> n < 2 ^ 64 \<longrightarrow> env_var Os ''VERIFY_THREADS'' = Some (show_nat n) \<longrightarrow> worker_threads Os = n)"
  using assms
  by (auto simp: worker_threads_def parse_show split: option.split bind_splits if_splits)

end
