(* ===== verification/ServerPool.thy ===== *)
theory ServerPool
  imports ServerCorrect
begin

text \<open>
  The thread pool of \<^verbatim>\<open>serve\<close> in \<^verbatim>\<open>mina-verify-server/src/lib.rs\<close>: the workers drain one listener. A
  request waits in the backlog, is taken by an idle worker and answered by \<open>handle\<close>, which cannot panic;
  a worker that gets an error from the listener leaves its loop for good; \<^verbatim>\<open>serve\<close> returns when all have
  left. \<open>pool_arrived\<close> is the listener's history. The steps of the workers interleave in any way, and
  requests arrive at any time. The lemmas count requests: none is lost, none is answered twice, and
  as long as a worker is left all are answered.
\<close>

record pool =
  pool_arrived :: "request list"
  pool_backlog :: "request list"
  pool_busy :: "nat \<Rightarrow> request option"
  pool_gone :: "nat set"
  pool_answers :: "(request \<times> http_response) list"
  pool_warnings :: "string list"

definition pool_start :: pool where
  "pool_start = \<lparr>pool_arrived = [], pool_backlog = [], pool_busy = \<lambda>_. None, pool_gone = {}, pool_answers = [],
     pool_warnings = []\<rparr>"

inductive pool_step ::
  "('h, 'p, 'x, 'c) mina_env \<Rightarrow> ('h, 'p, 'x) json_env \<Rightarrow> 'h hash_text \<Rightarrow> http_env \<Rightarrow> ('c, 'x) verifier \<Rightarrow>
   usize \<Rightarrow> pool \<Rightarrow> pool \<Rightarrow> bool"
  for E J T H v threads
where
  arrives:
    "pool_step E J T H v threads s (s\<lparr>pool_arrived := pool_arrived s @ [r], pool_backlog := pool_backlog s @ [r]\<rparr>)"
| takes:
    "\<lbrakk>i < threads; i \<notin> pool_gone s; pool_busy s i = None; pool_backlog s = r # rs\<rbrakk> \<Longrightarrow>
     pool_step E J T H v threads s (s\<lparr>pool_backlog := rs, pool_busy := (pool_busy s)(i \<mapsto> r)\<rparr>)"
| responds:
    "\<lbrakk>i < threads; pool_busy s i = Some r; handle E J T H v r = (response, warnings)\<rbrakk> \<Longrightarrow>
     pool_step E J T H v threads s
       (s\<lparr>pool_busy := (pool_busy s)(i := None), pool_answers := pool_answers s @ [(r, response)],
          pool_warnings := pool_warnings s @ warnings\<rparr>)"
| leaves:
    "\<lbrakk>i < threads; i \<notin> pool_gone s; pool_busy s i = None\<rbrakk> \<Longrightarrow>
     pool_step E J T H v threads s (s\<lparr>pool_gone := insert i (pool_gone s)\<rparr>)"

inductive_cases pool_stepE [consumes 1, case_names arrives takes responds leaves]:
  "pool_step E J T H v threads s t"

definition serve_returns :: "usize \<Rightarrow> pool \<Rightarrow> bool" where
  "serve_returns threads s \<longleftrightarrow> (\<forall>i < threads. i \<in> pool_gone s)"

section \<open>Counting requests\<close>

definition in_hand :: "usize \<Rightarrow> pool \<Rightarrow> request list" where
  "in_hand threads s = List.map_filter (pool_busy s) [0..<threads]"

definition pool_ok ::
  "('h, 'p, 'x, 'c) mina_env \<Rightarrow> ('h, 'p, 'x) json_env \<Rightarrow> 'h hash_text \<Rightarrow> http_env \<Rightarrow> ('c, 'x) verifier \<Rightarrow>
   usize \<Rightarrow> pool \<Rightarrow> bool" where
  "pool_ok E J T H v threads s \<longleftrightarrow>
     mset (pool_arrived s) =
       mset (map fst (pool_answers s)) + mset (in_hand threads s) + mset (pool_backlog s) \<and>
     list_all (\<lambda>(r, response). response = fst (handle E J T H v r)) (pool_answers s) \<and>
     (\<forall>i \<in> pool_gone s. pool_busy s i = None)"

lemma map_filter_upd_outside:
  "i \<notin> set xs \<Longrightarrow> List.map_filter (f(i := x)) xs = List.map_filter f xs"
  by (induction xs) (auto simp: map_filter_simps split: option.split)

lemma mset_map_filter_upd:
  assumes "i \<in> set xs" and "distinct xs"
  shows "mset (List.map_filter (f(i := x)) xs) + (case f i of None \<Rightarrow> {#} | Some r \<Rightarrow> {#r#}) =
    mset (List.map_filter f xs) + (case x of None \<Rightarrow> {#} | Some r \<Rightarrow> {#r#})"
  using assms
  by (induction xs) (auto simp: map_filter_simps map_filter_upd_outside split: option.split)

lemma pool_step_ok:
  assumes ok: "pool_ok E J T H v threads s" and "pool_step E J T H v threads s t"
  shows "pool_ok E J T H v threads t"
  using assms(2)
proof (cases rule: pool_stepE)
  case (arrives r)
  then show ?thesis using ok by (simp add: pool_ok_def in_hand_def)
next
  case (takes i r rs)
  then show ?thesis
    using ok mset_map_filter_upd [of i "[0..<threads]" "pool_busy s" "Some r"]
    by (auto simp: pool_ok_def in_hand_def)
next
  case (responds i r response warnings)
  then show ?thesis
    using ok mset_map_filter_upd [of i "[0..<threads]" "pool_busy s" None]
    by (simp add: pool_ok_def in_hand_def)
next
  case (leaves i)
  then show ?thesis using ok by (simp add: pool_ok_def in_hand_def)
qed

interpretation pool: safe_machine "\<lambda>s. s = pool_start" "pool_step E J T H v threads" "pool_ok E J T H v threads"
  for E :: "('h, 'p, 'x, 'c) mina_env" and J T H v threads
proof
  show "pool_ok E J T H v threads s" if "s = pool_start" for s
    using that by (simp add: pool_ok_def in_hand_def pool_start_def map_filter_def)
qed (rule pool_step_ok)

section \<open>Draining the backlog\<close>

text \<open>The steps of the workers alone: nothing arrives and nobody leaves.\<close>

definition worker_only ::
  "('h, 'p, 'x, 'c) mina_env \<Rightarrow> ('h, 'p, 'x) json_env \<Rightarrow> 'h hash_text \<Rightarrow> http_env \<Rightarrow> ('c, 'x) verifier \<Rightarrow>
   usize \<Rightarrow> pool \<Rightarrow> pool \<Rightarrow> bool" where
  "worker_only E J T H v threads s t \<longleftrightarrow> pool_step E J T H v threads s t \<and>
     pool_arrived t = pool_arrived s \<and> pool_gone t = pool_gone s"

definition staffed ::
  "('h, 'p, 'x, 'c) mina_env \<Rightarrow> ('h, 'p, 'x) json_env \<Rightarrow> 'h hash_text \<Rightarrow> http_env \<Rightarrow> ('c, 'x) verifier \<Rightarrow>
   usize \<Rightarrow> request list \<Rightarrow> pool \<Rightarrow> bool" where
  "staffed E J T H v threads arrived s \<longleftrightarrow>
     pool_ok E J T H v threads s \<and> \<not> serve_returns threads s \<and> pool_arrived s = arrived"

definition drained :: "usize \<Rightarrow> pool \<Rightarrow> bool" where
  "drained threads s \<longleftrightarrow> in_hand threads s = [] \<and> pool_backlog s = []"

definition pool_work :: "usize \<Rightarrow> pool \<Rightarrow> nat" where
  "pool_work threads s = 2 * length (pool_backlog s) + length (in_hand threads s)"

lemma in_hand_cases:
  obtains i r where "i < threads" and "pool_busy s i = Some r" | "in_hand threads s = []" "\<forall>i < threads. pool_busy s i = None"
  by (cases "\<exists>i < threads. pool_busy s i \<noteq> None") (auto simp: in_hand_def map_filter_def)

lemma length_in_hand_upd:
  assumes "i < threads"
  shows "length (in_hand threads (s\<lparr>pool_busy := (pool_busy s)(i := x)\<rparr>)) + (if pool_busy s i = None then 0 else 1) =
    length (in_hand threads s) + (if x = None then 0 else 1)"
  using arg_cong [OF mset_map_filter_upd [of i "[0..<threads]" "pool_busy s" x], of size] assms
  by (auto simp: in_hand_def split: option.splits)

lemma worker_only_work:
  assumes "worker_only E J T H v threads s t"
  shows "pool_work threads t < pool_work threads s"
proof -
  have "pool_step E J T H v threads s t" using assms by (simp add: worker_only_def)
  then show ?thesis
  proof (cases rule: pool_stepE)
    case (takes i r rs)
    then show ?thesis
      using length_in_hand_upd [of i threads s "Some r"] by (simp add: pool_work_def in_hand_def)
  next
    case (responds i r response warnings)
    then show ?thesis
      using length_in_hand_upd [of i threads s None] by (simp add: pool_work_def in_hand_def)
  qed (use assms in \<open>auto simp: worker_only_def\<close>)
qed

lemma worker_only_progress:
  assumes "\<not> serve_returns threads s" and "\<not> drained threads s"
  shows "\<exists>t. worker_only E J T H v threads s t"
proof (cases threads s rule: in_hand_cases)
  case (1 i r)
  obtain response warnings where "handle E J T H v r = (response, warnings)" by (meson surj_pair)
  from responds [OF 1 this] show ?thesis by (force simp: worker_only_def)
next
  case 2
  then obtain r rs where "pool_backlog s = r # rs" using assms(2) by (cases "pool_backlog s") (auto simp: drained_def)
  moreover obtain i where "i < threads" "i \<notin> pool_gone s" using assms(1) by (auto simp: serve_returns_def)
  ultimately show ?thesis using takes [of i threads s r rs] 2 by (force simp: worker_only_def)
qed

interpretation draining: finishing_machine "\<lambda>s. staffed E J T H v threads arrived s" "worker_only E J T H v threads"
  "staffed E J T H v threads arrived" "drained threads" "pool_work threads"
  for E :: "('h, 'p, 'x, 'c) mina_env" and J T H v threads arrived
proof
  show "staffed E J T H v threads arrived t"
    if "staffed E J T H v threads arrived s" "worker_only E J T H v threads s t" for s t
    using that by (auto simp: staffed_def serve_returns_def worker_only_def intro: pool_step_ok)
  show "\<exists>t. worker_only E J T H v threads s t"
    if "staffed E J T H v threads arrived s" "\<not> drained threads s" for s
    using that by (simp add: staffed_def worker_only_progress)
qed (auto intro: worker_only_work)

text \<open>C18. The server answers every request exactly once: in every interleaving of the workers, with
  requests arriving and listener errors sending workers home at any time, the requests that arrived are
  those answered, those in a worker's hands and those waiting, with the same multiplicities; each answer
  is what \<^verbatim>\<open>handle\<close> makes of its request alone. When \<^verbatim>\<open>serve\<close> returns no request is in hand; as long as
  a worker is left, the workers can go on until every request that has arrived is answered, and however
  they are scheduled they do not go on for ever without one arriving.\<close>

theorem pool_exactly_once:
  assumes "reachable (\<lambda>s. s = pool_start) (pool_step E J T H v threads) s"
  shows "mset (pool_arrived s) =
      mset (map fst (pool_answers s)) + mset (in_hand threads s) + mset (pool_backlog s) \<and>
    list_all (\<lambda>(r, response). response = fst (handle E J T H v r)) (pool_answers s) \<and>
    (if serve_returns threads s then in_hand threads s = []
     else (\<exists>t. (worker_only E J T H v threads)\<^sup>*\<^sup>* s t \<and> mset (map fst (pool_answers t)) = mset (pool_arrived s)) \<and>
       (\<forall>f. f 0 = s \<longrightarrow> \<not> (\<forall>n. worker_only E J T H v threads (f n) (f (Suc n)))))"
proof -
  have ok: "pool_ok E J T H v threads s" by (rule pool.reachable_inv [OF assms])
  have "if serve_returns threads s then in_hand threads s = []
     else (\<exists>t. (worker_only E J T H v threads)\<^sup>*\<^sup>* s t \<and> mset (map fst (pool_answers t)) = mset (pool_arrived s)) \<and>
       (\<forall>f. f 0 = s \<longrightarrow> \<not> (\<forall>n. worker_only E J T H v threads (f n) (f (Suc n))))"
  proof (cases "serve_returns threads s")
    case True
    then show ?thesis
      using ok by (cases threads s rule: in_hand_cases) (auto simp: pool_ok_def serve_returns_def)
  next
    case False
    then have staffed: "staffed E J T H v threads (pool_arrived s) s" using ok by (simp add: staffed_def)
    from draining.finishes [OF this] obtain t where "(worker_only E J T H v threads)\<^sup>*\<^sup>* s t"
      "drained threads t" "staffed E J T H v threads (pool_arrived s) t" by blast
    moreover from this(2,3) have "mset (map fst (pool_answers t)) = mset (pool_arrived s)"
      by (auto simp: staffed_def pool_ok_def drained_def)
    ultimately show ?thesis using False draining.no_endless_run staffed by auto
  qed
  then show ?thesis using ok unfolding pool_ok_def by blast
qed

definition sample_request :: request where
  "sample_request = \<lparr>rq_method = Get, rq_url = ''/health'', rq_body = [], rq_body_error = None\<rparr>"

definition sample_pool :: pool where
  "sample_pool = \<lparr>pool_arrived = [sample_request, sample_request], pool_backlog = [sample_request],
     pool_busy = (\<lambda>_. None), pool_gone = {0},
     pool_answers = [(sample_request, fst (handle sample_env sample_json_env sample_text sample_http sample_verifier sample_request))],
     pool_warnings = [''failed to send response: reset'']\<rparr>"

lemma sample_pool_reachable:
  "reachable (\<lambda>s. s = pool_start)
     (pool_step sample_env sample_json_env sample_text sample_http sample_verifier 2) sample_pool"
proof -
  let ?step = "pool_step sample_env sample_json_env sample_text sample_http sample_verifier 2"
  let ?r = sample_request
  let ?answer = "handle sample_env sample_json_env sample_text sample_http sample_verifier ?r"
  define s1 where "s1 = pool_start\<lparr>pool_arrived := [?r], pool_backlog := [?r]\<rparr>"
  define s2 where "s2 = s1\<lparr>pool_arrived := [?r, ?r], pool_backlog := [?r, ?r]\<rparr>"
  define s3 where "s3 = s2\<lparr>pool_backlog := [?r], pool_busy := (\<lambda>_. None)(1 \<mapsto> ?r)\<rparr>"
  define s4 where "s4 = s3\<lparr>pool_gone := {0}\<rparr>"
  note defs = s1_def s2_def s3_def s4_def pool_start_def sample_pool_def
  have "snd ?answer = [''failed to send response: reset'']"
    by (simp add: handle_def read_capped_def MAX_BODY_BYTES_def sample_request_def dispatch_def respond_def
        sample_http_def Let_def)
  then have answer: "?answer = (fst ?answer, [''failed to send response: reset''])"
    by (metis prod.collapse)
  have step1: "?step pool_start s1" using arrives [of _ _ _ _ _ 2 pool_start ?r] by (simp add: defs)
  have step2: "?step s1 s2" using arrives [of _ _ _ _ _ 2 s1 ?r] by (simp add: defs)
  have step3: "?step s2 s3" using takes [of 1 2 s2 ?r "[?r]"] by (simp add: defs)
  have step4: "?step s3 s4" using leaves [of 0 2 s3] by (simp add: defs)
  have step5: "?step s4 sample_pool" using responds [OF _ _ answer, of 1 2 s4] by (simp add: defs)
  have "?step\<^sup>*\<^sup>* pool_start sample_pool"
    using step1 step2 step3 step4 step5 by (meson converse_rtranclp_into_rtranclp rtranclp.rtrancl_refl)
  then show ?thesis by (rule reachable_steps) (rule refl)
qed

theorem pool_exactly_once_witness:
  "mset (pool_arrived sample_pool) = {#sample_request, sample_request#} \<and>
   (\<exists>t. (worker_only sample_env sample_json_env sample_text sample_http sample_verifier 2)\<^sup>*\<^sup>* sample_pool t \<and>
      mset (map fst (pool_answers t)) = {#sample_request, sample_request#})"
proof -
  have "1 < (2::nat) \<and> 1 \<notin> pool_gone sample_pool" by (simp add: sample_pool_def)
  then have "\<not> serve_returns 2 sample_pool" unfolding serve_returns_def by blast
  moreover have "pool_arrived sample_pool = [sample_request, sample_request]" by (simp add: sample_pool_def)
  ultimately show ?thesis using pool_exactly_once [OF sample_pool_reachable] by auto
qed

end
