(* ===== verification/Bench.thy ===== *)
theory Bench
  imports ServerCorrect
begin

text \<open>
  \<^verbatim>\<open>src/crates/mina-verify/benches/verify.rs\<close>: the benchmark of the indexer's path. It reads a fixture,
  builds a verifier, verifies the block once to warm up and then \<^verbatim>\<open>BENCH_ITERS\<close> times, and reports
  statistics of the times taken. The clock is a parameter, the nanoseconds each iteration took; the
  rendering of durations and of the throughput is left out.
\<close>

section \<open>The program\<close>

definition FIXTURE_PATH :: "string \<Rightarrow> string" where
  "FIXTURE_PATH manifest_dir = manifest_dir @ ''/../../tests/fixtures/devnet-528700.json''"

record bench_report =
  br_iters :: usize
  br_min :: nat
  br_median :: nat
  br_mean :: nat
  br_max :: nat

definition bench_iters :: "os_env \<Rightarrow> usize" where
  "bench_iters Os =
     (case Option.bind (Option.bind (env_var Os ''BENCH_ITERS'') parse_u64)
             (\<lambda>n. if 0 < n then Some n else None) of
        Some n \<Rightarrow> n
      | None \<Rightarrow> 5)"

text \<open>The loop: every iteration verifies the block again and must succeed.\<close>

fun bench_loop ::
  "(nat \<Rightarrow> ('h verified_block, verifier_error) result panics) \<Rightarrow> (nat \<Rightarrow> nat) \<Rightarrow> nat list \<Rightarrow> nat list \<Rightarrow>
   nat list panics" where
  "bench_loop verify clock [] samples = Some samples"
| "bench_loop verify clock (i # is) samples =
     do {
       r \<leftarrow> verify i;
       if is_ok r then bench_loop verify clock is (samples @ [clock i]) else None
     }"

text \<open>A sum of durations overflows at \<open>2 ^ 64\<close> seconds; an index out of range and a division by zero
  panic. The number of samples is cast to 32 bits before the division.\<close>

definition sum_durations :: "nat list \<Rightarrow> nat panics" where
  "sum_durations ds = (if sum_list ds < 2 ^ 64 * 10 ^ 9 then Some (sum_list ds) else None)"

definition at_index :: "'a list \<Rightarrow> nat \<Rightarrow> 'a panics" where
  "at_index xs i = (if i < length xs then Some (xs ! i) else None)"

definition bench_statistics :: "usize \<Rightarrow> nat list \<Rightarrow> bench_report panics" where
  "bench_statistics iters samples0 =
     (let samples = sort samples0;
          n = (of_nat (length samples) :: u32)
      in do {
        total \<leftarrow> sum_durations samples;
        mean \<leftarrow> (if n = 0 then None else Some (total div unat n));
        median \<leftarrow> at_index samples (length samples div 2);
        low \<leftarrow> at_index samples 0;
        last \<leftarrow> sub_usize (length samples) 1;
        high \<leftarrow> at_index samples last;
        Some \<lparr>br_iters = iters, br_min = low, br_median = median, br_mean = mean, br_max = high\<rparr>
      })"

definition bench_main ::
  "os_env \<Rightarrow> string \<Rightarrow> (string \<Rightarrow> (bytes, string) result) \<Rightarrow> ('h, 'p, 'x, 'c::linorder) mina_env \<Rightarrow>
   ('h, 'p, 'x) json_env \<Rightarrow> (nat \<Rightarrow> nat) \<Rightarrow> 'g globals \<Rightarrow> bench_report panics" where
  "bench_main Os manifest_dir read_file E J clock g =
     (let iters = bench_iters Os in
      do {
        bytes \<leftarrow> result_ok (read_file (FIXTURE_PATH manifest_dir));
        let body = from_utf8_lossy bytes;
        verifier \<leftarrow> result_ok (fst (for_network_offline E ''devnet'' g));
        warm \<leftarrow> verify_precomputed_and_extract E J verifier body;
        vb \<leftarrow> result_ok warm;
        samples \<leftarrow> bench_loop (\<lambda>i. verify_precomputed_and_extract E J verifier body) clock [0..<iters] [];
        bench_statistics iters samples
      })"

section \<open>Lemmas\<close>

lemma bench_loop_ok:
  "(\<And>i. verify i = Some (Ok vb)) \<Longrightarrow> bench_loop verify clock is samples = Some (samples @ map clock is)"
  by (induction "is" arbitrary: samples) simp_all

lemma bench_iters_positive: "0 < bench_iters Os"
  by (auto simp: bench_iters_def split: option.split bind_splits if_splits)

lemma sum_list_between:
  fixes ds :: "nat list"
  assumes "\<And>d. d \<in> set ds \<Longrightarrow> lo \<le> d \<and> d \<le> hi"
  shows "lo * length ds \<le> sum_list ds \<and> sum_list ds \<le> hi * length ds"
  using assms by (induction ds) (auto simp: add_mono)

text \<open>At least \<open>k + 1\<close> elements are at most the one at \<open>k\<close> in the sorted list, and \<open>n - k\<close> at least it.\<close>

lemma sorted_rank:
  assumes "sorted xs" and "k < length xs"
  shows "k < length (filter (\<lambda>d. d \<le> xs ! k) xs)" and "length xs - k \<le> length (filter (\<lambda>d. xs ! k \<le> d) xs)"
proof -
  have "\<forall>d \<in> set (take (Suc k) xs). d \<le> xs ! k"
    using assms by (auto simp: in_set_conv_nth sorted_nth_mono)
  then have "filter (\<lambda>d. d \<le> xs ! k) (take (Suc k) xs) = take (Suc k) xs" by (simp add: filter_id_conv)
  then have "Suc k \<le> length (filter (\<lambda>d. d \<le> xs ! k) (take (Suc k) xs @ drop (Suc k) xs))"
    using assms(2) by (simp only: filter_append) simp
  then show "k < length (filter (\<lambda>d. d \<le> xs ! k) xs)" by simp
  have "\<forall>d \<in> set (drop k xs). xs ! k \<le> d"
    using assms by (auto simp: in_set_conv_nth sorted_nth_mono)
  then have "filter (\<lambda>d. xs ! k \<le> d) (drop k xs) = drop k xs" by (simp add: filter_id_conv)
  then have "length xs - k \<le> length (filter (\<lambda>d. xs ! k \<le> d) (take k xs @ drop k xs))"
    by (simp only: filter_append) simp
  then show "length xs - k \<le> length (filter (\<lambda>d. xs ! k \<le> d) xs)" by simp
qed

lemma length_filter_sort: "length (filter P (sort xs)) = length (filter P xs)"
  by (metis mset_filter mset_sort size_mset)

lemma sorted_ends:
  fixes xs :: "nat list"
  assumes "sorted xs" and "xs \<noteq> []"
  shows "xs ! 0 = Min (set xs)" and "xs ! (length xs - 1) = Max (set xs)"
proof -
  have le: "xs ! 0 \<le> d" "d \<le> xs ! (length xs - 1)" if "d \<in> set xs" for d
    using that assms by (auto simp: in_set_conv_nth sorted_nth_mono)
  show "xs ! 0 = Min (set xs)" "xs ! (length xs - 1) = Max (set xs)"
    using assms(2) by (intro Min_eqI [symmetric] Max_eqI [symmetric]; simp add: le [simplified])+
qed

lemma bench_statistics_Some:
  assumes "samples \<noteq> []" and "length samples < 2 ^ 32" and "sum_list samples < 2 ^ 64 * 10 ^ 9"
  shows "bench_statistics iters samples =
    Some \<lparr>br_iters = iters, br_min = Min (set samples), br_median = sort samples ! (length samples div 2),
      br_mean = sum_list samples div length samples, br_max = Max (set samples)\<rparr>"
proof -
  let ?s = "sort samples"
  have ne: "?s \<noteq> []" using assms(1) by (metis set_empty set_sort)
  have n: "unat (of_nat (length samples) :: u32) = length samples"
    using assms(2) by (simp add: unsigned_of_nat take_bit_nat_eq_self)
  then have nz: "(of_nat (length samples) :: u32) \<noteq> 0" using assms(1) by (metis length_0_conv unsigned_0)
  have "sum_list ?s = sum_list samples" by (metis mset_sort sum_mset_sum_list)
  moreover have "?s ! 0 = Min (set samples)" "?s ! (length samples - 1) = Max (set samples)"
    using sorted_ends [OF sorted_sort, of samples] ne by simp_all
  ultimately show ?thesis
    using assms n nz ne
    by (simp add: bench_statistics_def Let_def sum_durations_def at_index_def sub_usize_def Suc_le_eq)
qed

text \<open>C40. What the benchmark reports: it runs through exactly when the fixture can be read, the embedded key
  loads and the block verifies; then the minimum and the maximum are those of the times taken, the
  reported median has at least half of them on either side, and the mean is their sum divided by their
  number, rounded down, so it lies between the extremes.\<close>

theorem bench_reports:
  assumes "n = bench_iters Os" and "n < 2 ^ 32" and "spent = sum_list (map clock [0..<n])"
    and "spent < 2 ^ 64 * 10 ^ 9"
    and "verified \<longleftrightarrow> (\<exists>bytes v vb. read_file (FIXTURE_PATH dir) = Ok bytes \<and>
      fst (for_network_offline E ''devnet'' g) = Ok v \<and>
      verify_precomputed_and_extract E J v (from_utf8_lossy bytes) = Some (Ok vb))"
  shows "case bench_main Os dir read_file E J clock g of
      None \<Rightarrow> \<not> verified
    | Some rep \<Rightarrow> verified \<and> br_iters rep = n \<and>
        br_min rep = Min (clock ` {..<n}) \<and> br_max rep = Max (clock ` {..<n}) \<and>
        n \<le> 2 * length (filter (\<lambda>i. clock i \<le> br_median rep) [0..<n]) \<and>
        n \<le> 2 * length (filter (\<lambda>i. br_median rep \<le> clock i) [0..<n]) \<and>
        br_mean rep * n \<le> spent \<and> spent < (br_mean rep + 1) * n \<and>
        br_min rep \<le> br_mean rep \<and> br_mean rep \<le> br_max rep"
proof (cases verified)
  case True
  then obtain bytes v vb where ok: "read_file (FIXTURE_PATH dir) = Ok bytes"
    "fst (for_network_offline E ''devnet'' g) = Ok v"
    "verify_precomputed_and_extract E J v (from_utf8_lossy bytes) = Some (Ok vb)"
    using assms(5) by blast
  let ?ds = "map clock [0..<n]"
  have n: "0 < n" using bench_iters_positive assms(1) by simp
  have set: "set ?ds = clock ` {..<n}" by (auto simp: atLeast0LessThan)
  have run: "bench_main Os dir read_file E J clock g = bench_statistics n ?ds"
    using ok by (simp add: bench_main_def Let_def assms(1) bench_loop_ok)
  have stats: "bench_statistics n ?ds = Some \<lparr>br_iters = n, br_min = Min (clock ` {..<n}),
      br_median = sort ?ds ! (n div 2), br_mean = spent div n, br_max = Max (clock ` {..<n})\<rparr>"
    using bench_statistics_Some [of ?ds n] assms(2-4) n unfolding set by simp
  have med: "n \<le> 2 * length (filter (\<lambda>i. clock i \<le> sort ?ds ! (n div 2)) [0..<n])"
    "n \<le> 2 * length (filter (\<lambda>i. sort ?ds ! (n div 2) \<le> clock i) [0..<n])"
    using sorted_rank [OF sorted_sort, of "n div 2" ?ds] n
    by (auto simp: length_filter_sort filter_map o_def)
  have "Min (clock ` {..<n}) * n \<le> spent \<and> spent \<le> Max (clock ` {..<n}) * n"
    using sum_list_between [of ?ds "Min (clock ` {..<n})" "Max (clock ` {..<n})"] assms(3)
    by (simp add: atLeast0LessThan)
  then have mean: "Min (clock ` {..<n}) \<le> spent div n" "spent div n \<le> Max (clock ` {..<n})"
    using n by (simp_all add: less_eq_div_iff_mult_less_eq) (metis div_le_mono nonzero_mult_div_cancel_right not_gr0)
  have "spent div n * n \<le> spent" "spent < (spent div n + 1) * n"
    using n by (simp_all add: dividend_less_div_times)
  then show ?thesis using True run stats med mean by simp
next
  case False
  then have "bench_main Os dir read_file E J clock g = None"
    using assms(5)
    by (cases "read_file (FIXTURE_PATH dir)"; cases "fst (for_network_offline E ''devnet'' g)")
      (auto simp: bench_main_def Let_def result_simps split: bind_splits)
  then show ?thesis using False by simp
qed

definition sample_clock :: "nat \<Rightarrow> nat" where
  "sample_clock i = 10 * (i mod 3) + 5"

theorem bench_reports_witness:
  "\<exists>rep. bench_main \<lparr>env_var = \<lambda>_. None, read_to_string = Ok, available_parallelism = None\<rparr> ''m'' (\<lambda>_. Ok [65])
      sample_env sample_json_env sample_clock sample_globals = Some rep \<and>
    br_iters rep = 5 \<and> br_min rep = 5 \<and> br_max rep = 25 \<and> br_mean rep = 13"
proof -
  let ?os = "\<lparr>env_var = \<lambda>_. None, read_to_string = Ok, available_parallelism = None\<rparr> :: os_env"
  have iters: "5 = bench_iters ?os" by (simp add: bench_iters_def)
  have clock: "map sample_clock [0..<5] = [5, 15, 25, 5, 15]" by code_simp
  have image: "sample_clock ` {..<5} = {5, 15, 25}" by code_simp
  have ascii: "from_utf8_lossy [65] = [char_of (65 :: nat)]" by code_simp
  obtain v where "fst (for_network_offline sample_env ''devnet'' sample_globals) = Ok v"
    by (simp add: for_network_offline_def embedded_index_json_def with_index_json_def sample_globals_def
        sample_env_def verifier_index_from_json_def sample_kimchi_def workdir_call_once_def)
  moreover have "\<exists>vb. verify_precomputed_and_extract sample_env sample_json_env v [char_of (65 :: nat)] = Some (Ok vb)"
    by (simp add: verify_precomputed_and_extract_def verify_and_extract_def
        header_from_precomputed_def precomputed_field_def sample_json_env_def sample_block_json_def
        verify_header_def sample_env_def from_header_def sample_defs Let_def)
  ultimately have "\<exists>bytes v vb. (Ok [65] :: (bytes, string) result) = Ok bytes \<and>
      fst (for_network_offline sample_env ''devnet'' sample_globals) = Ok v \<and>
      verify_precomputed_and_extract sample_env sample_json_env v (from_utf8_lossy bytes) = Some (Ok vb)"
    using ascii by auto
  then show ?thesis
    using bench_reports [OF iters, of "sum_list (map sample_clock [0..<5])" sample_clock
        "\<exists>bytes v vb. (Ok [65] :: (bytes, string) result) = Ok bytes \<and>
           fst (for_network_offline sample_env ''devnet'' sample_globals) = Ok v \<and>
           verify_precomputed_and_extract sample_env sample_json_env v (from_utf8_lossy bytes) = Some (Ok vb)"
        "\<lambda>_. Ok [65]" "''m''" sample_env sample_globals sample_json_env]
    unfolding clock image by (auto split: option.splits)
qed

end
