(* ===== verification/RpcWire.thy ===== *)
theory RpcWire
  imports Prelude
begin

text \<open>
  \<^verbatim>\<open>src/crates/mina-verify-capture/src/rpc.rs\<close>: the framed request and response protocol with a peer.

  A stream is what the peer has sent on it, followed by the error a reader gets at its end or by silence
  until the deadline of the caller. A write is recorded, or fails; the peer, which is external, reacts to
  it with the bytes \<open>st_peer\<close> gives for it and all that was written before. The binprot codecs and the
  allocator are external too, the fields of \<open>rpc_codec\<close> and \<open>rpc_method\<close>.

  A call may wait for ever (until the deadline around it fires), crash the thread, or complete.
\<close>

section \<open>Little-endian integers\<close>

fun to_le :: "nat \<Rightarrow> u64 \<Rightarrow> bytes" where
  "to_le 0 x = []"
| "to_le (Suc n) x = ucast x # to_le n (drop_bit 8 x)"

fun from_le :: "bytes \<Rightarrow> u64" where
  "from_le [] = 0"
| "from_le (b # bs) = or (ucast b) (push_bit 8 (from_le bs))"

definition u64_to_le_bytes :: "u64 \<Rightarrow> bytes" where
  "u64_to_le_bytes x = to_le 8 x"

section \<open>Streams\<close>

datatype stream_end = Ends string | Silent

record stream =
  st_input :: bytes
  st_end :: stream_end
  st_write_error :: "string option"
  st_output :: bytes
  st_peer :: "bytes \<Rightarrow> bytes \<Rightarrow> bytes"

datatype 'a io = Waits | Crashes | Completes 'a

definition read_exact :: "nat \<Rightarrow> stream \<Rightarrow> ((bytes \<times> stream, string) result) io" where
  "read_exact n s =
     (if n \<le> length (st_input s)
      then Completes (Ok (take n (st_input s), s\<lparr>st_input := drop n (st_input s)\<rparr>))
      else case st_end s of Ends e \<Rightarrow> Completes (Err e) | Silent \<Rightarrow> Waits)"

text \<open>\<^verbatim>\<open>write_all\<close> followed by \<^verbatim>\<open>flush\<close>.\<close>

definition write_flush :: "bytes \<Rightarrow> stream \<Rightarrow> (stream, string) result" where
  "write_flush bs s =
     (case st_write_error s of
        Some e \<Rightarrow> Err e
      | None \<Rightarrow> Ok (s\<lparr>st_output := st_output s @ bs, st_input := st_input s @ st_peer s (st_output s) bs\<rparr>))"

section \<open>Frames\<close>

datatype message_header =
    Heartbeat
  | Query (query_tag: string) (query_version: u32) (query_id: u64)
  | Response (response_id: u64)

record rpc_codec =
  header_write :: "message_header \<Rightarrow> bytes"
  header_read :: "bytes \<Rightarrow> (message_header \<times> bytes, string) result"
  alloc_ok :: "nat \<Rightarrow> bool"

text \<open>A method: its name and version, its query in \<^verbatim>\<open>NeedsLength\<close> form, and its response, which is
  the value or the kernel's error.\<close>

record ('q, 'r) rpc_method =
  rm_name :: string
  rm_version :: u32
  query_write :: "'q \<Rightarrow> bytes"
  response_read :: "bytes \<Rightarrow> (('r, unit) result \<times> bytes, string) result"

definition HANDSHAKE_ID :: u64 where
  "HANDSHAKE_ID = from_le [0x52, 0x50, 0x43, 0, 0, 0, 0, 0]"

definition QUERY_ID :: u64 where
  "QUERY_ID = 1"

definition frame :: "rpc_codec \<Rightarrow> message_header \<Rightarrow> bytes \<Rightarrow> bytes" where
  "frame K hdr payload =
     (let body = header_write K hdr @ payload
      in u64_to_le_bytes (of_nat (length body)) @ body)"

definition handshake_bytes :: "rpc_codec \<Rightarrow> bytes" where
  "handshake_bytes K = frame K (Response HANDSHAKE_ID) [1]"

definition query_bytes :: "rpc_codec \<Rightarrow> ('q, 'r) rpc_method \<Rightarrow> 'q \<Rightarrow> u64 \<Rightarrow> bytes" where
  "query_bytes K M q i = frame K (Query (rm_name M) (rm_version M) i) (query_write M q)"

section \<open>Connections\<close>

record rpc_conn =
  conn_stream :: stream
  next_id :: u64

definition open_conn :: "rpc_codec \<Rightarrow> stream \<Rightarrow> (rpc_conn, string) result" where
  "open_conn K s =
     and_then (write_flush (handshake_bytes K) s) (\<lambda>s'. Ok \<lparr>conn_stream = s', next_id = QUERY_ID\<rparr>)"

text \<open>One frame: the length, a buffer of that length (\<^verbatim>\<open>vec!\<close> panics beyond \<^verbatim>\<open>isize::MAX\<close>, and the
  allocator may fail below), and its contents.\<close>

definition read_frame :: "rpc_codec \<Rightarrow> stream \<Rightarrow> ((bytes \<times> stream, string) result) io" where
  "read_frame K s =
     (case read_exact 8 s of
        Waits \<Rightarrow> Waits
      | Crashes \<Rightarrow> Crashes
      | Completes (Inl e) \<Rightarrow> Completes (Err e)
      | Completes (Inr (len_buf, s1)) \<Rightarrow>
          let len = unat (from_le len_buf) in
          if 2 ^ 63 \<le> len \<or> \<not> alloc_ok K len then Crashes else read_exact len s1)"

lemma read_exact_shrinks:
  "read_exact n s = Completes (Ok (bs, s')) \<Longrightarrow>
     length (st_input s) = n + length (st_input s') \<and> st_end s' = st_end s \<and> length bs = n"
  by (auto simp: read_exact_def split: if_splits stream_end.splits)

lemma read_exact_no_crash: "read_exact n s \<noteq> Crashes"
  by (auto simp: read_exact_def split: stream_end.split)

lemma read_frame_shrinks:
  "read_frame K s = Completes (Ok (buf, s')) \<Longrightarrow> length (st_input s') < length (st_input s)"
  by (auto simp: read_frame_def Let_def split: io.splits sum.splits if_splits dest!: read_exact_shrinks)

function call_loop ::
  "rpc_codec \<Rightarrow> ('q, 'r) rpc_method \<Rightarrow> u64 \<Rightarrow> stream \<Rightarrow> (('r, string) result \<times> stream) io" where
  "call_loop K M i s =
     (case read_frame K s of
        Waits \<Rightarrow> Waits
      | Crashes \<Rightarrow> Crashes
      | Completes (Inl e) \<Rightarrow> Completes (Err e, s)
      | Completes (Inr (buf, s')) \<Rightarrow>
          (case header_read K buf of
             Inl e \<Rightarrow> Completes (Err e, s')
           | Inr (hdr, cursor) \<Rightarrow>
               if hdr = Response i then
                 Completes (and_then (response_read M cursor)
                   (\<lambda>(payload, _). map_err (\<lambda>_. ''rpc kernel error response'') payload), s')
               else call_loop K M i s'))"
  by pat_completeness auto
termination
  by (relation "measure (\<lambda>(_, _, _, s). length (st_input s))") (auto dest: read_frame_shrinks)

declare call_loop.simps [simp del]

definition call ::
  "rpc_codec \<Rightarrow> ('q, 'r) rpc_method \<Rightarrow> 'q \<Rightarrow> rpc_conn \<Rightarrow> (('r, string) result \<times> rpc_conn) io" where
  "call K M q conn =
     (let i = next_id conn in
      case add_u64 i 1 of
        None \<Rightarrow> Crashes
      | Some n \<Rightarrow>
          let conn1 = conn\<lparr>next_id := n\<rparr> in
          case write_flush (query_bytes K M q i) (conn_stream conn1) of
            Inl e \<Rightarrow> Completes (Err e, conn1)
          | Inr s1 \<Rightarrow>
              (case call_loop K M i s1 of
                 Waits \<Rightarrow> Waits
               | Crashes \<Rightarrow> Crashes
               | Completes (r, s2) \<Rightarrow> Completes (r, conn1\<lparr>conn_stream := s2\<rparr>)))"

section \<open>Best tip\<close>

record ('b, 'y) proof_carrying =
  pc_data :: 'b
  pc_proof :: 'y

definition rpc_best_tip ::
  "rpc_codec \<Rightarrow> (unit, ('b, 'y) proof_carrying option) rpc_method \<Rightarrow> stream \<Rightarrow> ('b, string) result io" where
  "rpc_best_tip K M s =
     (case open_conn K s of
        Inl e \<Rightarrow> Completes (Err e)
      | Inr conn \<Rightarrow>
          (case call K M () conn of
             Waits \<Rightarrow> Waits
           | Crashes \<Rightarrow> Crashes
           | Completes (r, _) \<Rightarrow>
               Completes (and_then (and_then r (\<lambda>resp. ok_or resp ''peer has no best tip''))
                 (\<lambda>tip. Ok (pc_data tip)))))"

end
