(* ===== verification/Socket.thy ===== *)
theory Socket
  imports Prelude
begin

text \<open>
  \<^verbatim>\<open>src/crates/mina-verify-capture/src/transport.rs\<close>, the multiplexer part: the socket wrapper that
  logs the traffic of a connection, and the yamux upgrade under Mina's own protocol name.

  A socket is its poll functions over a state (\<open>async_socket\<close>): writing and reading may be pending,
  fail, or transfer a number of bytes, and reading also fills the caller's buffer. The sockets that
  are wrapped, yamux, the logger and the hexadecimal encoding are external. The arguments of
  \<^verbatim>\<open>log::debug!\<close> are evaluated only when that level is enabled, so only then can the slice
  \<^verbatim>\<open>buf[..len]\<close> panic.
\<close>

section \<open>Sockets\<close>

record 's async_socket =
  sock_write :: "'s \<Rightarrow> bytes \<Rightarrow> (usize, string) result poll \<times> 's"
  sock_flush :: "'s \<Rightarrow> (unit, string) result poll \<times> 's"
  sock_close :: "'s \<Rightarrow> (unit, string) result poll \<times> 's"
  sock_read :: "'s \<Rightarrow> bytes \<Rightarrow> (usize, string) result poll \<times> bytes \<times> 's"

record logger =
  debug_enabled :: bool
  hex_encode :: "bytes \<Rightarrow> string"

text \<open>The wrapper has one field; the log it writes to is threaded beside it.\<close>

record 's socket_wrapper =
  inner :: 's

type_synonym 's logged = "'s socket_wrapper \<times> string list"

text \<open>The logging of a transfer: \<open>None\<close> is the panic of a slice out of range.\<close>

definition log_transfer :: "logger \<Rightarrow> string \<Rightarrow> bytes \<Rightarrow> usize \<Rightarrow> string list \<Rightarrow> string list panics" where
  "log_transfer Lg arrow buf len lines =
     (if len \<noteq> 0 \<and> debug_enabled Lg then
        if len \<le> length buf then Some (lines @ [arrow @ hex_encode Lg (take len buf)]) else None
      else Some lines)"

definition poll_write ::
  "logger \<Rightarrow> 's async_socket \<Rightarrow> bytes \<Rightarrow> 's logged \<Rightarrow> ((usize, string) result poll \<times> 's logged) panics" where
  "poll_write Lg I buf = (\<lambda>(w, lines).
     let (p, s) = sock_write I (inner w) buf; w' = w\<lparr>inner := s\<rparr> in
     case p of
       Pending \<Rightarrow> Some (Pending, w', lines)
     | Ready (Inl e) \<Rightarrow> Some (Ready (Err e), w', lines)
     | Ready (Inr len) \<Rightarrow>
         do {
           lines' \<leftarrow> log_transfer Lg ''<- '' buf len lines;
           Some (Ready (Ok len), w', lines')
         })"

definition poll_flush ::
  "'s async_socket \<Rightarrow> 's logged \<Rightarrow> (unit, string) result poll \<times> 's logged" where
  "poll_flush I = (\<lambda>(w, lines). let (p, s) = sock_flush I (inner w) in (p, w\<lparr>inner := s\<rparr>, lines))"

definition poll_close ::
  "'s async_socket \<Rightarrow> 's logged \<Rightarrow> (unit, string) result poll \<times> 's logged" where
  "poll_close I = (\<lambda>(w, lines). let (p, s) = sock_close I (inner w) in (p, w\<lparr>inner := s\<rparr>, lines))"

definition poll_read ::
  "logger \<Rightarrow> 's async_socket \<Rightarrow> bytes \<Rightarrow> 's logged \<Rightarrow>
   ((usize, string) result poll \<times> bytes \<times> 's logged) panics" where
  "poll_read Lg I buf = (\<lambda>(w, lines).
     let (p, buf', s) = sock_read I (inner w) buf; w' = w\<lparr>inner := s\<rparr> in
     case p of
       Pending \<Rightarrow> Some (Pending, buf', w', lines)
     | Ready (Inl e) \<Rightarrow> Some (Ready (Err e), buf', w', lines)
     | Ready (Inr len) \<Rightarrow>
         do {
           lines' \<leftarrow> log_transfer Lg ''-> '' buf' len lines;
           Some (Ready (Ok len), buf', w', lines')
         })"

section \<open>The multiplexer\<close>

text \<open>The upgrades hand the wrapped socket to yamux (\<open>up\<close>, its upgrade in that direction), under
  the one protocol name offered.\<close>

definition protocol_info :: "string list" where
  "protocol_info = [''/coda/yamux/1.0.0'']"

definition upgrade_inbound :: "('s socket_wrapper \<Rightarrow> string \<Rightarrow> 'f) \<Rightarrow> 's \<Rightarrow> string \<Rightarrow> 'f" where
  "upgrade_inbound up socket info = up \<lparr>inner = socket\<rparr> info"

definition upgrade_outbound :: "('s socket_wrapper \<Rightarrow> string \<Rightarrow> 'f) \<Rightarrow> 's \<Rightarrow> string \<Rightarrow> 'f" where
  "upgrade_outbound up socket info = up \<lparr>inner = socket\<rparr> info"

section \<open>What the multiplexer sees\<close>

text \<open>A user of a socket makes calls and gets answers, both through the wrapper and on the bare
  socket.\<close>

datatype socket_call = Write bytes | Flush | Close | Read bytes

datatype socket_reply =
    Transferred "(usize, string) result poll" bytes
  | Finished "(unit, string) result poll"

fun bare_call :: "'s async_socket \<Rightarrow> socket_call \<Rightarrow> 's \<Rightarrow> socket_reply \<times> 's" where
  "bare_call I (Write buf) s = (let (p, s') = sock_write I s buf in (Transferred p buf, s'))"
| "bare_call I Flush s = (let (p, s') = sock_flush I s in (Finished p, s'))"
| "bare_call I Close s = (let (p, s') = sock_close I s in (Finished p, s'))"
| "bare_call I (Read buf) s = (let (p, buf', s') = sock_read I s buf in (Transferred p buf', s'))"

fun wrapped_call ::
  "logger \<Rightarrow> 's async_socket \<Rightarrow> socket_call \<Rightarrow> 's logged \<Rightarrow> (socket_reply \<times> 's logged) panics" where
  "wrapped_call Lg I (Write buf) wl =
     map_option (\<lambda>(p, wl'). (Transferred p buf, wl')) (poll_write Lg I buf wl)"
| "wrapped_call Lg I Flush wl = (let (p, wl') = poll_flush I wl in Some (Finished p, wl'))"
| "wrapped_call Lg I Close wl = (let (p, wl') = poll_close I wl in Some (Finished p, wl'))"
| "wrapped_call Lg I (Read buf) wl =
     map_option (\<lambda>(p, buf', wl'). (Transferred p buf', wl')) (poll_read Lg I buf wl)"

text \<open>The user chooses each call from the replies so far; \<open>user\<close> returning \<open>None\<close> ends the session.
  Both sessions are cut after \<open>n\<close> calls.\<close>

fun bare_session ::
  "'s async_socket \<Rightarrow> (socket_reply list \<Rightarrow> socket_call option) \<Rightarrow> nat \<Rightarrow> (socket_call \<times> socket_reply) list \<Rightarrow>
   's \<Rightarrow> (socket_call \<times> socket_reply) list \<times> 's" where
  "bare_session I user 0 hist s = (hist, s)"
| "bare_session I user (Suc n) hist s =
     (case user (map snd hist) of
        None \<Rightarrow> (hist, s)
      | Some c \<Rightarrow> let (r, s') = bare_call I c s in bare_session I user n (hist @ [(c, r)]) s')"

fun wrapped_session ::
  "logger \<Rightarrow> 's async_socket \<Rightarrow> (socket_reply list \<Rightarrow> socket_call option) \<Rightarrow> nat \<Rightarrow>
   (socket_call \<times> socket_reply) list \<Rightarrow> 's logged \<Rightarrow> ((socket_call \<times> socket_reply) list \<times> 's logged) panics" where
  "wrapped_session Lg I user 0 hist wl = Some (hist, wl)"
| "wrapped_session Lg I user (Suc n) hist wl =
     (case user (map snd hist) of
        None \<Rightarrow> Some (hist, wl)
      | Some c \<Rightarrow>
          do {
            (r, wl') \<leftarrow> wrapped_call Lg I c wl;
            wrapped_session Lg I user n (hist @ [(c, r)]) wl'
          })"

text \<open>The log lines a session is due: one for each call that moved at least one byte, with the bytes
  that moved.\<close>

fun traffic_line :: "logger \<Rightarrow> socket_call \<times> socket_reply \<Rightarrow> string list" where
  "traffic_line Lg (Write _, Transferred (Ready (Inr len)) buf) =
     (if len = 0 then [] else [''<- '' @ hex_encode Lg (take len buf)])"
| "traffic_line Lg (Read _, Transferred (Ready (Inr len)) buf) =
     (if len = 0 then [] else [''-> '' @ hex_encode Lg (take len buf)])"
| "traffic_line Lg _ = []"

definition traffic :: "logger \<Rightarrow> (socket_call \<times> socket_reply) list \<Rightarrow> string list" where
  "traffic Lg hist = (if debug_enabled Lg then concat (map (traffic_line Lg) hist) else [])"

text \<open>The documented contract of a socket: no more bytes are transferred than the buffer holds. (The
  length of the buffer itself is fixed by its type.)\<close>

definition honest_socket :: "'s async_socket \<Rightarrow> bool" where
  "honest_socket I \<longleftrightarrow>
     (\<forall>s buf len. fst (sock_write I s buf) = Ready (Ok len) \<longrightarrow> len \<le> length buf) \<and>
     (\<forall>s buf len. fst (sock_read I s buf) = Ready (Ok len) \<longrightarrow> len \<le> length (fst (snd (sock_read I s buf))))"

text \<open>A sample socket: its state is what is left to read and what was written; it takes two bytes at a
  time and is pending when nothing is left to read.\<close>

definition sample_socket :: "(bytes \<times> bytes) async_socket" where
  "sample_socket =
     \<lparr>sock_write = (\<lambda>(i, out) buf. (Ready (Ok (min 2 (length buf))), i, out @ take 2 buf)),
      sock_flush = (\<lambda>s. (Ready (Ok ()), s)),
      sock_close = (\<lambda>s. (Ready (Err ''closed''), s)),
      sock_read = (\<lambda>(i, out) buf.
        let k = min (length i) (length buf) in
        if k = 0 then (Pending, buf, i, out)
        else (Ready (Ok k), take k i @ drop k buf, drop k i, out))\<rparr>"

definition sample_logger :: logger where
  "sample_logger = \<lparr>debug_enabled = True, hex_encode = map (\<lambda>b. char_of (48 + unat b mod 10))\<rparr>"

definition sample_user :: "socket_reply list \<Rightarrow> socket_call option" where
  "sample_user rs =
     (if length rs = 0 then Some (Write [1, 2, 3])
      else if length rs = 1 then
        (case last rs of Transferred (Ready (Inr k)) buf \<Rightarrow> Some (Write (drop k buf)) | _ \<Rightarrow> None)
      else if length rs < 4 then Some (Read [0, 0]) else None)"

section \<open>Lemmas\<close>

lemma traffic_Nil [simp]: "traffic Lg [] = []"
  by (simp add: traffic_def)

lemma traffic_append: "traffic Lg (hist @ hist') = traffic Lg hist @ traffic Lg hist'"
  by (simp add: traffic_def)

lemma wrapped_call_bare:
  assumes "debug_enabled Lg \<longrightarrow> honest_socket I"
  shows "wrapped_call Lg I c (\<lparr>inner = s\<rparr>, lines) =
    (let (r, s') = bare_call I c s in Some (r, \<lparr>inner = s'\<rparr>, lines @ traffic Lg [(c, r)]))"
proof (cases c)
  case (Write buf)
  have "debug_enabled Lg \<Longrightarrow> len \<le> length buf" if "sock_write I s buf = (Ready (Ok len), s')" for len s'
    using assms that by (auto simp: honest_socket_def dest: arg_cong [of _ _ fst])
  then show ?thesis
    by (auto simp: Write poll_write_def traffic_def log_transfer_def Let_def split: prod.split poll.split sum.split)
next
  case (Read buf)
  have "debug_enabled Lg \<Longrightarrow> len \<le> length buf'" if "sock_read I s buf = (Ready (Ok len), buf', s')" for len buf' s'
    using assms that by (metis fst_conv honest_socket_def snd_conv)
  then show ?thesis
    by (auto simp: Read poll_read_def traffic_def log_transfer_def Let_def split: prod.split poll.split sum.split)
qed (simp_all add: poll_flush_def poll_close_def traffic_def split: prod.split)

text \<open>C38. The logging wrapper is invisible to the multiplexer: whatever sequence of polls yamux makes,
  each chosen from the replies before, a wrapped connection gives the same replies and leaves the
  socket in the same state as the bare one, and never panics; the debug log gains the bytes that
  moved, direction by direction, in order and nothing else. With the debug level off this holds for
  every socket, with it on for every socket that transfers no more than the buffer it was given.\<close>

theorem socket_wrapper_transparent:
  assumes "debug_enabled Lg \<longrightarrow> honest_socket I"
  shows "wrapped_session Lg I user n [] (\<lparr>inner = s\<rparr>, lines) =
    (let (hist, s') = bare_session I user n [] s in Some (hist, \<lparr>inner = s'\<rparr>, lines @ traffic Lg hist))"
proof -
  have "wrapped_session Lg I user n hist0 (\<lparr>inner = s\<rparr>, lines @ traffic Lg hist0) =
      (let (hist, s') = bare_session I user n hist0 s in Some (hist, \<lparr>inner = s'\<rparr>, lines @ traffic Lg hist))"
    for hist0
    by (induction n arbitrary: hist0 s)
      (auto simp: wrapped_call_bare [OF assms] traffic_append [symmetric] split: prod.split option.split)
  from this [of "[]"] show ?thesis by simp
qed

theorem socket_wrapper_transparent_witness:
  "wrapped_session sample_logger sample_socket sample_user 9 [] (\<lparr>inner = ([7, 8], [])\<rparr>, [''start'']) =
    Some ([(Write [1, 2, 3], Transferred (Ready (Ok 2)) [1, 2, 3]), (Write [3], Transferred (Ready (Ok 1)) [3]),
           (Read [0, 0], Transferred (Ready (Ok 2)) [7, 8]), (Read [0, 0], Transferred Pending [0, 0])],
      \<lparr>inner = ([], [1, 2, 3])\<rparr>, [''start'', ''<- 12'', ''<- 3'', ''-> 78''])"
proof -
  have "honest_socket sample_socket"
    by (auto simp: honest_socket_def sample_socket_def Let_def split: if_splits)
  note run = socket_wrapper_transparent [OF impI, OF this, of sample_logger sample_user 9 "([7, 8], [])" "[''start'']"]
  show ?thesis unfolding run by code_simp
qed

end
