(* ===== verification/Transport.thy ===== *)
theory Transport
  imports Socket
begin

text \<open>
  \<^verbatim>\<open>src/crates/mina-verify-capture/src/transport.rs\<close>: building the swarm. The private-network key is the
  Blake2b hash of the bytes passed in (the clients prepend the Mina prefix to the chain id); the layers
  of the transport are put on top of each other as the code does, as a term of the type \<open>transport\<close>;
  then every listen address is listened on and every peer is dialled, each with \<^verbatim>\<open>unwrap\<close>, in order.
  What the layers do is libp2p's; the hash, the noise set-up for a fresh identity (which the code
  expects to succeed) and the parsing of multiaddresses are the fields of \<open>transport_env\<close>. The socket
  wrapper is in the theory \<open>Socket\<close>.

  Strings stand for their bytes, durations are in seconds.
\<close>

section \<open>The transport\<close>

record ('m, 'i) transport_env =
  parse_multiaddr :: "string \<Rightarrow> 'm option"
  p2p_ids :: "'m \<Rightarrow> 'i list"
  blake2b_32 :: "string \<Rightarrow> bytes"
  noise_config_ok :: bool
  listen_ok :: "'m \<Rightarrow> bool"
  dial_ok :: "'m \<Rightarrow> bool"

datatype dns_resolver = Cloudflare | SystemResolver

datatype transport =
    Tcp (nodelay: bool)
  | PnetHandshake bytes transport
  | UpgradeV1 transport
  | AuthenticateNoise transport
  | MultiplexYamux "string list" transport
  | WithTimeout nat transport
  | CustomDns dns_resolver transport

record 'm libp2p_swarm =
  sw_transport :: transport
  sw_idle_timeout :: nat
  sw_listening :: "'m list"
  sw_dialled :: "'m list"

definition pnet_key :: "('m, 'i) transport_env \<Rightarrow> string \<Rightarrow> bytes" where
  "pnet_key T chain_id = blake2b_32 T chain_id"

definition base_transport :: "('m, 'i) transport_env \<Rightarrow> string \<Rightarrow> transport panics" where
  "base_transport T chain_id =
     (if noise_config_ok T then
        Some (WithTimeout 20 (MultiplexYamux protocol_info (AuthenticateNoise (UpgradeV1
          (PnetHandshake (pnet_key T chain_id) (Tcp True))))))
      else None)"

fun listen_all :: "('m, 'i) transport_env \<Rightarrow> 'm list \<Rightarrow> 'm libp2p_swarm \<Rightarrow> 'm libp2p_swarm panics" where
  "listen_all T [] sw = Some sw"
| "listen_all T (a # as) sw =
     (if listen_ok T a then listen_all T as (sw\<lparr>sw_listening := sw_listening sw @ [a]\<rparr>) else None)"

fun dial_all :: "('m, 'i) transport_env \<Rightarrow> 'm list \<Rightarrow> 'm libp2p_swarm \<Rightarrow> 'm libp2p_swarm panics" where
  "dial_all T [] sw = Some sw"
| "dial_all T (a # as) sw =
     (if dial_ok T a then dial_all T as (sw\<lparr>sw_dialled := sw_dialled sw @ [a]\<rparr>) else None)"

definition swarm ::
  "('m, 'i) transport_env \<Rightarrow> string \<Rightarrow> 'm list \<Rightarrow> 'm list \<Rightarrow> 'm libp2p_swarm panics" where
  "swarm T chain_id listen_on peers =
     do {
       base \<leftarrow> base_transport T chain_id;
       sw \<leftarrow> listen_all T listen_on
         \<lparr>sw_transport = CustomDns Cloudflare base, sw_idle_timeout = 300, sw_listening = [], sw_dialled = []\<rparr>;
       dial_all T peers sw
     }"

text \<open>The start of the clients: \<^verbatim>\<open>parse().expect(...)\<close> on every peer, then the swarm for the prefixed
  chain id, listening on nothing.\<close>

definition parse_peers :: "('m, 'i) transport_env \<Rightarrow> string list \<Rightarrow> 'm list panics" where
  "parse_peers T peers = those (map (parse_multiaddr T) peers)"

definition client_swarm ::
  "('m, 'i) transport_env \<Rightarrow> string \<Rightarrow> string list \<Rightarrow> ('m list \<times> 'm libp2p_swarm) panics" where
  "client_swarm T chain_id peers =
     do {
       addrs \<leftarrow> parse_peers T peers;
       sw \<leftarrow> swarm T (''/coda/0.0.1/'' @ chain_id) [] addrs;
       Some (addrs, sw)
     }"

section \<open>Lemmas\<close>

lemma dial_all_Some_iff:
  "dial_all T as sw = Some sw' \<longleftrightarrow> list_all (dial_ok T) as \<and> sw' = sw\<lparr>sw_dialled := sw_dialled sw @ as\<rparr>"
  by (induction as arbitrary: sw) auto

text \<open>The swarm a client gets when all goes well: the transport with the network's own key, nothing
  listened on, every peer dialled once, in order.\<close>

definition client_transport :: "('m, 'i) transport_env \<Rightarrow> string \<Rightarrow> transport" where
  "client_transport T chain_id =
     CustomDns Cloudflare (WithTimeout 20 (MultiplexYamux protocol_info (AuthenticateNoise (UpgradeV1
       (PnetHandshake (pnet_key T (''/coda/0.0.1/'' @ chain_id)) (Tcp True))))))"

definition dialling_swarm :: "('m, 'i) transport_env \<Rightarrow> string \<Rightarrow> 'm list \<Rightarrow> 'm libp2p_swarm" where
  "dialling_swarm T chain_id addrs =
     \<lparr>sw_transport = client_transport T chain_id, sw_idle_timeout = 300, sw_listening = [], sw_dialled = addrs\<rparr>"

text \<open>It is built exactly when every address parses and can be dialled, and noise can be set up.\<close>

lemma client_swarm_Some_iff:
  "client_swarm T chain_id peers = Some (addrs, sw) \<longleftrightarrow>
     map (parse_multiaddr T) peers = map Some addrs \<and> list_all (dial_ok T) addrs \<and> noise_config_ok T \<and>
     sw = dialling_swarm T chain_id addrs"
  by (auto simp: client_swarm_def parse_peers_def swarm_def those_Some_iff dial_all_Some_iff base_transport_def
      client_transport_def dialling_swarm_def bind_eq_Some_conv)

text \<open>Clients of two networks get the same transport, and so can talk to each other at all, exactly when
  the hashes of the prefixed chain ids agree.\<close>

lemma client_transport_eq_iff:
  "client_transport T chain_id = client_transport T chain_id' \<longleftrightarrow>
     blake2b_32 T (''/coda/0.0.1/'' @ chain_id) = blake2b_32 T (''/coda/0.0.1/'' @ chain_id')"
  by (simp add: client_transport_def pnet_key_def)

end
