(* ===== verification/RpcNet.thy ===== *)
theory RpcNet
  imports RpcWire Transport
begin

text \<open>
  \<^verbatim>\<open>src/crates/mina-verify-capture/src/rpc_net.rs\<close>: the connection handler that opens one outbound RPC
  substream per connection, the behaviour that surfaces the opened streams, and the two fetch
  functions that run over the first of them.

  libp2p drives the two through their callbacks. A schedule is the sequence of its actions, each on the
  state \<open>rpc_swarm\<close>: the handlers of the live connections, the behaviour, and libp2p's own record of the
  connections made, of the substream requests (all, and those still under way), of the streams
  negotiated and of those \<^verbatim>\<open>swarm.next()\<close> has yielded. An action that libp2p cannot take in a state
  (polling a connection that is not there, negotiating a stream nobody asked for, reusing a connection
  id) leaves the state as it is.
\<close>

section \<open>Handler and behaviour\<close>

definition RPC_PROTOCOL :: string where
  "RPC_PROTOCOL = ''coda/rpcs/0.0.1''"

datatype 's handler_event = OutboundSubstreamRequest string | NotifyBehaviour 's

datatype 's connection_event = FullyNegotiatedOutbound 's | OtherConnectionEvent

record 's rpc_handler =
  requested :: bool
  ready :: "'s list"

record 's rpc_behaviour =
  streams :: "'s list"

definition handler_default :: "'s rpc_handler" where
  "handler_default = \<lparr>requested = False, ready = []\<rparr>"

definition handler_poll :: "'s rpc_handler \<Rightarrow> 's handler_event poll \<times> 's rpc_handler" where
  "handler_poll h =
     (if \<not> requested h then (Ready (OutboundSubstreamRequest RPC_PROTOCOL), h\<lparr>requested := True\<rparr>)
      else case ready h of
          s # ss \<Rightarrow> (Ready (NotifyBehaviour s), h\<lparr>ready := ss\<rparr>)
        | [] \<Rightarrow> (Pending, h))"

fun on_connection_event :: "'s connection_event \<Rightarrow> 's rpc_handler \<Rightarrow> 's rpc_handler" where
  "on_connection_event (FullyNegotiatedOutbound s) h = h\<lparr>ready := ready h @ [s]\<rparr>"
| "on_connection_event OtherConnectionEvent h = h"

text \<open>Inbound and outbound connections get the same handler.\<close>

definition handle_established_connection :: "'s rpc_behaviour \<Rightarrow> 's rpc_handler" where
  "handle_established_connection b = handler_default"

definition on_connection_handler_event :: "'s \<Rightarrow> 's rpc_behaviour \<Rightarrow> 's rpc_behaviour" where
  "on_connection_handler_event s b = b\<lparr>streams := streams b @ [s]\<rparr>"

definition behaviour_poll :: "'s rpc_behaviour \<Rightarrow> 's poll \<times> 's rpc_behaviour" where
  "behaviour_poll b =
     (case streams b of
        s # ss \<Rightarrow> (Ready s, b\<lparr>streams := ss\<rparr>)
      | [] \<Rightarrow> (Pending, b))"

text \<open>The two queues of streams. A handler hands out a stream only after it has asked for one.\<close>

definition handler_pop :: "'s rpc_handler \<Rightarrow> 's poll \<times> 's rpc_handler" where
  "handler_pop h =
     (case handler_poll h of (Ready (NotifyBehaviour s), h') \<Rightarrow> (Ready s, h') | (_, h') \<Rightarrow> (Pending, h'))"

interpretation ready_streams: fifo ready "\<lambda>s. on_connection_event (FullyNegotiatedOutbound s)" handler_pop requested
  by unfold_locales (auto simp: handler_pop_def handler_poll_def)

interpretation surfaced_streams: fifo streams on_connection_handler_event behaviour_poll "\<lambda>_. True"
  by unfold_locales (auto simp: on_connection_handler_event_def behaviour_poll_def)

section \<open>The swarm\<close>

record ('c, 's) rpc_swarm =
  handlers :: "'c \<Rightarrow> 's rpc_handler option"
  behaviour :: "'s rpc_behaviour"
  connections :: "'c list"
  requests :: "'c list"
  under_way :: "'c list"
  negotiated :: "('c \<times> 's) list"
  yielded :: "'s list"

datatype ('c, 's) net_event =
    Established 'c
  | PollHandler 'c
  | Negotiated 'c 's
  | NegotiationFailed 'c
  | Closed 'c
  | PollBehaviour

definition net_start :: "('c, 's) rpc_swarm" where
  "net_start =
     \<lparr>handlers = \<lambda>_. None, behaviour = \<lparr>streams = []\<rparr>, connections = [], requests = [], under_way = [],
      negotiated = [], yielded = []\<rparr>"

definition poll_connection :: "'c \<Rightarrow> 's rpc_handler \<Rightarrow> ('c, 's) rpc_swarm \<Rightarrow> ('c, 's) rpc_swarm" where
  "poll_connection c h sw =
     (case handler_poll h of
        (Pending, h') \<Rightarrow> sw\<lparr>handlers := (handlers sw)(c \<mapsto> h')\<rparr>
      | (Ready (OutboundSubstreamRequest protocol), h') \<Rightarrow>
          sw\<lparr>handlers := (handlers sw)(c \<mapsto> h'), requests := requests sw @ [c],
             under_way := under_way sw @ [c]\<rparr>
      | (Ready (NotifyBehaviour s), h') \<Rightarrow>
          sw\<lparr>handlers := (handlers sw)(c \<mapsto> h'),
             behaviour := on_connection_handler_event s (behaviour sw)\<rparr>)"

fun net_step :: "('c, 's) net_event \<Rightarrow> ('c, 's) rpc_swarm \<Rightarrow> ('c, 's) rpc_swarm" where
  "net_step (Established c) sw =
     (if c \<in> set (connections sw) then sw
      else sw\<lparr>handlers := (handlers sw)(c \<mapsto> handle_established_connection (behaviour sw)),
              connections := connections sw @ [c]\<rparr>)"
| "net_step (PollHandler c) sw =
     (case handlers sw c of None \<Rightarrow> sw | Some h \<Rightarrow> poll_connection c h sw)"
| "net_step (Negotiated c s) sw =
     (case handlers sw c of
        None \<Rightarrow> sw
      | Some h \<Rightarrow>
          if c \<in> set (under_way sw)
          then sw\<lparr>handlers := (handlers sw)(c \<mapsto> on_connection_event (FullyNegotiatedOutbound s) h),
                  under_way := remove1 c (under_way sw), negotiated := negotiated sw @ [(c, s)]\<rparr>
          else sw)"
| "net_step (NegotiationFailed c) sw =
     (case handlers sw c of
        None \<Rightarrow> sw
      | Some h \<Rightarrow>
          sw\<lparr>handlers := (handlers sw)(c \<mapsto> on_connection_event OtherConnectionEvent h),
             under_way := remove1 c (under_way sw)\<rparr>)"
| "net_step (Closed c) sw = sw\<lparr>handlers := (handlers sw)(c := None)\<rparr>"
| "net_step PollBehaviour sw =
     (case behaviour_poll (behaviour sw) of
        (Pending, b) \<Rightarrow> sw\<lparr>behaviour := b\<rparr>
      | (Ready s, b) \<Rightarrow> sw\<lparr>behaviour := b, yielded := yielded sw @ [s]\<rparr>)"

definition net_run :: "('c, 's) net_event list \<Rightarrow> ('c, 's) rpc_swarm \<Rightarrow> ('c, 's) rpc_swarm" where
  "net_run evs sw = fold net_step evs sw"

text \<open>The fetch functions take the first stream \<^verbatim>\<open>swarm.next()\<close> yields and go on polling the swarm,
  ignoring what else it yields.\<close>

definition first_stream :: "('c, 's) net_event list \<Rightarrow> 's option" where
  "first_stream evs =
     (case yielded (net_run evs net_start) of [] \<Rightarrow> None | s # _ \<Rightarrow> Some s)"

section \<open>Fetching\<close>

text \<open>What libp2p does with a swarm before a deadline (in seconds) is external.\<close>

type_synonym ('m, 'c) libp2p = "'m libp2p_swarm \<Rightarrow> nat \<Rightarrow> ('c, stream) net_event list"

definition with_deadline :: "string \<Rightarrow> ('a, string) result io \<Rightarrow> ('a, string) result panics" where
  "with_deadline msg r =
     (case r of Waits \<Rightarrow> Some (Err msg) | Crashes \<Rightarrow> None | Completes x \<Rightarrow> Some x)"

definition on_stream ::
  "('m, 'i) transport_env \<Rightarrow> ('m, 'c) libp2p \<Rightarrow> string \<Rightarrow> string list \<Rightarrow> nat \<Rightarrow> string \<Rightarrow>
   (stream \<Rightarrow> ('a, string) result io) \<Rightarrow> ('a, string) result panics" where
  "on_stream T P chain_id peers deadline msg run =
     (case client_swarm T chain_id peers of
        None \<Rightarrow> None
      | Some (addrs, sw) \<Rightarrow>
          (case first_stream (P sw deadline) of
             None \<Rightarrow> Some (Err msg)
           | Some s \<Rightarrow> with_deadline msg (run s)))"

definition fetch_best_tip ::
  "('m, 'i) transport_env \<Rightarrow> ('m, 'c) libp2p \<Rightarrow> rpc_codec \<Rightarrow>
   (unit, ('b, 'y) proof_carrying option) rpc_method \<Rightarrow> string \<Rightarrow> string list \<Rightarrow> nat \<Rightarrow>
   ('b, string) result panics" where
  "fetch_best_tip T P K M chain_id peers deadline =
     on_stream T P chain_id peers deadline ''deadline reached before fetching best tip'' (rpc_best_tip K M)"

text \<open>The walk over the queries on one connection.\<close>

fun ledger_walk ::
  "rpc_codec \<Rightarrow> ('k \<times> 'q, ('ans, string) result) rpc_method \<Rightarrow> 'k \<Rightarrow> 'q list \<Rightarrow> 'ans list \<Rightarrow> rpc_conn \<Rightarrow>
   ('ans list, string) result io" where
  "ledger_walk K M root [] answers conn = Completes (Ok answers)"
| "ledger_walk K M root (q # qs) answers conn =
     (case call K M (root, q) conn of
        Waits \<Rightarrow> Waits
      | Crashes \<Rightarrow> Crashes
      | Completes (r, conn') \<Rightarrow>
          (case and_then r (map_err (\<lambda>e. ''sync-ledger rpc error: '' @ e)) of
             Inl e \<Rightarrow> Completes (Err e)
           | Inr a \<Rightarrow> ledger_walk K M root qs (answers @ [a]) conn'))"

definition ledger_session ::
  "rpc_codec \<Rightarrow> ('k \<times> 'q, ('ans, string) result) rpc_method \<Rightarrow> 'k \<Rightarrow> 'q list \<Rightarrow> stream \<Rightarrow>
   ('ans list, string) result io" where
  "ledger_session K M root queries s =
     (case open_conn K s of
        Inl e \<Rightarrow> Completes (Err e)
      | Inr conn \<Rightarrow> ledger_walk K M root queries [] conn)"

definition fetch_sync_ledger_answers ::
  "('m, 'i) transport_env \<Rightarrow> ('m, 'c) libp2p \<Rightarrow> rpc_codec \<Rightarrow>
   ('k \<times> 'q, ('ans, string) result) rpc_method \<Rightarrow> string \<Rightarrow> string list \<Rightarrow> 'k \<Rightarrow> 'q list \<Rightarrow> nat \<Rightarrow>
   ('ans list, string) result panics" where
  "fetch_sync_ledger_answers T P K M chain_id peers root queries deadline =
     on_stream T P chain_id peers deadline ''deadline reached before sync-ledger answers''
       (ledger_session K M root queries)"

section \<open>What the swarm keeps\<close>

text \<open>One stream per connection: a connection asks for at most one substream, so at most one is
  negotiated on it; a stream is in one place only, the handler of its connection, the queue of the
  behaviour or among those yielded.\<close>

definition handler_ok :: "('c, 's) rpc_swarm \<Rightarrow> ('c \<times> 's) list \<Rightarrow> 'c \<Rightarrow> 's rpc_handler \<Rightarrow> bool" where
  "handler_ok sw taken c h \<longleftrightarrow> (requested h \<longleftrightarrow> c \<in> set (requests sw)) \<and>
     (ready h = [] \<or> (\<exists>s. ready h = [s] \<and> (c, s) \<in> set (negotiated sw) \<and> c \<notin> fst ` set taken))"

definition swarm_inv :: "('c \<times> 's) list \<Rightarrow> ('c, 's) rpc_swarm \<Rightarrow> bool" where
  "swarm_inv taken sw \<longleftrightarrow>
     distinct (requests sw) \<and> distinct (under_way sw) \<and> distinct (map fst (negotiated sw)) \<and>
     set (requests sw) \<subseteq> set (connections sw) \<and> dom (handlers sw) \<subseteq> set (connections sw) \<and>
     set (under_way sw) \<subseteq> set (requests sw) \<and> fst ` set (negotiated sw) \<subseteq> set (requests sw) \<and>
     set (under_way sw) \<inter> fst ` set (negotiated sw) = {} \<and>
     yielded sw @ streams (behaviour sw) = map snd taken \<and> distinct (map fst taken) \<and>
     set taken \<subseteq> set (negotiated sw) \<and>
     (\<forall>c h. handlers sw c = Some h \<longrightarrow> handler_ok sw taken c h)"

definition swarm_ok :: "('c, 's) rpc_swarm \<Rightarrow> bool" where
  "swarm_ok sw \<longleftrightarrow> (\<exists>taken. swarm_inv taken sw)"

lemma poll_connection_cases:
  "poll_connection c h sw =
     (if \<not> requested h then
        sw\<lparr>handlers := (handlers sw)(c \<mapsto> h\<lparr>requested := True\<rparr>), requests := requests sw @ [c],
           under_way := under_way sw @ [c]\<rparr>
      else case ready h of
          [] \<Rightarrow> sw\<lparr>handlers := (handlers sw)(c \<mapsto> h)\<rparr>
        | s # ss \<Rightarrow>
            sw\<lparr>handlers := (handlers sw)(c \<mapsto> h\<lparr>ready := ss\<rparr>),
               behaviour := \<lparr>streams = streams (behaviour sw) @ [s]\<rparr>\<rparr>)"
  by (auto simp: poll_connection_def handler_poll_def on_connection_handler_event_def split: list.split)

lemma request_inv:
  assumes inv: "swarm_inv taken sw" and h: "handlers sw c = Some h" and "\<not> requested h"
  shows "swarm_inv taken (sw\<lparr>handlers := (handlers sw)(c \<mapsto> h\<lparr>requested := True\<rparr>),
    requests := requests sw @ [c], under_way := under_way sw @ [c]\<rparr>)"
proof -
  have "handler_ok sw taken c h" using inv h by (simp add: swarm_inv_def)
  then have new: "c \<notin> set (requests sw)" "ready h = []"
    using assms(3) inv by (force simp: handler_ok_def swarm_inv_def)+
  have "c \<in> set (connections sw)" using inv h by (auto simp: swarm_inv_def)
  with inv new show ?thesis
    by (auto simp: swarm_inv_def handler_ok_def)
qed

lemma notify_inv:
  assumes inv: "swarm_inv taken sw" and h: "handlers sw c = Some h" and "requested h" and r: "ready h = s # ss"
  shows "swarm_inv (taken @ [(c, s)]) (sw\<lparr>handlers := (handlers sw)(c \<mapsto> h\<lparr>ready := ss\<rparr>),
    behaviour := \<lparr>streams = streams (behaviour sw) @ [s]\<rparr>\<rparr>)"
proof -
  have "handler_ok sw taken c h" using inv h by (simp add: swarm_inv_def)
  then have "ss = [] \<and> (c, s) \<in> set (negotiated sw) \<and> c \<notin> fst ` set taken \<and> c \<in> set (requests sw)"
    using r assms(3) by (auto simp: handler_ok_def)
  with inv h assms(3) show ?thesis
    by (auto simp: swarm_inv_def handler_ok_def simp flip: append_assoc)
qed

lemma negotiated_inv:
  assumes inv: "swarm_inv taken sw" and h: "handlers sw c = Some h" and c: "c \<in> set (under_way sw)"
  shows "swarm_inv taken (sw\<lparr>handlers := (handlers sw)(c \<mapsto> h\<lparr>ready := ready h @ [s]\<rparr>),
    under_way := remove1 c (under_way sw), negotiated := negotiated sw @ [(c, s)]\<rparr>)"
proof -
  have new: "c \<notin> fst ` set (negotiated sw)" "c \<in> set (requests sw)" "distinct (under_way sw)"
    using inv c by (auto simp: swarm_inv_def)
  have "handler_ok sw taken c h" using inv h by (simp add: swarm_inv_def)
  then have "ready h = []" using new(1) by (force simp: handler_ok_def)
  moreover have "c \<notin> fst ` set taken" using inv new(1) by (auto simp: swarm_inv_def)
  moreover have "c \<in> set (connections sw)" using inv h by (auto simp: swarm_inv_def)
  ultimately show ?thesis using inv new h
    by (auto simp: swarm_inv_def handler_ok_def)
qed

lemma poll_handler_inv:
  assumes inv: "swarm_inv taken sw" and h: "handlers sw c = Some h"
  shows "swarm_ok (poll_connection c h sw)"
proof (cases "requested h")
  case False
  then show ?thesis using request_inv [OF inv h] by (auto simp: poll_connection_cases swarm_ok_def)
next
  case True
  show ?thesis
  proof (cases "ready h")
    case Nil
    then show ?thesis using inv True h by (auto simp: poll_connection_cases swarm_ok_def fun_upd_idem)
  next
    case (Cons s ss)
    then show ?thesis using notify_inv [OF inv h True Cons] True by (auto simp: poll_connection_cases swarm_ok_def)
  qed
qed

text \<open>The other steps take no stream from a handler.\<close>

lemma quiet_step_inv:
  assumes "swarm_inv taken sw" and "\<nexists>c. ev = PollHandler c"
  shows "swarm_inv taken (net_step ev sw)"
proof (cases ev)
  case (Established c)
  then show ?thesis
    using assms(1) by (auto simp: swarm_inv_def handler_ok_def handle_established_connection_def handler_default_def)
next
  case (Negotiated c s)
  then show ?thesis using assms(1) negotiated_inv [OF assms(1), of c _ s] by (auto split: option.split)
next
  case (NegotiationFailed c)
  then show ?thesis
    using assms(1)
    by (auto simp: swarm_inv_def handler_ok_def fun_upd_idem dest: notin_set_remove1 split: option.split)
next
  case (Closed c)
  then show ?thesis using assms(1) by (auto simp: swarm_inv_def handler_ok_def)
next
  case PollBehaviour
  then show ?thesis
    using assms(1) by (auto simp: swarm_inv_def handler_ok_def behaviour_poll_def split: list.split)
qed (use assms(2) in simp)

lemma net_step_inv:
  assumes "swarm_ok sw"
  shows "swarm_ok (net_step ev sw)"
proof -
  obtain taken where inv: "swarm_inv taken sw" using assms by (auto simp: swarm_ok_def)
  show ?thesis
  proof (cases "\<exists>c. ev = PollHandler c")
    case True
    then show ?thesis using assms poll_handler_inv [OF inv] by (auto split: option.split)
  next
    case False
    then show ?thesis using quiet_step_inv [OF inv] by (auto simp: swarm_ok_def)
  qed
qed

interpretation rpc_net: safe_machine "\<lambda>sw. sw = net_start" "\<lambda>sw sw'. \<exists>ev. sw' = net_step ev sw" swarm_ok
proof
  show "swarm_ok sw" if "sw = net_start" for sw :: "('a, 'b) rpc_swarm"
    using that by (simp add: swarm_ok_def swarm_inv_def net_start_def)
qed (auto intro: net_step_inv)

lemma net_run_reachable:
  "reachable (\<lambda>sw. sw = net_start) (\<lambda>sw sw'. \<exists>ev. sw' = net_step ev sw) (net_run evs net_start)"
  unfolding net_run_def
  by (induction evs rule: rev_induct) (auto intro: reachable.intros)

end
