(* ===== verification/Source.thy ===== *)
theory Source
  imports Precomputed RpcNet
begin

text \<open>
  \<^verbatim>\<open>src/crates/mina-verify-monitor/src/source.rs\<close>, with the networks of
  \<^verbatim>\<open>mina-verify-capture/src/lib.rs\<close>: acquiring a block from a precomputed JSON or from a live node, and
  verifying it. Also \<^verbatim>\<open>mina-verify-wasm/src/lib.rs\<close>, whose one function is the precomputed path with
  an embedded key.
\<close>

section \<open>Networks\<close>

definition DEVNET_CHAIN_ID :: string where
  "DEVNET_CHAIN_ID = ''29936104443aaf264a7f0192ac64b1c7173198c1ed404c1bcff5e562e05eb7f6''"

definition DEVNET_PEERS :: "string list" where
  "DEVNET_PEERS =
     [''/dns4/seed-1.devnet.gcp.o1test.net/tcp/10003/p2p/12D3KooWAdgYL6hv18M3iDBdaK1dRygPivSfAfBNDzie6YqydVbs'',
      ''/dns4/seed-2.devnet.gcp.o1test.net/tcp/10003/p2p/12D3KooWLjs54xHzVmMmGYb7W5RVibqbwD1co7M2ZMfPgPm7iAag'',
      ''/dns4/seed-3.devnet.gcp.o1test.net/tcp/10003/p2p/12D3KooWEiGVAFC7curXWXiGZyMWnZK9h8BKr88U8D5PKV3dXciv'']"

definition MAINNET_CHAIN_ID :: string where
  "MAINNET_CHAIN_ID = ''a7351abc7ddf2ea92d1b38cc8e636c271c1dfd2c081c637f62ebc2af34eb7cc1''"

definition MAINNET_PEERS :: "string list" where
  "MAINNET_PEERS =
     [''/dns4/seed-1.mainnet.gcp.o1test.net/tcp/10003/p2p/12D3KooWCa1d7G3SkRxy846qTvdAFX69NnoYZ32orWVLqJcDVGHW'',
      ''/dns4/seed-2.mainnet.gcp.o1test.net/tcp/32002/p2p/12D3KooWK4NfthViCTyLgVQa1WvqDC1NccVxGruCXCZUt3GqvFvn'',
      ''/dns4/seed-3.mainnet.gcp.o1test.net/tcp/32003/p2p/12D3KooWNofeYVAJXA3WGg2qCDhs3GEe71kTmKpFQXRbZmCz1Vr7'',
      ''/dns4/seed-4.mainnet.gcp.o1test.net/tcp/10003/p2p/12D3KooWEdBiTUQqxp3jeuWaZkwiSNcFxC6d6Tdq7u2Lf2ZD2Q6X'',
      ''/dns4/seed-5.mainnet.gcp.o1test.net/tcp/32005/p2p/12D3KooWL1DJTigSwuKQRfQE3p7puFUqfbHjXbZJ9YBWtMNpr3GU'',
      ''/dns4/seed-6.mainnet.gcp.o1test.net/tcp/32006/p2p/12D3KooWHGx4u32n42ub7dJNxAcAhwiA1WDq1Zsjn3k7RsS11pE8'',
      ''/dns4/mina-mainnet-seed.staketab.com/tcp/10003/p2p/12D3KooWSDTiXcdBVpN12ZqXJ49qCFp8zB1NnovuhZu6A28GLF1J'',
      ''/dns4/production-mainnet-libp2p.minaprotocol.network/tcp/10000/p2p/12D3KooWPywsM191KGGNVGiNqN35nyyJg4W2BhhYukF6hP9YBR8q'',
      ''/dns4/seed.minaexplorer.com/tcp/8302/p2p/12D3KooWR7coZtrMHvsgsfiWq2GESYypac3i29LFGp6EpbtjxBiJ'']"

definition MESA_MUT_CHAIN_ID :: string where
  "MESA_MUT_CHAIN_ID = ''8b8ccbf273ef48aa0193ed634e69540657f0fc4292c9919a54b76a21b104abb2''"

definition MESA_MUT_PEERS :: "string list" where
  "MESA_MUT_PEERS =
     [''/ip4/57.129.147.16/tcp/8302/p2p/12D3KooWAhy6QE9Re1dJwQiU6QMooVA9hTPN2HxJsnSjBQALANFv'',
      ''/ip4/194.87.21.152/tcp/8302/p2p/12D3KooWKPYJknMVauxpvWpwt4E1SUXr9fsjAN8YaYHaCv1FTFjg'',
      ''/ip4/37.27.109.20/tcp/8302/p2p/12D3KooWBZrHAfHDvtWUqW2ngSsQfHtyHqzQzxyQEvsjZygdCV9N'',
      ''/ip4/65.21.197.119/tcp/8302/p2p/12D3KooWF2sNkn1urFsQvB9GMSQCpkMMzuYvhqcWknWK6fUdYWE7'',
      ''/ip4/65.109.53.139/tcp/8302/p2p/12D3KooWGUjdTjajTMMzz8tJfCWTLcayDaixzWYEHLaB8gQwZrsy'']"

definition network_seeds :: "string \<Rightarrow> (string \<times> string list) option" where
  "network_seeds net =
     (if net = ''devnet'' then Some (DEVNET_CHAIN_ID, DEVNET_PEERS)
      else if net = ''mainnet'' then Some (MAINNET_CHAIN_ID, MAINNET_PEERS)
      else if net = ''mesa-mut'' then Some (MESA_MUT_CHAIN_ID, MESA_MUT_PEERS)
      else None)"

section \<open>Block sources\<close>

text \<open>Durations are in seconds.\<close>

definition DEFAULT_NODE_DEADLINE :: nat where
  "DEFAULT_NODE_DEADLINE = 90"

datatype block_source = Precomputed string | Node (node_network: string) (node_deadline: nat)

definition node_source :: "string \<Rightarrow> block_source" where
  "node_source net = Node net DEFAULT_NODE_DEADLINE"

datatype source_error =
    SourceVerifier verifier_error
  | SourceUnknownNetwork string
  | SourceRpc string

fun source_error_text :: "source_error \<Rightarrow> string" where
  "source_error_text (SourceVerifier e) = verifier_error_text e"
| "source_error_text (SourceUnknownNetwork n) =
     ''no seed peers for network '' @ debug_str n @ '' (devnet|mainnet|mesa-mut)''"
| "source_error_text (SourceRpc e) = ''node RPC failed: '' @ e"

definition verify_from ::
  "('h, 'p, 'x, 'c) mina_env \<Rightarrow> ('h, 'p, 'x) json_env \<Rightarrow> ('m, 'i) transport_env \<Rightarrow> ('m, 'k) libp2p \<Rightarrow>
   rpc_codec \<Rightarrow>
   (unit, (('h, 'p, 'x) block, 'y) proof_carrying option) rpc_method \<Rightarrow> ('c, 'x) verifier \<Rightarrow> block_source \<Rightarrow>
   ('h verified_block, source_error) result panics" where
  "verify_from E J T P K M v src =
     (case src of
        Precomputed json \<Rightarrow> map_option (map_err SourceVerifier) (verify_precomputed_and_extract E J v json)
      | Node net deadline \<Rightarrow>
          (case network_seeds net of
             None \<Rightarrow> Some (Err (SourceUnknownNetwork net))
           | Some (chain_id, peers) \<Rightarrow>
               try_bind (map_option (map_err SourceRpc) (fetch_best_tip T P K M chain_id peers deadline))
                 (\<lambda>b. map_option (map_err SourceVerifier) (verify_and_extract E v (block_header b)))))"

section \<open>WebAssembly\<close>

text \<open>The result is the JSON object whose text the function returns, or the text of the error.\<close>

definition verify_precomputed ::
  "('h, 'p, 'x, 'c::linorder) mina_env \<Rightarrow> ('h, 'p, 'x) json_env \<Rightarrow> ('h \<Rightarrow> string) \<Rightarrow> ('h \<Rightarrow> string) \<Rightarrow>
   'g globals \<Rightarrow> string \<Rightarrow> string \<Rightarrow> (json, string) result panics" where
  "verify_precomputed E J state_text ledger_text g net precomputed_json =
     try_bind (Some (map_err verifier_error_text (fst (for_network_offline E net g)))) (\<lambda>v.
     try_bind (map_option (map_err verifier_error_text) (verify_precomputed_and_extract E J v precomputed_json)) (\<lambda>vb.
       Some (Ok (JObject
         [(''height'', JNumber (show_nat (unat (vb_height vb)))),
          (''stateHash'', JString (state_text (vb_state_hash vb))),
          (''previousStateHash'', JString (state_text (vb_previous_state_hash vb))),
          (''stagedLedgerHash'', JString (ledger_text (vb_staged_ledger_hash vb)))]))))"

section \<open>Lemmas\<close>

lemma map_option_map_err [result_simps]:
  "map_option (map_err g) r = Some (Ok a) \<longleftrightarrow> r = Some (Ok a)"
  by (cases r) (auto simp: result_simps)

lemma verify_from_Ok:
  assumes "verify_from E J T P K M v src = Some (Ok vb)"
  shows "\<exists>h. verify_header E v h = Some True \<and> from_header E h = Ok vb \<and>
    (case src of
       Precomputed json \<Rightarrow> header_from_precomputed J json = Ok h
     | Node net deadline \<Rightarrow> \<exists>chain_id peers b. network_seeds net = Some (chain_id, peers) \<and>
         fetch_best_tip T P K M chain_id peers deadline = Some (Ok b) \<and> h = block_header b)"
proof (cases src)
  case (Precomputed json)
  then have "through (verify_precomputed_and_extract E J v json) = Some vb"
    using assms by (simp add: verify_from_def result_simps)
  from precomputed_gate.gate_proved [OF this] show ?thesis using Precomputed by auto
next
  case (Node net deadline)
  then obtain chain_id peers b where "network_seeds net = Some (chain_id, peers)"
    "fetch_best_tip T P K M chain_id peers deadline = Some (Ok b)"
    "verify_and_extract E v (block_header b) = Some (Ok vb)"
    using assms by (auto simp: verify_from_def result_simps split: option.splits)
  then show ?thesis using Node by (auto simp: verify_and_extract_Ok_iff)
qed

text \<open>A live node's block is the payload of a response to the first query of its stream.\<close>

lemma fetch_best_tip_Ok:
  assumes "fetch_best_tip T P K M chain_id peers deadline = Some (Ok b)"
  shows "\<exists>addrs sw s. client_swarm T chain_id peers = Some (addrs, sw) \<and>
    first_stream (P sw deadline) = Some s \<and> rpc_best_tip K M s = Completes (Ok b)"
  using assms
  by (auto simp: fetch_best_tip_def on_stream_def with_deadline_def split: option.splits io.splits)

end
