(* ===== verification/Gossip.thy ===== *)
theory Gossip
  imports Server Source
begin

text \<open>
  \<^verbatim>\<open>subscribe_blocks\<close> of \<^verbatim>\<open>mina-verify-capture/src/lib.rs\<close> and the capture binary
  (\<^verbatim>\<open>mina-verify-capture/src/main.rs\<close>).

  The swarm and the timers are external: a run of the loop is the sequence of events they deliver,
  in the order \<^verbatim>\<open>select!\<close> takes them; the deadline is one of them. The callbacks act on a state of their
  own and say whether to break. What is printed to the log is left out.
\<close>

section \<open>Subscribing to blocks\<close>

datatype 'i swarm_event =
    DeadlineReached
  | Tick
  | Message bytes
  | ConnectionEstablished 'i
  | ConnectionClosed 'i
  | OutgoingConnectionError
  | OtherEvent
  | SwarmEnded

record ('s, 'm, 'i) subscription =
  sub_user :: 's
  sub_connected :: "'i set"
  sub_dialled :: "'m list"
  sub_topics :: "string list"
  sub_explicit :: "'i list"

definition CONSENSUS_TOPIC :: string where
  "CONSENSUS_TOPIC = ''coda/consensus-messages/0.0.1''"

text \<open>The tag at offset 8: zero is a new state, a block.\<close>

definition is_new_state :: "bytes \<Rightarrow> bool" where
  "is_new_state payload \<longleftrightarrow> 8 < length payload \<and> payload ! 8 = 0"

text \<open>One turn of the loop; the flag is \<^term>\<open>True\<close> for \<^verbatim>\<open>break\<close>.\<close>

fun subscribe_step ::
  "('s \<Rightarrow> bytes \<Rightarrow> 's \<times> bool) \<Rightarrow> ('s \<Rightarrow> usize \<Rightarrow> 's \<times> bool) \<Rightarrow> 'm list \<Rightarrow> 'i swarm_event \<Rightarrow>
   ('s, 'm, 'i) subscription \<Rightarrow> ('s, 'm, 'i) subscription \<times> bool" where
  "subscribe_step on_block on_tick peers DeadlineReached sub = (sub, True)"
| "subscribe_step on_block on_tick peers Tick sub =
     (let (u, brk) = on_tick (sub_user sub) (card (sub_connected sub)) in (sub\<lparr>sub_user := u\<rparr>, brk))"
| "subscribe_step on_block on_tick peers (Message payload) sub =
     (if is_new_state payload
      then let (u, brk) = on_block (sub_user sub) payload in (sub\<lparr>sub_user := u\<rparr>, brk)
      else (sub, False))"
| "subscribe_step on_block on_tick peers (ConnectionEstablished i) sub =
     (sub\<lparr>sub_connected := insert i (sub_connected sub)\<rparr>, False)"
| "subscribe_step on_block on_tick peers (ConnectionClosed i) sub =
     (sub\<lparr>sub_connected := sub_connected sub - {i}, sub_dialled := sub_dialled sub @ peers\<rparr>, False)"
| "subscribe_step on_block on_tick peers OutgoingConnectionError sub = (sub, False)"
| "subscribe_step on_block on_tick peers OtherEvent sub = (sub, False)"
| "subscribe_step on_block on_tick peers SwarmEnded sub = (sub, True)"

fun subscribe_loop ::
  "('s \<Rightarrow> bytes \<Rightarrow> 's \<times> bool) \<Rightarrow> ('s \<Rightarrow> usize \<Rightarrow> 's \<times> bool) \<Rightarrow> 'm list \<Rightarrow> 'i swarm_event list \<Rightarrow>
   ('s, 'm, 'i) subscription \<Rightarrow> ('s, 'm, 'i) subscription" where
  "subscribe_loop on_block on_tick peers [] sub = sub"
| "subscribe_loop on_block on_tick peers (ev # evs) sub =
     (case subscribe_step on_block on_tick peers ev sub of
        (sub', brk) \<Rightarrow> if brk then sub' else subscribe_loop on_block on_tick peers evs sub')"

text \<open>Before the loop: parse the peers, build the swarm, subscribe to the topic, and make every peer id
  in the addresses an explicit peer.\<close>

definition subscribe_start ::
  "('m, 'i) transport_env \<Rightarrow> string \<Rightarrow> string list \<Rightarrow> 's \<Rightarrow> ('m list \<times> ('s, 'm, 'i) subscription) panics" where
  "subscribe_start T chain_id peers u =
     do {
       (addrs, sw) \<leftarrow> client_swarm T chain_id peers;
       Some (addrs,
         \<lparr>sub_user = u, sub_connected = {}, sub_dialled = sw_dialled sw, sub_topics = [CONSENSUS_TOPIC],
          sub_explicit = concat (map (p2p_ids T) addrs)\<rparr>)
     }"

definition subscribe_blocks ::
  "('m, 'i) transport_env \<Rightarrow> ('s \<Rightarrow> bytes \<Rightarrow> 's \<times> bool) \<Rightarrow> ('s \<Rightarrow> usize \<Rightarrow> 's \<times> bool) \<Rightarrow> string \<Rightarrow>
   string list \<Rightarrow> 'i swarm_event list \<Rightarrow> 's \<Rightarrow> ('s, 'm, 'i) subscription panics" where
  "subscribe_blocks T on_block on_tick chain_id peers evs u =
     do {
       (addrs, sub) \<leftarrow> subscribe_start T chain_id peers u;
       Some (subscribe_loop on_block on_tick addrs evs sub)
     }"

section \<open>Capturing blocks\<close>

text \<open>The number of files saved and the files, in order; \<^term>\<open>None\<close> after a panic, which ends the loop.
  Whether the directory can be created and a file written is external.\<close>

type_synonym captured = "usize \<times> (string \<times> bytes) list"

record fs_env =
  create_dir_ok :: "string \<Rightarrow> bool"
  write_ok :: "string \<Rightarrow> bytes \<Rightarrow> bool"

definition save_block :: "fs_env \<Rightarrow> usize \<Rightarrow> captured panics \<Rightarrow> bytes \<Rightarrow> captured panics \<times> bool" where
  "save_block Fs want st payload =
     (case st of
        None \<Rightarrow> (None, True)
      | Some (saved, files) \<Rightarrow>
          let p = ''captured/block-'' @ show_nat saved @ ''.gossipbin'' in
          if \<not> write_ok Fs p payload then (None, True)
          else
            let saved' = saved + 1
            in (Some (saved', files @ [(p, payload)]), want \<le> saved'))"

definition no_tick :: "'s \<Rightarrow> usize \<Rightarrow> 's \<times> bool" where
  "no_tick u n = (u, False)"

definition env_number :: "os_env \<Rightarrow> string \<Rightarrow> nat \<Rightarrow> nat" where
  "env_number Os key dflt =
     (case Option.bind (env_var Os key) parse_u64 of Some n \<Rightarrow> n | None \<Rightarrow> dflt)"

definition capture_main ::
  "fs_env \<Rightarrow> ('m, 'i) transport_env \<Rightarrow> os_env \<Rightarrow> 'i swarm_event list \<Rightarrow> captured panics" where
  "capture_main Fs T Os evs =
     (if \<not> create_dir_ok Fs ''captured'' then None
      else
        let net = env_or Os ''MINA_NETWORK'' ''devnet'' in
        case network_seeds net of
          None \<Rightarrow> None
        | Some (chain_id, peers) \<Rightarrow>
            let want = env_number Os ''CAPTURE_BLOCKS'' 1
            in (case subscribe_blocks T (save_block Fs want) no_tick chain_id peers evs (Some (0, [])) of
                  None \<Rightarrow> None
                | Some sub \<Rightarrow> sub_user sub))"

end
