(* ===== verification/LiveMonitor.thy ===== *)
theory LiveMonitor
  imports Monitor Gossip
begin

text \<open>
  The live monitor (\<^verbatim>\<open>mina-verify-monitor/src/main.rs\<close>): a worker thread that verifies and ingests the
  payloads it receives over a channel, and the main thread, whose gossip loop sends them. The report the
  worker prints for a block is part of its state; the other lines on the error output are left out.

  The two threads are interleaved by \<open>live_step\<close>: a turn of the gossip loop, or the worker taking one
  payload. A worker that panicked takes nothing more and its channel is gone with what was in it; the loop
  goes on, and what it sends is dropped.
\<close>

section \<open>The report\<close>

text \<open>The symbols of the report, in UTF-8: check mark, middle dot, clockwise arrow, fork, em dash.\<close>

definition check_mark :: string where "check_mark = [CHR 0xE2, CHR 0x9C, CHR 0x93]"
definition middle_dot :: string where "middle_dot = [CHR 0xC2, CHR 0xB7]"
definition cycle_arrow :: string where "cycle_arrow = [CHR 0xE2, CHR 0x9F, CHR 0xB3]"
definition fork_sign :: string where "fork_sign = [CHR 0xE2, CHR 0x91, CHR 0x82]"
definition em_dash :: string where "em_dash = [CHR 0xE2, CHR 0x80, CHR 0x94]"

definition depth_text :: "u32 option \<Rightarrow> string" where
  "depth_text depth = (case depth of Some d \<Rightarrow> show_nat (unat d) | None \<Rightarrow> ''?'')"

definition ancestor_text :: "string option \<Rightarrow> string" where
  "ancestor_text common = (case common of Some c \<Rightarrow> c | None \<Rightarrow> ''<unknown>'')"

fun report_line :: "'h ingest_outcome \<Rightarrow> string" where
  "report_line Genesis = ''first verified tip '' @ em_dash @ '' best''"
| "report_line (Extend h) = check_mark @ '' extends best''"
| "report_line Duplicate = middle_dot @ '' duplicate''"
| "report_line (Behind h) = middle_dot @ '' behind best (orphan/older)''"
| "report_line (Reorg from common depth) =
     cycle_arrow @ '' REORG to new best (rolled back '' @ depth_text depth @ '', diverged at '' @
     ancestor_text common @ '')''"
| "report_line (Fork common) =
     fork_sign @ '' FORK competing branch (diverged at '' @ ancestor_text common @ '')''"
| "report_line Unlinked = ''? unlinked (ancestor outside window)''"

definition report :: "u32 \<Rightarrow> 'h ingest_outcome \<Rightarrow> string" where
  "report height outcome =
     ''  '' @ check_mark @ '' verified h'' @ show_nat (unat height) @ '' '' @ em_dash @ '' '' @ report_line outcome"

section \<open>The worker\<close>

record ('h, 'x) worker =
  wk_monitor :: "('h, 'x) chain_monitor"
  wk_ingested :: u64
  wk_rejected :: u64
  wk_reports :: "string list"

definition worker_step ::
  "('h, 'p, 'x, 'c) mina_env \<Rightarrow> ('h, 'p, 'x) wire_env \<Rightarrow> ('h, 'x) consensus_env \<Rightarrow> ('c, 'x) verifier \<Rightarrow>
   bytes \<Rightarrow> ('h, 'x) worker \<Rightarrow> ('h, 'x) worker run" where
  "worker_step E W C v payload wk =
     (case block_from_gossip_payload W payload of
        Inl e \<Rightarrow> Returns wk
      | Inr b \<Rightarrow>
          (case verify_tip E v b of
             None \<Rightarrow> Panics
           | Some (Inr (Some tip)) \<Rightarrow>
               let height = tip_height tip in
               (case ingest C tip (wk_monitor wk) of
                  Diverges \<Rightarrow> Diverges
                | Panics \<Rightarrow> Panics
                | Returns (outcome, m) \<Rightarrow>
                    (case add_u64 (wk_ingested wk) 1 of
                       None \<Rightarrow> Panics
                     | Some n \<Rightarrow>
                         Returns (wk\<lparr>wk_monitor := m, wk_ingested := n,
                                     wk_reports := wk_reports wk @ [report height outcome]\<rparr>)))
           | Some (Inr None) \<Rightarrow>
               (case add_u64 (wk_rejected wk) 1 of
                  None \<Rightarrow> Panics
                | Some n \<Rightarrow> Returns (wk\<lparr>wk_rejected := n\<rparr>))
           | Some (Inl e) \<Rightarrow> Returns wk))"

fun worker_loop ::
  "('h, 'p, 'x, 'c) mina_env \<Rightarrow> ('h, 'p, 'x) wire_env \<Rightarrow> ('h, 'x) consensus_env \<Rightarrow> ('c, 'x) verifier \<Rightarrow>
   bytes list \<Rightarrow> ('h, 'x) worker \<Rightarrow> ('h, 'x) worker run" where
  "worker_loop E W C v [] wk = Returns wk"
| "worker_loop E W C v (payload # payloads) wk =
     (case worker_step E W C v payload wk of
        Diverges \<Rightarrow> Diverges
      | Panics \<Rightarrow> Panics
      | Returns wk' \<Rightarrow> worker_loop E W C v payloads wk')"

definition worker_start :: "('h, 'x) worker" where
  "worker_start = \<lparr>wk_monitor = new 512, wk_ingested = 0, wk_rejected = 0, wk_reports = []\<rparr>"

section \<open>The two threads\<close>

text \<open>The callbacks of the main thread: the channel is the state of the subscription, a block is sent
  and the loop always goes on. The receiver lives in the worker and dies with it; sending fails then,
  which the callback ignores, and the block is dropped.\<close>

definition send_block :: "bool \<Rightarrow> bytes list \<Rightarrow> bytes \<Rightarrow> bytes list \<times> bool" where
  "send_block receiver channel payload = (if receiver then channel @ [payload] else channel, False)"

definition recv :: "bytes list \<Rightarrow> bytes poll \<times> bytes list" where
  "recv channel = (case channel of [] \<Rightarrow> (Pending, []) | payload # channel' \<Rightarrow> (Ready payload, channel'))"

interpretation channel: fifo "\<lambda>channel. channel" "\<lambda>payload channel. fst (send_block True channel payload)" recv
  "\<lambda>_. True"
  by unfold_locales (auto simp: send_block_def recv_def)

record ('m, 'i, 'h, 'x) live =
  lv_events :: "'i swarm_event list"
  lv_running :: bool
  lv_sub :: "(bytes list, 'm, 'i) subscription"
  lv_worker :: "('h, 'x) worker run"

inductive live_step ::
  "('h, 'p, 'x, 'c) mina_env \<Rightarrow> ('h, 'p, 'x) wire_env \<Rightarrow> ('h, 'x) consensus_env \<Rightarrow> ('c, 'x) verifier \<Rightarrow>
   'm list \<Rightarrow> ('m, 'i, 'h, 'x) live \<Rightarrow> ('m, 'i, 'h, 'x) live \<Rightarrow> bool"
  for E W C v addrs
where
  gossip_turn:
    "\<lbrakk>lv_running s; lv_events s = ev # evs;
      subscribe_step (send_block (lv_worker s \<noteq> Panics)) no_tick addrs ev (lv_sub s) = (sub, brk)\<rbrakk> \<Longrightarrow>
     live_step E W C v addrs s (s\<lparr>lv_events := evs, lv_running := \<not> brk, lv_sub := sub\<rparr>)"
| worker_turn:
    "\<lbrakk>lv_worker s = Returns wk; recv (sub_user (lv_sub s)) = (Ready payload, channel);
      worker = worker_step E W C v payload wk\<rbrakk> \<Longrightarrow>
     live_step E W C v addrs s
       (s\<lparr>lv_sub := (lv_sub s)\<lparr>sub_user := if worker = Panics then [] else channel\<rparr>, lv_worker := worker\<rparr>)"

inductive_cases live_stepE [consumes 1, case_names gossip_turn worker_turn]:
  "live_step E W C v addrs s t"

definition live_start ::
  "(bytes list, 'm, 'i) subscription \<Rightarrow> 'i swarm_event list \<Rightarrow> ('m, 'i, 'h, 'x) live" where
  "live_start sub evs = \<lparr>lv_events = evs, lv_running = True, lv_sub = sub, lv_worker = Returns worker_start\<rparr>"

text \<open>No further step: the loop has ended or no event is left, and the worker has drained the channel, is
  dead, or is stuck in a payload for ever, in which case the join at the end of \<^verbatim>\<open>main\<close> waits for ever.\<close>

definition live_done :: "('m, 'i, 'h, 'x) live \<Rightarrow> bool" where
  "live_done s \<longleftrightarrow> (lv_running s \<longrightarrow> lv_events s = []) \<and>
     (sub_user (lv_sub s) = [] \<or> (\<forall>wk. lv_worker s \<noteq> Returns wk))"

text \<open>The sequential reading: the loop first, then the worker. The result is that of the worker thread; a
  panic before there is a worker is the main thread's.\<close>

definition monitor_main ::
  "'g netcfg_env \<Rightarrow> ('m, 'i) transport_env \<Rightarrow> ('h, 'p, 'x, 'c::linorder) mina_env \<Rightarrow>
   ('h, 'p, 'x) wire_env \<Rightarrow> ('h, 'x) consensus_env \<Rightarrow> os_env \<Rightarrow> 'i swarm_event list \<Rightarrow> 'g globals \<Rightarrow>
   ('h, 'x) worker run" where
  "monitor_main N T E W C Os evs g =
     (let net = env_or Os ''MINA_NETWORK'' ''devnet'' in
      case network_seeds net of
        None \<Rightarrow> Panics
      | Some (chain_id, peers) \<Rightarrow>
          (case subscribe_blocks T (send_block True) no_tick chain_id peers evs [] of
             None \<Rightarrow> Panics
           | Some sub \<Rightarrow>
               (case fst (for_network N E net g) of
                  Inl e \<Rightarrow> Panics
                | Inr v \<Rightarrow> worker_loop E W C v (sub_user sub) worker_start)))"

end
