(* ===== verification/Cli.thy ===== *)
theory Cli
  imports LiveMonitor
begin

text \<open>
  The command line tool (\<^verbatim>\<open>mina-verify-cli/src/main.rs\<close>): verify the files named on the command line;
  with more than one, feed a chain monitor and classify each. A run ends in an exit code with the lines
  printed on the standard output so far; a plain return is exit code 0. The lines on the error output are
  left out. Reading a file as bytes is a parameter.
\<close>

definition load_and_verify ::
  "(string \<Rightarrow> (bytes, string) result) \<Rightarrow> ('h, 'p, 'x, 'c) mina_env \<Rightarrow> ('h, 'p, 'x) wire_env \<Rightarrow>
   ('c, 'x) verifier \<Rightarrow> string \<Rightarrow> (('h, 'p, 'x) verified_tip, nat \<times> string list) result panics" where
  "load_and_verify read_file E W v path =
     (case read_file path of
        Inl e \<Rightarrow> Some (Err (2, []))
      | Inr bs \<Rightarrow>
          (case block_from_gossip_payload W bs of
             Inl e \<Rightarrow> Some (Err (2, []))
           | Inr b \<Rightarrow>
               (case verify_tip E v b of
                  None \<Rightarrow> None
                | Some (Inr (Some tip)) \<Rightarrow> Some (Ok tip)
                | Some (Inr None) \<Rightarrow> Some (Err (1, [path @ '': verify_block = false (proof rejected)'']))
                | Some (Inl e) \<Rightarrow> Some (Err (2, [])))))"

fun variant :: "'h ingest_outcome \<Rightarrow> string" where
  "variant Genesis = ''GENESIS''"
| "variant (Extend h) = ''EXTEND''"
| "variant Duplicate = ''DUP''"
| "variant (Behind h) = ''BEHIND''"
| "variant (Reorg from common depth) = ''REORG''"
| "variant (Fork common) = ''FORK''"
| "variant Unlinked = ''UNLINKED''"

fun outcome_note :: "'h ingest_outcome \<Rightarrow> string" where
  "outcome_note Genesis = ''first tip '' @ em_dash @ '' adopted as best''"
| "outcome_note (Extend h) = ''extends best chain''"
| "outcome_note Duplicate = ''duplicate (already seen)''"
| "outcome_note (Behind h) = ''behind best (orphan/older, same chain)''"
| "outcome_note (Reorg from common depth) =
     ''REORG '' @ em_dash @ '' new canonical tip; diverged at '' @ ancestor_text common @
     '' (rolled back '' @ depth_text depth @ '' block(s))''"
| "outcome_note (Fork common) =
     ''FORK '' @ em_dash @ '' competing branch (best unchanged); diverged at '' @ ancestor_text common"
| "outcome_note Unlinked = ''UNLINKED '' @ em_dash @ '' common ancestor outside window''"

text \<open>\<^verbatim>\<open>{height:<7}\<close>: left-aligned in seven columns.\<close>

definition pad_right :: "nat \<Rightarrow> string \<Rightarrow> string" where
  "pad_right n s = s @ replicate (n - length s) CHR '' ''"

definition outcome_line :: "u32 \<Rightarrow> 'h ingest_outcome \<Rightarrow> string" where
  "outcome_line height outcome =
     ''verified height '' @ pad_right 7 (show_nat (unat height)) @ '' ['' @ variant outcome @ ''] '' @
     outcome_note outcome"

text \<open>Chain-monitor mode: verify, ingest, classify, print; the first failing file ends the process.\<close>

fun cli_loop ::
  "(string \<Rightarrow> (bytes, string) result) \<Rightarrow> ('h, 'p, 'x, 'c) mina_env \<Rightarrow> ('h, 'p, 'x) wire_env \<Rightarrow>
   ('h, 'x) consensus_env \<Rightarrow> ('c, 'x) verifier \<Rightarrow> string list \<Rightarrow> string list \<Rightarrow> ('h, 'x) chain_monitor \<Rightarrow>
   (string list \<times> ('h, 'x) chain_monitor, nat \<times> string list) result run" where
  "cli_loop read_file E W C v [] out m = Returns (Ok (out, m))"
| "cli_loop read_file E W C v (path # paths) out m =
     (case load_and_verify read_file E W v path of
        None \<Rightarrow> Panics
      | Some (Inl (code, printed)) \<Rightarrow> Returns (Err (code, out @ printed))
      | Some (Inr tip) \<Rightarrow>
          let height = tip_height tip in
          (case ingest C tip m of
             Diverges \<Rightarrow> Diverges
           | Panics \<Rightarrow> Panics
           | Returns (outcome, m') \<Rightarrow>
               cli_loop read_file E W C v paths (out @ [outcome_line height outcome]) m'))"

definition cli_verifier ::
  "'g netcfg_env \<Rightarrow> ('h, 'p, 'x, 'c::linorder) mina_env \<Rightarrow> os_env \<Rightarrow> 'g globals \<Rightarrow>
   (('c, 'x) verifier, nat \<times> string list) result" where
  "cli_verifier N E Os g =
     (case env_var Os ''MINA_VK_JSON'' of
        Some path \<Rightarrow>
          and_then (map_err (\<lambda>_. (2, [])) (read_to_string Os path))
            (\<lambda>json. map_err (\<lambda>_. (2, [])) (fst (with_index_json E json g)))
      | None \<Rightarrow>
          map_err (\<lambda>_. (2, [])) (fst (for_network N E (env_or Os ''MINA_NETWORK'' ''devnet'') g)))"

text \<open>The last line, for a monitor with a best tip.\<close>

definition best_line :: "('h, 'x) consensus_env \<Rightarrow> ('h, 'x) chain_monitor \<Rightarrow> string list" where
  "best_line C m =
     (case (best_height m, best_hash m) of
        (Some h, Some hash) \<Rightarrow>
          [[CHR 10] @ ''canonical best: height '' @ show_nat (unat h) @ '', '' @ hash_to_string C hash]
      | _ \<Rightarrow> [])"

definition cli_main ::
  "'g netcfg_env \<Rightarrow> ('h, 'p, 'x, 'c::linorder) mina_env \<Rightarrow> ('h, 'p, 'x) wire_env \<Rightarrow>
   ('h, 'x) consensus_env \<Rightarrow> os_env \<Rightarrow> (string \<Rightarrow> (bytes, string) result) \<Rightarrow> string list \<Rightarrow> 'g globals \<Rightarrow>
   (nat \<times> string list) run" where
  "cli_main N E W C Os read_file args g =
     (if args = [] then Returns (2, [])
      else
        case cli_verifier N E Os g of
          Inl ex \<Rightarrow> Returns ex
        | Inr v \<Rightarrow>
            (case args of
               [path] \<Rightarrow>
                 (case load_and_verify read_file E W v path of
                    None \<Rightarrow> Panics
                  | Some (Inl ex) \<Rightarrow> Returns ex
                  | Some (Inr tip) \<Rightarrow>
                      Returns (0, [path @ '': height '' @ show_nat (unat (tip_height tip)) @ '' '' @ em_dash @
                        '' verify_block = true'']))
             | _ \<Rightarrow>
                 (case cli_loop read_file E W C v args [] (new 512) of
                    Diverges \<Rightarrow> Diverges
                  | Panics \<Rightarrow> Panics
                  | Returns (Inl ex) \<Rightarrow> Returns ex
                  | Returns (Inr (out, m)) \<Rightarrow> Returns (0, out @ best_line C m))))"

end
