(* ===== verification/Examples.thy ===== *)
theory Examples
  imports Cli ServerCorrect
begin

text \<open>
  The example programs: \<^verbatim>\<open>to_precomputed.rs\<close>, \<^verbatim>\<open>ingest.rs\<close> and \<^verbatim>\<open>rpc_fetch.rs\<close> of
  \<^verbatim>\<open>mina-verify-monitor/examples\<close>, \<^verbatim>\<open>precomputed_decode.rs\<close> and \<^verbatim>\<open>precomputed_roundtrip.rs\<close> of
  \<^verbatim>\<open>mina-verify/examples\<close>. They compose the library: publishing a captured block as precomputed JSON is the
  inverse of \<^verbatim>\<open>header_from_precomputed\<close>, and the other programs verify a block from each kind of source.

  A program returns its exit code with the lines it prints on the standard output; \<^term>\<open>None\<close> is a panic
  (every \<^verbatim>\<open>expect\<close>). The encoders are external, the fields of \<open>publish_env\<close>.
\<close>

section \<open>Publishing a block\<close>

record ('h, 'p, 'x) publish_env =
  state_to_value :: "('h, 'x) protocol_state \<Rightarrow> (json, string) result"
  proof_write :: "'p \<Rightarrow> bytes"
  base64_encode :: "bytes \<Rightarrow> string"
  json_to_string :: "json \<Rightarrow> string"

definition published_value ::
  "('h, 'p, 'x) publish_env \<Rightarrow> ('h, 'p, 'x) header \<Rightarrow> json panics" where
  "published_value B h =
     do {
       ps \<leftarrow> result_ok (state_to_value B (protocol_state h));
       let b64 = base64_encode B (proof_write B (protocol_state_proof h));
       Some (JObject [(''data'', JObject [(''protocol_state'', ps), (''protocol_state_proof'', JString b64)])])
     }"

definition to_precomputed_main ::
  "('h, 'p, 'x) wire_env \<Rightarrow> ('h, 'p, 'x) publish_env \<Rightarrow> (string \<Rightarrow> (bytes, string) result) \<Rightarrow>
   string list \<Rightarrow> (nat \<times> string list) panics" where
  "to_precomputed_main W B read_file args =
     (case args of
        [] \<Rightarrow> None
      | path # _ \<Rightarrow>
          do {
            payload \<leftarrow> result_ok (read_file path);
            b \<leftarrow> result_ok (block_from_gossip_payload W payload);
            json \<leftarrow> published_value B (block_header b);
            Some (0, [json_to_string B json])
          })"

text \<open>The facts of a verified block, as the examples print them; the note at the end of the last line
  is a parameter, since two of them word it differently.\<close>

definition facts_lines :: "'h hash_text \<Rightarrow> string \<Rightarrow> 'h verified_block \<Rightarrow> string list" where
  "facts_lines H note vb =
     [''  height              '' @ show_nat (unat (vb_height vb)),
      ''  state_hash          '' @ state_hash_text H (vb_state_hash vb),
      ''  previous_state_hash '' @ state_hash_text H (vb_previous_state_hash vb),
      ''  staged_ledger_hash  '' @ ledger_hash_text H (vb_staged_ledger_hash vb) @ ''  <- '' @ note]"

definition precomputed_roundtrip_main ::
  "('h, 'p, 'x, 'c::linorder) mina_env \<Rightarrow> ('h, 'p, 'x) wire_env \<Rightarrow> ('h, 'p, 'x) json_env \<Rightarrow>
   ('h, 'p, 'x) publish_env \<Rightarrow> 'h hash_text \<Rightarrow> (string \<Rightarrow> (bytes, string) result) \<Rightarrow> 'g globals \<Rightarrow>
   string list \<Rightarrow> (nat \<times> string list) panics" where
  "precomputed_roundtrip_main E W J B H read_file g args =
     (case args of
        [] \<Rightarrow> None
      | path # _ \<Rightarrow>
          do {
            payload \<leftarrow> result_ok (read_file path);
            b \<leftarrow> result_ok (block_from_gossip_payload W payload);
            json \<leftarrow> published_value B (block_header b);
            v \<leftarrow> result_ok (fst (for_network_offline E ''devnet'' g));
            r \<leftarrow> verify_precomputed_and_extract E J v (json_to_string B json);
            vb \<leftarrow> result_ok r;
            Some (0, ''verified precomputed block (devnet):'' #
                     facts_lines H ''indexer's replayed ledger root must match this'' vb)
          })"

definition precomputed_decode_main ::
  "('h, 'p, 'x) json_env \<Rightarrow> 'h hash_text \<Rightarrow> os_env \<Rightarrow> string list \<Rightarrow> (nat \<times> string list) panics" where
  "precomputed_decode_main J H Os args =
     (case args of
        [] \<Rightarrow> None
      | path # _ \<Rightarrow>
          do {
            json \<leftarrow> result_ok (read_to_string Os path);
            h \<leftarrow> result_ok (header_from_precomputed J json);
            Some (0, [''decoded OK '' @ em_dash @ '' height '' @
              show_nat (unat (blockchain_length (header_consensus h))) @ '', prev_state_hash '' @
              state_hash_text H (previous_state_hash (protocol_state h))])
          })"

section \<open>Verifying from a source\<close>

definition example_source :: "os_env \<Rightarrow> string list \<Rightarrow> (block_source \<times> string, nat) result" where
  "example_source Os args =
     (case args of
        [kind, arg] \<Rightarrow>
          if kind = ''precomputed'' then
            and_then (map_err (\<lambda>_. 2) (read_to_string Os arg))
              (\<lambda>json. Ok (Precomputed json, env_or Os ''MINA_NETWORK'' ''devnet''))
          else if kind = ''node'' then Ok (node_source arg, arg)
          else Err 2
      | _ \<Rightarrow> Err 2)"

definition example_verifier ::
  "'g netcfg_env \<Rightarrow> ('h, 'p, 'x, 'c::linorder) mina_env \<Rightarrow> os_env \<Rightarrow> string \<Rightarrow> 'g globals \<Rightarrow>
   (('c, 'x) verifier, nat) result" where
  "example_verifier N E Os net g =
     (case env_var Os ''MINA_VK_JSON'' of
        Some p \<Rightarrow>
          and_then (map_err (\<lambda>_. 2) (read_to_string Os p))
            (\<lambda>json. map_err (\<lambda>_. 2) (fst (with_index_json E json g)))
      | None \<Rightarrow> map_err (\<lambda>_. 2) (fst (for_network N E net g)))"

definition ingest_main ::
  "'g netcfg_env \<Rightarrow> ('h, 'p, 'x, 'c::linorder) mina_env \<Rightarrow> ('h, 'p, 'x) json_env \<Rightarrow>
   ('m, 'i) transport_env \<Rightarrow> ('m, 'k) libp2p \<Rightarrow> rpc_codec \<Rightarrow>
   (unit, (('h, 'p, 'x) block, 'y) proof_carrying option) rpc_method \<Rightarrow> 'h hash_text \<Rightarrow> os_env \<Rightarrow> 'g globals \<Rightarrow>
   string list \<Rightarrow> (nat \<times> string list) panics" where
  "ingest_main N E J T P K M H Os g args =
     (case example_source Os args of
        Inl code \<Rightarrow> Some (code, [])
      | Inr (source, net) \<Rightarrow>
          (case example_verifier N E Os net g of
             Inl code \<Rightarrow> Some (code, [])
           | Inr v \<Rightarrow>
               (case verify_from E J T P K M v source of
                  None \<Rightarrow> None
                | Some (Inl e) \<Rightarrow> Some (1, [])
                | Some (Inr vb) \<Rightarrow>
                    Some (0, (''verified block ('' @ net @ ''):'') #
                      facts_lines H ''an indexer's replayed ledger root must match this'' vb))))"

definition rpc_fetch_main ::
  "'g netcfg_env \<Rightarrow> ('h, 'p, 'x, 'c::linorder) mina_env \<Rightarrow> ('m, 'i) transport_env \<Rightarrow>
   ('m, 'k) libp2p \<Rightarrow> rpc_codec \<Rightarrow> (unit, (('h, 'p, 'x) block, 'y) proof_carrying option) rpc_method \<Rightarrow>
   os_env \<Rightarrow> 'g globals \<Rightarrow> string list \<Rightarrow> (nat \<times> string list) panics" where
  "rpc_fetch_main N E T P K M Os g args =
     (let net = (case args of [] \<Rightarrow> ''devnet'' | a # _ \<Rightarrow> a) in
      case network_seeds net of
        None \<Rightarrow> None
      | Some (chain_id, peers) \<Rightarrow>
          let line = ''RPC get_best_tip on '' @ net @ '' ('' @ show_nat (length peers) @ '' seeds)...'' in
          (case fetch_best_tip T P K M chain_id peers 90 of
             None \<Rightarrow> None
           | Some (Inl e) \<Rightarrow> Some (1, [line])
           | Some (Inr b) \<Rightarrow>
               let height = blockchain_length (header_consensus (block_header b)) in
               (case example_verifier N E Os net g of
                  Inl _ \<Rightarrow> None
                | Inr v \<Rightarrow>
                    (case verify_block E v b of
                       None \<Rightarrow> None
                     | Some ok \<Rightarrow>
                         Some (if ok then 0 else 2,
                           [line, ''fetched best tip height '' @ show_nat (unat height) @ '' via RPC '' @ em_dash @
                             '' verify_block = '' @ (if ok then ''true'' else ''false'')])))))"

end
