(* ===== verification/GossipCorrect.thy ===== *)
theory GossipCorrect
  imports Cli ServerCorrect
begin

text \<open>
  The properties of the event loops and binaries. The worker of the live monitor is related to the
  monitor itself: a run of it ingests exactly the verified tips among its payloads.
\<close>

section \<open>Subscriptions\<close>

text \<open>What reaches the block callback: the new-state messages before the deadline or the end of the
  swarm, until the callback breaks.\<close>

definition delivered :: "'i swarm_event list \<Rightarrow> bytes list" where
  "delivered evs = List.map_filter
     (\<lambda>ev. case ev of Message p \<Rightarrow> if is_new_state p then Some p else None | _ \<Rightarrow> None)
     (takeWhile (\<lambda>ev. ev \<noteq> DeadlineReached \<and> ev \<noteq> SwarmEnded) evs)"

fun feed_until :: "('s \<Rightarrow> bytes \<Rightarrow> 's \<times> bool) \<Rightarrow> bytes list \<Rightarrow> 's \<Rightarrow> 's" where
  "feed_until f [] u = u"
| "feed_until f (p # ps) u = (let (u', brk) = f u p in if brk then u' else feed_until f ps u')"

lemma subscribe_loop_feeds:
  "sub_user (subscribe_loop on_block no_tick peers evs sub) =
     feed_until on_block (delivered evs) (sub_user sub)"
proof (induction evs arbitrary: sub)
  case Nil
  show ?case by (simp add: delivered_def map_filter_simps)
next
  case (Cons ev evs)
  show ?case
    using Cons.IH by (cases ev) (auto simp: delivered_def no_tick_def map_filter_simps split: prod.split)
qed

lemma subscribe_blocks_feeds:
  "map_option sub_user (subscribe_blocks T on_block no_tick chain_id peers evs u) =
     (if client_swarm T chain_id peers = None then None else Some (feed_until on_block (delivered evs) u))"
  by (auto simp: subscribe_blocks_def subscribe_start_def subscribe_loop_feeds split: bind_split)

lemma feed_fold:
  assumes "\<And>u p. \<not> snd (f u p)"
  shows "feed_until f ps u = fold (\<lambda>p u. fst (f u p)) ps u"
proof (induction ps arbitrary: u)
  case (Cons p ps)
  then show ?case using assms [of u p] by (simp add: case_prod_beta Let_def)
qed simp

lemma take_min_length: "take w xs = take (min w (length xs)) xs"
  by (simp add: min_def)

lemma feed_save:
  assumes w: "\<And>p bs. write_ok Fs p bs"
  shows "saved < max want 1 \<Longrightarrow>
   \<exists>files'. feed_until (save_block Fs want) ps (Some (saved, files)) =
       Some (saved + min (max want 1 - saved) (length ps), files @ files') \<and>
     map snd files' = take (max want 1 - saved) ps \<and>
     map fst files' = map (\<lambda>k. ''captured/block-'' @ show_nat k @ ''.gossipbin'')
       [saved..<saved + min (max want 1 - saved) (length ps)]"
proof (induction ps arbitrary: saved files)
  case Nil
  then show ?case by simp
next
  case (Cons p ps)
  let ?name = "''captured/block-'' @ show_nat saved @ ''.gossipbin''"
  have step: "save_block Fs want (Some (saved, files)) p = (Some (saved + 1, files @ [(?name, p)]), want \<le> saved + 1)"
    by (simp add: save_block_def w)
  show ?case
  proof (cases "want \<le> saved + 1")
    case True
    then have "max want 1 - saved = 1" using Cons.prems by auto
    then show ?thesis using True step by (intro exI [of _ "[(?name, p)]"]) simp
  next
    case False
    then have lt: "saved + 1 < max want 1" by auto
    obtain files' where f: "feed_until (save_block Fs want) ps (Some (saved + 1, files @ [(?name, p)])) =
        Some (saved + 1 + min (max want 1 - (saved + 1)) (length ps), (files @ [(?name, p)]) @ files')"
      "map snd files' = take (max want 1 - (saved + 1)) ps"
      "map fst files' = map (\<lambda>k. ''captured/block-'' @ show_nat k @ ''.gossipbin'')
       [saved + 1..<saved + 1 + min (max want 1 - (saved + 1)) (length ps)]"
      using Cons.IH [OF lt, of "files @ [(?name, p)]"] by blast
    have m: "max want 1 - saved = Suc (max want 1 - (saved + 1))" using lt by simp
    then have "saved + min (max want 1 - saved) (length (p # ps)) =
        Suc (saved + min (max want 1 - (saved + 1)) (length ps))" by simp
    moreover have "[saved..<Suc (saved + min (max want 1 - (saved + 1)) (length ps))] =
        saved # [saved + 1..<Suc (saved + min (max want 1 - (saved + 1)) (length ps))]"
      by (simp add: upt_conv_Cons del: upt_Suc)
    ultimately show ?thesis
      using f m step False by (intro exI [of _ "(?name, p) # files'"]) (simp del: upt_Suc)
  qed
qed

section \<open>The worker\<close>

definition payload_tip ::
  "('h, 'p, 'x, 'c) mina_env \<Rightarrow> ('h, 'p, 'x) wire_env \<Rightarrow> ('c, 'x) verifier \<Rightarrow> bytes \<Rightarrow>
   ('h, 'p, 'x) verified_tip option" where
  "payload_tip E W v payload =
     (case block_from_gossip_payload W payload of
        Inl _ \<Rightarrow> None
      | Inr b \<Rightarrow> Option.bind (through (verify_tip E v b)) (\<lambda>t. t))"

definition payload_rejected ::
  "('h, 'p, 'x, 'c) mina_env \<Rightarrow> ('h, 'p, 'x) wire_env \<Rightarrow> ('c, 'x) verifier \<Rightarrow> bytes \<Rightarrow> bool" where
  "payload_rejected E W v payload \<longleftrightarrow>
     (\<exists>b. block_from_gossip_payload W payload = Ok b \<and> verify_block E v b = Some False)"

interpretation payload_gate: verify_gate "payload_tip E W v"
  "\<lambda>payload tip. block_from_gossip_payload W payload = Ok (tip_block tip) \<and>
     verify_block E v (tip_block tip) = Some True \<and> block_try_hash E (tip_block tip) = Ok (tip_state_hash tip)"
  for E :: "('h, 'p, 'x, 'c) mina_env" and W and v
proof unfold_locales
  fix payload tip
  assume "payload_tip E W v payload = Some tip"
  then obtain b where b: "block_from_gossip_payload W payload = Ok b"
    and "Option.bind (through (verify_tip E v b)) (\<lambda>t. t) = Some tip"
    by (auto simp: payload_tip_def split: sum.splits)
  from tip_gate.gate_proved [OF this(2)] b
  show "block_from_gossip_payload W payload = Ok (tip_block tip) \<and>
     verify_block E v (tip_block tip) = Some True \<and> block_try_hash E (tip_block tip) = Ok (tip_state_hash tip)"
    by auto
qed

lemma worker_step_tip:
  assumes "payload_tip E W v payload = Some tip"
  shows "worker_step E W C v payload wk =
    (case ingest C tip (wk_monitor wk) of
       Diverges \<Rightarrow> Diverges
     | Panics \<Rightarrow> Panics
     | Returns (out, m) \<Rightarrow>
         (case add_u64 (wk_ingested wk) 1 of
            None \<Rightarrow> Panics
          | Some n \<Rightarrow>
              Returns (wk\<lparr>wk_monitor := m, wk_ingested := n,
                          wk_reports := wk_reports wk @ [report (tip_height tip) out]\<rparr>)))"
  using assms
  by (auto simp: payload_tip_def worker_step_def bind_eq_Some_conv split: sum.splits)

lemma worker_step_other:
  assumes "payload_tip E W v payload = None" and "worker_step E W C v payload wk = Returns wk'"
  shows "wk_monitor wk' = wk_monitor wk \<and> wk_ingested wk' = wk_ingested wk \<and> wk_reports wk' = wk_reports wk \<and>
    unat (wk_rejected wk') = unat (wk_rejected wk) + (if payload_rejected E W v payload then 1 else 0)"
proof (cases "block_from_gossip_payload W payload")
  case (Inl e)
  then show ?thesis using assms(2) by (auto simp: worker_step_def payload_rejected_def)
next
  case (Inr b)
  show ?thesis
  proof (cases "payload_rejected E W v payload")
    case True
    then have "verify_tip E v b = Some (Ok None)" using Inr by (simp add: payload_rejected_def verify_tip_rejected_iff)
    then show ?thesis
      using assms(2) Inr True add_u64_Some_unat [of "wk_rejected wk" 1]
      by (auto simp: worker_step_def split: option.splits)
  next
    case False
    then have "verify_tip E v b \<noteq> Some (Ok None)" using Inr by (simp add: payload_rejected_def verify_tip_rejected_iff)
    then show ?thesis
      using assms Inr False by (auto simp: worker_step_def payload_tip_def split: option.splits sum.splits)
  qed
qed

lemma worker_refines:
  "worker_loop E W C v payloads wk = Returns wk' \<Longrightarrow>
   (\<exists>outs. ingest_all C (List.map_filter (payload_tip E W v) payloads) (wk_monitor wk) = Returns (outs, wk_monitor wk') \<and>
      wk_reports wk' = wk_reports wk @
        map2 (\<lambda>t. report (tip_height t)) (List.map_filter (payload_tip E W v) payloads) outs) \<and>
   unat (wk_ingested wk') = unat (wk_ingested wk) + length (List.map_filter (payload_tip E W v) payloads) \<and>
   unat (wk_rejected wk') = unat (wk_rejected wk) + length (filter (payload_rejected E W v) payloads)"
proof (induction payloads arbitrary: wk)
  case Nil
  then show ?case by (simp add: map_filter_simps)
next
  case (Cons p ps)
  obtain wk1 where s: "worker_step E W C v p wk = Returns wk1" "worker_loop E W C v ps wk1 = Returns wk'"
    using Cons.prems by (auto split: run.splits)
  show ?case
  proof (cases "payload_tip E W v p")
    case None
    then show ?thesis
      using worker_step_other [OF None s(1)] Cons.IH [OF s(2)] by (auto simp: map_filter_simps)
  next
    case (Some tip)
    have "\<not> payload_rejected E W v p"
      using payload_gate.gate_proved [OF Some] by (auto simp: payload_rejected_def)
    moreover obtain out m n where "ingest C tip (wk_monitor wk) = Returns (out, m)"
      "add_u64 (wk_ingested wk) 1 = Some n"
      "wk1 = wk\<lparr>wk_monitor := m, wk_ingested := n, wk_reports := wk_reports wk @ [report (tip_height tip) out]\<rparr>"
      using s(1) unfolding worker_step_tip [OF Some] by (auto split: run.splits option.splits)
    ultimately show ?thesis
      using Cons.IH [OF s(2)] Some add_u64_Some_unat [of "wk_ingested wk" 1] by (auto simp: map_filter_simps)
  qed
qed

lemma ingest_all_nodes:
  "\<lbrakk>monitor_ok C m; ingest_all C tips m = Returns (outs, m'); Mapping.lookup (nodes m') k = Some n\<rbrakk> \<Longrightarrow>
   Mapping.lookup (nodes m) k = Some n \<or> (\<exists>t \<in> set tips. k = tip_key C t \<and> n = tip_node C t)"
proof (induction tips arbitrary: m outs)
  case (Cons t ts)
  obtain out outs' m1 where run: "ingest C t m = Returns (out, m1)" "ingest_all C ts m1 = Returns (outs', m')"
    by (rule ingest_all_Cons [OF Cons.prems(2)])
  from Cons.IH [OF monitor_ok_ingest [OF Cons.prems(1) run(1)] run(2) Cons.prems(3)]
  show ?case using ingest_nodes_fed [OF Cons.prems(1) run(1)] by auto
qed simp

lemma worker_step_returns:
  assumes feed: "feed_ok C H (wk_monitor wk)"
    and check: "\<forall>b. block_from_gossip_payload W payload = Ok b \<longrightarrow> verify_block E v b \<noteq> None"
    and linked: "\<forall>t. payload_tip E W v payload = Some t \<longrightarrow> tip_linked C H t"
    and small: "unat (wk_ingested wk) + 1 < 2 ^ 64" "unat (wk_rejected wk) + 1 < 2 ^ 64"
  shows "\<exists>wk'. worker_step E W C v payload wk = Returns wk' \<and> feed_ok C H (wk_monitor wk') \<and>
    unat (wk_ingested wk') \<le> unat (wk_ingested wk) + 1 \<and> unat (wk_rejected wk') \<le> unat (wk_rejected wk) + 1"
proof (cases "payload_tip E W v payload")
  case (Some t)
  then have t: "tip_linked C H t" using linked by blast
  have "ingest C t (wk_monitor wk) \<noteq> Panics" "ingest C t (wk_monitor wk) \<noteq> Diverges"
    using feed ingest_no_panic ingest_no_divergence [OF feed t] by (auto simp: feed_ok_def)
  then obtain out m where run: "ingest C t (wk_monitor wk) = Returns (out, m)"
    by (cases "ingest C t (wk_monitor wk)") auto
  have "add_u64 (wk_ingested wk) 1 \<noteq> None" using small(1) by (simp add: add_u64_def)
  then obtain n where n: "add_u64 (wk_ingested wk) 1 = Some n" by blast
  have n1: "unat n = unat (wk_ingested wk) + 1" using add_u64_Some_unat [OF n] by simp
  show ?thesis
    using run n n1 feed_ok_ingest [OF feed t run] by (simp add: worker_step_tip [OF Some])
next
  case None
  have "\<exists>wk'. worker_step E W C v payload wk = Returns wk'"
  proof (cases "block_from_gossip_payload W payload")
    case (Inr b)
    obtain ok where "verify_block E v b = Some ok" using check Inr by blast
    then show ?thesis
      using None Inr small(2)
      by (cases "block_try_hash E b") (auto simp: worker_step_def payload_tip_def verify_tip_def add_u64_def)
  qed (simp add: worker_step_def)
  then obtain wk' where "worker_step E W C v payload wk = Returns wk'" by blast
  then show ?thesis using worker_step_other [OF None] feed by fastforce
qed

lemma worker_loop_returns:
  "\<lbrakk>feed_ok C H (wk_monitor wk);
    \<forall>p \<in> set payloads. \<forall>b. block_from_gossip_payload W p = Ok b \<longrightarrow> verify_block E v b \<noteq> None;
    \<forall>p \<in> set payloads. \<forall>t. payload_tip E W v p = Some t \<longrightarrow> tip_linked C H t;
    unat (wk_ingested wk) + length payloads < 2 ^ 64; unat (wk_rejected wk) + length payloads < 2 ^ 64\<rbrakk> \<Longrightarrow>
   \<exists>wk'. worker_loop E W C v payloads wk = Returns wk' \<and> feed_ok C H (wk_monitor wk')"
proof (induction payloads arbitrary: wk)
  case (Cons p ps)
  obtain wk1 where "worker_step E W C v p wk = Returns wk1" "feed_ok C H (wk_monitor wk1)"
    "unat (wk_ingested wk1) \<le> unat (wk_ingested wk) + 1" "unat (wk_rejected wk1) \<le> unat (wk_rejected wk) + 1"
    using worker_step_returns [of C H wk W p E v] Cons.prems by auto
  then show ?case using Cons.IH [of wk1] Cons.prems by auto
qed simp

section \<open>Properties\<close>

text \<open>C4. Only proved blocks enter the live monitor's window: whatever payloads peers send, each node the
  worker's monitor holds is the tip of a payload that decoded to a block whose proof was checked and
  accepted, with that block's hash, parent, height and consensus state.\<close>

theorem window_only_proved:
  assumes "worker_loop E W C v payloads worker_start = Returns wk"
    and "Mapping.lookup (nodes (wk_monitor wk)) k = Some n"
  shows "\<exists>payload \<in> set payloads. \<exists>tip. block_from_gossip_payload W payload = Ok (tip_block tip) \<and>
    verify_block E v (tip_block tip) = Some True \<and> block_try_hash E (tip_block tip) = Ok (tip_state_hash tip) \<and>
    k = tip_key C tip \<and> n = tip_node C tip"
proof -
  have start: "monitor_ok C (wk_monitor worker_start)" by (simp add: worker_start_def monitor_ok_new)
  obtain outs where "ingest_all C (List.map_filter (payload_tip E W v) payloads) (wk_monitor worker_start) =
      Returns (outs, wk_monitor wk)"
    using worker_refines [OF assms(1)] by blast
  from ingest_all_nodes [OF start this assms(2)]
  obtain tip where tip: "tip \<in> set (List.map_filter (payload_tip E W v) payloads)" "k = tip_key C tip" "n = tip_node C tip"
    by (auto simp: worker_start_def new_def lookup_empty)
  from payload_gate.taken_proved [OF tip(1)] tip(2,3) show ?thesis by blast
qed

definition sample_payload :: "u8 \<Rightarrow> bytes" where
  "sample_payload tag = replicate 8 0 @ [tag]"

definition sample_worker :: "(nat, unit) worker" where
  "sample_worker =
     \<lparr>wk_monitor = (after_insert sample_consensus (sample_tip 20 10 2) (new 512))\<lparr>best := Some [char_of (2::nat), char_of (0::nat)]\<rparr>,
      wk_ingested = 1, wk_rejected = 0, wk_reports = [report 2 (Genesis :: nat ingest_outcome)]\<rparr>"

lemma sample_payload_block:
  "block_from_gossip_payload sample_wire (sample_payload t) = (if t = 0 then Ok (sample_block True 10 2) else Err NotABlock)"
  by (simp add: block_from_gossip_payload_def sample_wire_def sample_payload_def)

lemma sample_payload_tip:
  "payload_tip sample_env sample_wire sample_verifier (sample_payload t) = (if t = 0 then Some (sample_tip 20 10 2) else None)"
  by (simp add: payload_tip_def sample_payload_block verify_tip_def verify_block_def verify_header_def
      sample_env_def sample_defs)

lemma sample_tip_keys:
  "tip_key sample_consensus (sample_tip 20 10 2) = [char_of (2::nat), char_of (0::nat)]"
  by (simp add: tip_key_def sample_defs)

lemma sample_worker_run:
  "worker_loop sample_env sample_wire sample_consensus sample_verifier [sample_payload 0, sample_payload 1] worker_start =
     Returns sample_worker"
proof -
  have "ingest sample_consensus (sample_tip 20 10 2) (new 512) =
      Returns (Genesis, (after_insert sample_consensus (sample_tip 20 10 2) (new 512))\<lparr>best := Some [char_of (2::nat), char_of (0::nat)]\<rparr>)"
    using ingest_genesis [of sample_consensus "sample_tip 20 10 2" "new 512"] by (simp add: new_def sample_tip_keys)
  then have "worker_step sample_env sample_wire sample_consensus sample_verifier (sample_payload 0) worker_start = Returns sample_worker"
    by (simp add: worker_step_tip [of _ _ _ _ "sample_tip 20 10 2"] sample_payload_tip worker_start_def add_u64_def sample_worker_def
        sample_tip_height)
  moreover have "worker_step sample_env sample_wire sample_consensus sample_verifier (sample_payload 1) sample_worker = Returns sample_worker"
    by (simp add: worker_step_def sample_payload_block)
  ultimately show ?thesis by simp
qed

theorem window_only_proved_witness:
  "\<exists>payload \<in> set [sample_payload 0, sample_payload 1]. \<exists>tip.
     block_from_gossip_payload sample_wire payload = Ok (tip_block tip) \<and>
     verify_block sample_env sample_verifier (tip_block tip) = Some True \<and>
     [char_of (2::nat), char_of (0::nat)] = tip_key sample_consensus tip"
proof -
  have fresh: "tip_key sample_consensus (sample_tip 20 10 2) \<notin>
      Mapping.keys (nodes (new 512 :: (nat, unit) chain_monitor))"
    by (simp add: new_def)
  have "Mapping.lookup (nodes (wk_monitor sample_worker)) [char_of (2::nat), char_of (0::nat)] =
      Some (tip_node sample_consensus (sample_tip 20 10 2))"
    using after_insert_lookups(1) [OF monitor_ok_new fresh] by (simp add: sample_worker_def sample_tip_keys)
  from window_only_proved [OF sample_worker_run this] show ?thesis by blast
qed

text \<open>C22. The worker refines the monitor: a run of it that returns is the ingestion of the verified tips
  among its payloads, in order, with one report line per tip, and its two counters are the number of those
  tips and the number of blocks whose proof was rejected; undecodable payloads change nothing.\<close>

theorem worker_is_ingestion:
  assumes "worker_loop E W C v payloads worker_start = Returns wk"
  shows "\<exists>outs. ingest_all C (List.map_filter (payload_tip E W v) payloads) (new 512) = Returns (outs, wk_monitor wk) \<and>
    wk_reports wk = map2 (\<lambda>t. report (tip_height t)) (List.map_filter (payload_tip E W v) payloads) outs \<and>
    unat (wk_ingested wk) = length outs \<and>
    unat (wk_rejected wk) = length (filter (payload_rejected E W v) payloads)"
proof -
  obtain outs where run: "ingest_all C (List.map_filter (payload_tip E W v) payloads) (new 512) = Returns (outs, wk_monitor wk)"
    and rep: "wk_reports wk = map2 (\<lambda>t. report (tip_height t)) (List.map_filter (payload_tip E W v) payloads) outs"
    using worker_refines [OF assms] by (auto simp: worker_start_def)
  have "length outs = length (List.map_filter (payload_tip E W v) payloads)"
    by (rule ingest_all_length [OF run])
  then show ?thesis using run rep worker_refines [OF assms] by (auto simp: worker_start_def)
qed

theorem worker_is_ingestion_witness:
  "\<exists>outs. ingest_all sample_consensus
     (List.map_filter (payload_tip sample_env sample_wire sample_verifier) [sample_payload 0, sample_payload 1]) (new 512) =
     Returns (outs, wk_monitor sample_worker) \<and> unat (wk_ingested sample_worker) = length outs"
  using worker_is_ingestion [OF sample_worker_run] by blast

text \<open>C28. The worker stays up: if the proof checker does not panic on the blocks received, and the blocks
  it accepts are blocks of a chain, the worker goes through fewer than \<open>2 ^ 64\<close> payloads without
  panicking or looping, whatever else the payloads are, and its window keeps to 512 blocks.\<close>

theorem worker_stays_up:
  assumes "\<forall>p \<in> set payloads. \<forall>b. block_from_gossip_payload W p = Ok b \<longrightarrow> verify_block E v b \<noteq> None"
    and "\<forall>p \<in> set payloads. \<forall>t. payload_tip E W v p = Some t \<longrightarrow> tip_linked C H t"
    and "length payloads < 2 ^ 64"
  shows "\<exists>wk. worker_loop E W C v payloads worker_start = Returns wk \<and> len (wk_monitor wk) \<le> 512"
proof -
  have start: "feed_ok C H (wk_monitor worker_start)"
    by (simp add: worker_start_def feed_ok_def monitor_ok_new chain_heights_new)
  obtain wk where wk: "worker_loop E W C v payloads worker_start = Returns wk" "feed_ok C H (wk_monitor wk)"
    using worker_loop_returns [OF start assms(1,2)] assms(3) by (auto simp: worker_start_def)
  obtain outs where "ingest_all C (List.map_filter (payload_tip E W v) payloads) (new 512) = Returns (outs, wk_monitor wk)"
    using worker_refines [OF wk(1)] by (auto simp: worker_start_def)
  then have "capacity (wk_monitor wk) = 512" using ingest_all_capacity by (fastforce simp: new_def)
  moreover have "window_ok (wk_monitor wk)" using wk(2) by (simp add: feed_ok_def monitor_ok_def window_live_def)
  ultimately show ?thesis using wk(1) window_ok_len [of "wk_monitor wk"] by (simp add: window_ok_def)
qed

theorem worker_stays_up_witness:
  "\<exists>wk. worker_loop sample_env sample_wire sample_consensus sample_verifier [sample_payload 0, sample_payload 1] worker_start =
     Returns wk \<and> len (wk_monitor wk) \<le> 512"
proof (rule worker_stays_up)
  show "\<forall>p \<in> set [sample_payload 0, sample_payload 1]. \<forall>b. block_from_gossip_payload sample_wire p = Ok b \<longrightarrow>
      verify_block sample_env sample_verifier b \<noteq> None"
    by (auto simp: sample_payload_block verify_block_def verify_header_def sample_env_def sample_defs)
  show "\<forall>p \<in> set [sample_payload 0, sample_payload 1]. \<forall>t.
      payload_tip sample_env sample_wire sample_verifier p = Some t \<longrightarrow> tip_linked sample_consensus sample_height t"
    by (simp add: sample_payload_tip tip_linked_def tip_key_def tip_prev_key_def tip_previous_def tip_height_def
        tip_consensus_state_def sample_defs of_char_of)
qed simp

text \<open>C37. The capture binary saves the first new-state messages that arrive before the deadline, in order
  and unchanged, as many as \<^verbatim>\<open>CAPTURE_BLOCKS\<close> asks for but at least one, under consecutively numbered
  names; messages without the new-state tag, connection events and ticks do not count.\<close>

theorem capture_saves_first:
  assumes "network_seeds (env_or Os ''MINA_NETWORK'' ''devnet'') = Some (chain_id, peers)"
    and "client_swarm T chain_id peers \<noteq> None" and "create_dir_ok Fs ''captured''" and "\<And>p bs. write_ok Fs p bs"
    and "n = min (max (env_number Os ''CAPTURE_BLOCKS'' 1) 1) (length (delivered evs))"
  shows "\<exists>files. capture_main Fs T Os evs = Some (n, files) \<and> map snd files = take n (delivered evs) \<and>
    map fst files = map (\<lambda>k. ''captured/block-'' @ show_nat k @ ''.gossipbin'') [0..<n]"
proof -
  let ?want = "env_number Os ''CAPTURE_BLOCKS'' 1"
  have pos: "0 < max ?want 1" by (simp add: less_max_iff_disj)
  obtain files where f: "feed_until (save_block Fs ?want) (delivered evs) (Some (0, [])) = Some (n, files)"
    "map snd files = take (max ?want 1) (delivered evs)"
    "map fst files = map (\<lambda>k. ''captured/block-'' @ show_nat k @ ''.gossipbin'') [0..<n]"
    using feed_save [OF assms(4) pos, of "delivered evs" "[]"] assms(5) by auto
  have "take (max ?want 1) (delivered evs) = take n (delivered evs)"
    unfolding assms(5) by (rule take_min_length)
  moreover have "capture_main Fs T Os evs = Some (n, files)"
    using assms(1,2,3) f(1)
      subscribe_blocks_feeds [of T "save_block Fs ?want" chain_id peers evs "Some (0, [])"]
    by (auto simp: capture_main_def split: option.splits)
  ultimately show ?thesis using f by auto
qed

definition sample_os :: os_env where
  "sample_os = \<lparr>env_var = (\<lambda>_. None), read_to_string = Ok, available_parallelism = None\<rparr>"

definition sample_fs :: fs_env where
  "sample_fs = \<lparr>create_dir_ok = (\<lambda>_. True), write_ok = (\<lambda>_ _. True)\<rparr>"

definition sample_transport :: "(string, nat) transport_env" where
  "sample_transport = \<lparr>parse_multiaddr = Some, p2p_ids = (\<lambda>_. []), blake2b_32 = (\<lambda>_. []),
     noise_config_ok = True, listen_ok = (\<lambda>_. True), dial_ok = (\<lambda>_. True)\<rparr>"

lemma sample_client_swarm: "client_swarm sample_transport chain_id peers \<noteq> None"
proof -
  have "client_swarm sample_transport chain_id peers =
      Some (peers, dialling_swarm sample_transport chain_id peers)"
    by (simp add: client_swarm_Some_iff sample_transport_def list_all_iff)
  then show ?thesis by simp
qed

definition sample_events :: "nat swarm_event list" where
  "sample_events = [Tick, Message (sample_payload 1), Message (sample_payload 0), Message (sample_payload 0)]"

theorem capture_saves_first_witness:
  "\<exists>files. capture_main sample_fs sample_transport sample_os sample_events =
     Some (1, files) \<and> map snd files = [sample_payload 0]"
proof -
  have "delivered sample_events =
      [sample_payload 0, sample_payload 0]"
    by (simp add: sample_events_def delivered_def map_filter_simps is_new_state_def sample_payload_def nth_append)
  moreover have "network_seeds (env_or sample_os ''MINA_NETWORK'' ''devnet'') = Some (DEVNET_CHAIN_ID, DEVNET_PEERS)"
    by (simp add: env_or_def sample_os_def network_seeds_def)
  moreover have "env_number sample_os ''CAPTURE_BLOCKS'' 1 = 1" by (simp add: env_number_def sample_os_def)
  ultimately show ?thesis
    using capture_saves_first [OF _ sample_client_swarm, of sample_os _ _ sample_fs 1 sample_events]
    by (auto simp: sample_fs_def)
qed

end
