(* ===== verification/BinariesCorrect.thy ===== *)
theory BinariesCorrect
  imports GossipCorrect
begin

text \<open>
  The threads of the live monitor and the command line tool. Every interleaving of the gossip loop and
  the worker ends, and it ends with what the worker makes of the delivered blocks in order; the exit code
  and the output of the command line tool are determined by the first file that fails.
\<close>

section \<open>Interleavings of the live monitor\<close>

text \<open>What is still to come from the loop, and what the worker will have made of everything.\<close>

definition to_come :: "('m, 'i, 'h, 'x) live \<Rightarrow> bytes list" where
  "to_come s = (if lv_running s then delivered (lv_events s) else [])"

definition outlook ::
  "('h, 'p, 'x, 'c) mina_env \<Rightarrow> ('h, 'p, 'x) wire_env \<Rightarrow> ('h, 'x) consensus_env \<Rightarrow> ('c, 'x) verifier \<Rightarrow>
   ('m, 'i, 'h, 'x) live \<Rightarrow> ('h, 'x) worker run" where
  "outlook E W C v s =
     (case lv_worker s of
        Diverges \<Rightarrow> Diverges
      | Panics \<Rightarrow> Panics
      | Returns wk \<Rightarrow> worker_loop E W C v (sub_user (lv_sub s) @ to_come s) wk)"

definition live_work :: "('m, 'i, 'h, 'x) live \<Rightarrow> nat" where
  "live_work s = 2 * length (lv_events s) + length (sub_user (lv_sub s))"

lemma delivered_Nil: "delivered [] = []"
  by (simp add: delivered_def map_filter_simps)

lemma gossip_turn_delivers:
  assumes "subscribe_step (send_block receiver) no_tick addrs ev sub = (sub', brk)"
  shows "receiver \<Longrightarrow> sub_user sub' @ (if brk then [] else delivered evs) = sub_user sub @ delivered (ev # evs)"
    and "\<not> receiver \<Longrightarrow> sub_user sub' = sub_user sub"
    and "length (sub_user sub') \<le> Suc (length (sub_user sub))"
  using assms
  by (cases ev; auto simp: delivered_def map_filter_simps send_block_def no_tick_def split: if_splits)+

lemma live_step_outlook:
  assumes "live_step E W C v addrs s t"
  shows "outlook E W C v t = outlook E W C v s \<and> live_work t < live_work s"
  using assms
proof (cases rule: live_stepE)
  case (gossip_turn ev evs sub brk)
  then show ?thesis
    using gossip_turn_delivers(1) [OF gossip_turn(4), of evs] gossip_turn_delivers(3) [OF gossip_turn(4)]
    by (auto simp: outlook_def to_come_def live_work_def split: run.split)
next
  case (worker_turn wk payload channel)
  then show ?thesis
    by (auto simp: outlook_def to_come_def live_work_def recv_def split: run.split list.splits)
qed

lemma live_progress:
  assumes "\<not> live_done s"
  shows "\<exists>t. live_step E W C v addrs s t"
proof (cases "lv_running s \<and> lv_events s \<noteq> []")
  case True
  then obtain ev evs where "lv_running s" "lv_events s = ev # evs" by (cases "lv_events s") auto
  then show ?thesis
    by (cases "subscribe_step (send_block (lv_worker s \<noteq> Panics)) no_tick addrs ev (lv_sub s)") (blast intro: gossip_turn)
next
  case False
  then obtain wk payload channel where "lv_worker s = Returns wk" "sub_user (lv_sub s) = payload # channel"
    using assms by (auto simp: live_done_def neq_Nil_conv)
  then have "recv (sub_user (lv_sub s)) = (Ready payload, channel)" by (simp add: recv_def)
  with \<open>lv_worker s = Returns wk\<close> show ?thesis by (blast intro: worker_turn)
qed

lemma live_done_outlook: "live_done s \<Longrightarrow> outlook E W C v s = lv_worker s"
  by (auto simp: live_done_def outlook_def to_come_def delivered_def map_filter_simps split: run.split)

interpretation live: finishing_machine "\<lambda>s. s = live_start sub evs" "live_step E W C v addrs"
  "\<lambda>s. outlook E W C v s = outlook E W C v (live_start sub evs)" live_done live_work
  for E :: "('h, 'p, 'x, 'c) mina_env" and W C v addrs sub and evs :: "'i swarm_event list"
  by unfold_locales (auto simp: live_step_outlook live_progress)

lemma outlook_start:
  "sub_user sub = [] \<Longrightarrow> outlook E W C v (live_start sub evs) = worker_loop E W C v (delivered evs) worker_start"
  by (simp add: outlook_def live_start_def to_come_def)

text \<open>C9. The live monitor does not depend on scheduling: however the gossip loop and the worker thread are
  interleaved, no schedule goes on for ever, each can be continued until everything is done, and when it
  is done the worker has the result of the sequential run, the verification and ingestion of the
  delivered blocks in the order of their arrival.\<close>

theorem live_schedules_agree:
  assumes "network_seeds (env_or Os ''MINA_NETWORK'' ''devnet'') = Some (chain_id, peers)"
    and "subscribe_start T chain_id peers [] = Some (addrs, sub)"
    and "fst (for_network N E (env_or Os ''MINA_NETWORK'' ''devnet'') g) = Ok v"
    and "reachable (\<lambda>s. s = live_start sub evs) (live_step E W C v addrs) s"
  shows "(\<forall>f. f 0 = s \<longrightarrow> \<not> (\<forall>n. live_step E W C v addrs (f n) (f (Suc n)))) \<and>
    (\<exists>t. (live_step E W C v addrs)\<^sup>*\<^sup>* s t \<and> live_done t) \<and>
    (live_done s \<longrightarrow> lv_worker s = monitor_main N T E W C Os evs g)"
proof -
  have inv: "outlook E W C v s = outlook E W C v (live_start sub evs)" by (rule live.reachable_inv [OF assms(4)])
  have user: "sub_user sub = []" using assms(2) by (auto simp: subscribe_start_def bind_eq_Some_conv)
  have "feed_until (send_block True) (delivered evs) [] = delivered evs"
    using channel.contents_pushes [of "delivered evs" "[]"] by (simp add: feed_fold send_block_def)
  then have "monitor_main N T E W C Os evs g = worker_loop E W C v (delivered evs) worker_start"
    using assms(1,2,3) user by (simp add: monitor_main_def subscribe_blocks_def subscribe_loop_feeds)
  then have "live_done s \<longrightarrow> lv_worker s = monitor_main N T E W C Os evs g"
    using live_done_outlook [of s E W C v] inv outlook_start [OF user] by metis
  then show ?thesis using live.no_endless_run live.finishes inv by metis
qed

text \<open>A worker that panicked is not missed: the gossip loop goes on to its end, and every block it delivers
  from then on is dropped unverified.\<close>

theorem dead_worker_unnoticed:
  assumes "(live_step E W C v addrs)\<^sup>*\<^sup>* s t" and "lv_worker s = Panics"
  shows "lv_worker t = Panics \<and> sub_user (lv_sub t) = sub_user (lv_sub s)"
  using assms(1)
proof (induction rule: rtranclp_induct)
  case (step t u)
  from step.hyps(2) show ?case
  proof (cases rule: live_stepE)
    case (gossip_turn ev evs sub brk)
    then show ?thesis using gossip_turn_delivers(2) [OF gossip_turn(4)] step.IH by auto
  qed (use step.IH in auto)
qed (use assms(2) in simp)

definition sample_sub :: "(bytes list, string, nat) subscription" where
  "sample_sub = \<lparr>sub_user = [], sub_connected = {}, sub_dialled = DEVNET_PEERS, sub_topics = [CONSENSUS_TOPIC],
     sub_explicit = []\<rparr>"

lemma sample_subscribe_start:
  "subscribe_start sample_transport DEVNET_CHAIN_ID DEVNET_PEERS [] = Some (DEVNET_PEERS, sample_sub)"
proof -
  have "client_swarm sample_transport DEVNET_CHAIN_ID DEVNET_PEERS =
      Some (DEVNET_PEERS, dialling_swarm sample_transport DEVNET_CHAIN_ID DEVNET_PEERS)"
    by (simp add: client_swarm_Some_iff sample_transport_def list_all_iff)
  then show ?thesis by (simp add: subscribe_start_def sample_sub_def sample_transport_def dialling_swarm_def)
qed

lemma sample_for_network:
  "fst (for_network sample_netcfg sample_env ''devnet'' sample_globals) = Ok sample_verifier"
  by (simp add: for_network_def SUPPORTED_NETWORKS_def workdir_call_once_def sample_globals_def
      sample_netcfg_def devnet_index_def sample_env_def sample_verifier_def)

theorem live_schedules_agree_witness:
  "\<exists>s. reachable (\<lambda>s. s = live_start sample_sub [Message (sample_payload 0)])
       (live_step sample_env sample_wire sample_consensus sample_verifier DEVNET_PEERS) s \<and> live_done s \<and>
     lv_worker s = monitor_main sample_netcfg sample_transport sample_env sample_wire sample_consensus
       sample_os [Message (sample_payload 0)] sample_globals"
proof -
  let ?step = "live_step sample_env sample_wire sample_consensus sample_verifier DEVNET_PEERS"
  let ?s0 = "live_start sample_sub [Message (sample_payload 0)]"
  let ?s1 = "?s0\<lparr>lv_events := [], lv_running := True, lv_sub := sample_sub\<lparr>sub_user := [sample_payload 0]\<rparr>\<rparr>"
  let ?s2 = "?s1\<lparr>lv_sub := sample_sub\<lparr>sub_user := []\<rparr>,
    lv_worker := worker_step sample_env sample_wire sample_consensus sample_verifier (sample_payload 0) worker_start\<rparr>"
  have "is_new_state (sample_payload 0)" by (simp add: is_new_state_def sample_payload_def nth_append)
  then have "?step ?s0 ?s1"
    using gossip_turn [of ?s0 "Message (sample_payload 0)" "[]" DEVNET_PEERS
      "sample_sub\<lparr>sub_user := [sample_payload 0]\<rparr>" False]
    by (simp add: live_start_def sample_sub_def send_block_def)
  moreover have "?step ?s1 ?s2"
    using worker_turn [OF _ _ refl, of ?s1 worker_start "sample_payload 0" "[]"]
    by (simp add: live_start_def recv_def)
  ultimately have reach: "reachable (\<lambda>s. s = ?s0) ?step ?s2"
    by (blast intro: reachable.intros)
  have fin: "live_done ?s2" by (simp add: live_done_def live_start_def)
  have seeds: "network_seeds (env_or sample_os ''MINA_NETWORK'' ''devnet'') = Some (DEVNET_CHAIN_ID, DEVNET_PEERS)"
    and net: "env_or sample_os ''MINA_NETWORK'' ''devnet'' = ''devnet''"
    by (simp_all add: env_or_def sample_os_def network_seeds_def)
  have "fst (for_network sample_netcfg sample_env (env_or sample_os ''MINA_NETWORK'' ''devnet'') sample_globals) =
      Ok sample_verifier"
    using sample_for_network net by simp
  from live_schedules_agree [OF seeds sample_subscribe_start this reach] fin reach
  show ?thesis by (intro exI [of _ ?s2]) simp
qed

section \<open>The command line tool\<close>

lemma load_and_verify_Ok:
  assumes "load_and_verify read_file E W v path = Some (Ok tip)"
  shows "\<exists>bs. read_file path = Ok bs \<and> payload_tip E W v bs = Some tip"
proof -
  obtain bs b where "read_file path = Ok bs" "block_from_gossip_payload W bs = Ok b"
    "verify_tip E v b = Some (Ok (Some tip))"
    using assms by (auto simp: load_and_verify_def split: sum.splits option.splits)
  then show ?thesis by (auto simp: payload_tip_def)
qed

lemma cli_loop_prefix:
  assumes "list_all2 (\<lambda>path tip. load_and_verify read_file E W v path = Some (Ok tip)) good tips"
    and "ingest_all C tips m0 = Returns (outs, m)"
  shows "cli_loop read_file E W C v (good @ rest) out m0 =
    cli_loop read_file E W C v rest (out @ map2 (\<lambda>t. outcome_line (tip_height t)) tips outs) m"
  using assms
proof (induction arbitrary: m0 outs out rule: list_all2_induct)
  case (Cons path good tip tips)
  obtain o1 outs' m1 where run: "ingest C tip m0 = Returns (o1, m1)" "ingest_all C tips m1 = Returns (outs', m)"
    "outs = o1 # outs'"
    by (rule ingest_all_Cons [OF Cons.prems])
  then show ?case using Cons.IH [OF run(2)] Cons.hyps by simp
qed simp

lemma cli_loop_Ok:
  "cli_loop read_file E W C v paths out m = Returns (Ok r) \<Longrightarrow> path \<in> set paths \<Longrightarrow>
   \<exists>tip. load_and_verify read_file E W v path = Some (Ok tip)"
proof (induction paths arbitrary: out m)
  case (Cons p ps)
  from Cons.prems(1) obtain tip out' m' where "load_and_verify read_file E W v p = Some (Ok tip)"
    "cli_loop read_file E W C v ps out' m' = Returns (Ok r)"
    by (auto simp: Let_def split: option.splits sum.splits run.splits)
  then show ?case using Cons by auto
qed simp

lemma load_and_verify_code:
  "load_and_verify read_file E W v path = Some (Err (code, printed)) \<Longrightarrow> code = 1 \<or> code = 2"
  by (auto simp: load_and_verify_def split: sum.splits option.splits)

lemma cli_loop_code:
  "cli_loop read_file E W C v paths out m = Returns (Err (code, printed)) \<Longrightarrow> code = 1 \<or> code = 2"
proof (induction paths arbitrary: out m)
  case (Cons p ps)
  then show ?case
    by (auto simp: Let_def split: option.splits sum.splits run.splits dest: load_and_verify_code)
qed simp

lemma cli_verifier_code: "cli_verifier N E Os g = Err (code, printed) \<Longrightarrow> code = 2"
  by (auto simp: cli_verifier_def result_simps split: option.splits sum.splits elim!: map_err.elims and_then.elims)

text \<open>C20. Exit code 0 of the command line tool means that every file named was read, decoded and had its
  proof checked and accepted by the verifier built from the environment; there is at least one file.\<close>

theorem cli_exit_zero:
  assumes "cli_main N E W C Os read_file args g = Returns (0, out)"
  shows "args \<noteq> [] \<and> (\<exists>v. cli_verifier N E Os g = Ok v \<and>
    list_all (\<lambda>path. \<exists>bs b. read_file path = Ok bs \<and> block_from_gossip_payload W bs = Ok b \<and>
      verify_block E v b = Some True) args)"
proof -
  have ne: "args \<noteq> []" using assms by (auto simp: cli_main_def)
  obtain v where v: "cli_verifier N E Os g = Ok v"
    using assms ne cli_verifier_code [of N E Os g 0 out]
    by (cases "cli_verifier N E Os g") (auto simp: cli_main_def)
  have "\<exists>tip. load_and_verify read_file E W v path = Some (Ok tip)" if "path \<in> set args" for path
  proof (cases "length args = 1")
    case True
    then obtain p where "args = [p]" by (cases args) auto
    then show ?thesis
      using that assms v load_and_verify_code [of read_file E W v p 0 out]
      by (auto simp: cli_main_def split: option.splits sum.splits)
  next
    case False
    then obtain p q ps where args: "args = p # q # ps" using ne by (cases args; cases "tl args") auto
    then obtain r where "cli_loop read_file E W C v args [] (new 512) = Returns (Ok r)"
      using assms v cli_loop_code [of read_file E W C v args "[]" "new 512" 0 out]
      by (auto simp: cli_main_def simp del: cli_loop.simps split: run.splits sum.splits)
    from cli_loop_Ok [OF this that] show ?thesis .
  qed
  then have "list_all (\<lambda>path. \<exists>bs b. read_file path = Ok bs \<and> block_from_gossip_payload W bs = Ok b \<and>
      verify_block E v b = Some True) args"
    by (force simp: list_all_iff dest!: load_and_verify_Ok payload_gate.gate_proved)
  with ne v show ?thesis by blast
qed

theorem cli_exit_zero_witness:
  "\<exists>v. cli_verifier sample_netcfg sample_env sample_os sample_globals = Ok v \<and>
     list_all (\<lambda>path. \<exists>b. block_from_gossip_payload sample_wire (sample_payload 0) = Ok b \<and>
       verify_block sample_env v b = Some True) [''block-0.gossipbin'']"
proof -
  have v: "cli_verifier sample_netcfg sample_env sample_os sample_globals = Ok sample_verifier"
    using sample_for_network by (simp add: cli_verifier_def sample_os_def env_or_def)
  have "payload_tip sample_env sample_wire sample_verifier (sample_payload 0) = Some (sample_tip 20 10 2)"
    by (simp add: sample_payload_tip)
  then have "load_and_verify (\<lambda>_. Ok (sample_payload 0)) sample_env sample_wire sample_verifier ''block-0.gossipbin'' =
      Some (Ok (sample_tip 20 10 2))"
    by (auto simp: load_and_verify_def payload_tip_def bind_eq_Some_conv split: sum.splits)
  then have "\<exists>out. cli_main sample_netcfg sample_env sample_wire sample_consensus sample_os
      (\<lambda>_. Ok (sample_payload 0)) [''block-0.gossipbin''] sample_globals = Returns (0, out)"
    by (simp add: cli_main_def v)
  then show ?thesis using cli_exit_zero by fastforce
qed

text \<open>C30. What the command line tool prints and returns in chain-monitor mode: files that verify are
  ingested in the order of the command line, one line each; if all do, the exit code is 0 and the best tip
  is printed last; otherwise the first file that fails decides the exit code, after the lines of the files
  before it, and later files are not looked at.\<close>

theorem cli_run:
  assumes "cli_verifier N E Os g = Ok v" and "2 \<le> length args"
    and "list_all2 (\<lambda>path tip. load_and_verify read_file E W v path = Some (Ok tip)) good tips"
    and "ingest_all C tips (new 512) = Returns (outs, m)"
    and "lines = map2 (\<lambda>t. outcome_line (tip_height t)) tips outs"
  shows "(args = good \<longrightarrow>
      cli_main N E W C Os read_file args g = Returns (0, lines @ best_line C m)) \<and>
    (args = good @ bad # rest \<and> load_and_verify read_file E W v bad = Some (Err (code, printed)) \<longrightarrow>
      cli_main N E W C Os read_file args g = Returns (code, lines @ printed))"
proof -
  obtain p q ps where args: "args = p # q # ps" using assms(2) by (cases args; cases "tl args") auto
  have main: "cli_main N E W C Os read_file args g =
      (case cli_loop read_file E W C v args [] (new 512) of
         Diverges \<Rightarrow> Diverges
       | Panics \<Rightarrow> Panics
       | Returns (Inl ex) \<Rightarrow> Returns ex
       | Returns (Inr (out, m)) \<Rightarrow> Returns (0, out @ best_line C m))"
    by (simp add: cli_main_def assms(1) args del: cli_loop.simps)
  show ?thesis
    using main cli_loop_prefix [OF assms(3,4), of "[]" "[]"] cli_loop_prefix [OF assms(3,4), of "bad # rest" "[]"]
    by (auto simp: assms(5))
qed

theorem cli_run_witness:
  "\<exists>out. cli_main sample_netcfg sample_env sample_wire sample_consensus sample_os
     (\<lambda>path. if path = ''a'' then Ok (sample_payload 0) else Err ''no such file'') [''a'', ''b''] sample_globals =
       Returns (2, out) \<and> length out = 1"
proof -
  let ?rf = "\<lambda>path. if path = ''a'' then Ok (sample_payload 0) else Err ''no such file''"
  have v: "cli_verifier sample_netcfg sample_env sample_os sample_globals = Ok sample_verifier"
    using sample_for_network by (simp add: cli_verifier_def sample_os_def env_or_def)
  have "payload_tip sample_env sample_wire sample_verifier (sample_payload 0) = Some (sample_tip 20 10 2)"
    by (simp add: sample_payload_tip)
  then have good: "list_all2 (\<lambda>path tip. load_and_verify ?rf sample_env sample_wire sample_verifier path = Some (Ok tip))
      [''a''] [sample_tip 20 10 2]"
    by (auto simp: load_and_verify_def payload_tip_def bind_eq_Some_conv split: sum.splits)
  obtain outs m where run: "ingest_all sample_consensus [sample_tip 20 10 2] (new 512) = Returns (outs, m)"
    using ingest_genesis [of sample_consensus "sample_tip 20 10 2" "new 512"] by (simp add: new_def)
  have bad: "load_and_verify ?rf sample_env sample_wire sample_verifier ''b'' = Some (Err (2, []))"
    by (simp add: load_and_verify_def)
  show ?thesis
    using cli_run [OF v _ good run refl, of "[''a'', ''b'']" "''b''" "[]" 2 "[]"] bad
      ingest_all_length [OF run] by simp
qed

end
