(* ===== verification/RpcCorrect.thy ===== *)
theory RpcCorrect
  imports RpcNet
begin

text \<open>
  The properties of the RPC client. What is relied on of the binprot codec of message headers is
  \<open>header_codec\<close>: for the headers in question, reading after writing gives the header back and leaves
  the rest.
\<close>

section \<open>Little-endian integers\<close>

lemma length_to_le [simp]: "length (to_le n x) = n"
  by (induction n arbitrary: x) auto

lemma bit_from_to_le: "bit (from_le (to_le n x)) k \<longleftrightarrow> k < 8 * n \<and> bit x k"
proof (induction n arbitrary: x k)
  case (Suc n)
  show ?case
    by (cases "k < 8") (auto simp: bit_simps Suc.IH dest: bit_imp_le_length)
qed simp

lemma from_to_le: "from_le (u64_to_le_bytes x) = x"
  by (rule bit_word_eqI) (simp add: u64_to_le_bytes_def bit_from_to_le)

lemma length_u64_to_le_bytes [simp]: "length (u64_to_le_bytes x) = 8"
  by (simp add: u64_to_le_bytes_def)

section \<open>Frames\<close>

definition header_codec :: "rpc_codec \<Rightarrow> message_header set \<Rightarrow> bool" where
  "header_codec K S \<longleftrightarrow> (\<forall>h \<in> S. \<forall>p. header_read K (header_write K h @ p) = Ok (h, p))"

definition frame_fits :: "rpc_codec \<Rightarrow> message_header \<Rightarrow> bytes \<Rightarrow> bool" where
  "frame_fits K h p \<longleftrightarrow> length (header_write K h @ p) < 2 ^ 63 \<and> alloc_ok K (length (header_write K h @ p))"

lemma read_frame_frame:
  assumes "frame_fits K h p" and "st_input s = frame K h p @ rest"
  shows "read_frame K s = Completes (Ok (header_write K h @ p, s\<lparr>st_input := rest\<rparr>))"
proof -
  let ?body = "header_write K h @ p"
  have len: "unat (of_nat (length ?body) :: u64) = length ?body"
    by (rule unat_of_nat_u64) (use assms(1) in \<open>simp add: frame_fits_def\<close>)
  have input: "st_input s = u64_to_le_bytes (of_nat (length ?body)) @ ?body @ rest"
    using assms(2) by (simp add: frame_def Let_def)
  have "read_exact 8 s = Completes (Ok (u64_to_le_bytes (of_nat (length ?body)), s\<lparr>st_input := ?body @ rest\<rparr>))"
    by (simp add: read_exact_def input)
  then show ?thesis
    using assms(1) len unfolding frame_fits_def
    by (simp add: read_frame_def from_to_le read_exact_def del: length_append of_nat_add) simp
qed

lemma call_loop_step:
  assumes "header_codec K {h}" and "frame_fits K h p" and "st_input s = frame K h p @ rest"
  shows "call_loop K M i s =
    (if h = Response i
     then Completes (and_then (response_read M p) (\<lambda>(payload, _). map_err (\<lambda>_. ''rpc kernel error response'') payload),
            s\<lparr>st_input := rest\<rparr>)
     else call_loop K M i (s\<lparr>st_input := rest\<rparr>))"
  using assms(1) read_frame_frame [OF assms(2,3)]
  by (subst call_loop.simps) (simp add: header_codec_def)

text \<open>Frames that are not the awaited response are passed over.\<close>

lemma call_loop_skips:
  "\<lbrakk>header_codec K (fst ` set others); \<forall>(h, p) \<in> set others. h \<noteq> Response i \<and> frame_fits K h p;
      st_input s = concat (map (\<lambda>(h, p). frame K h p) others) @ rest\<rbrakk> \<Longrightarrow>
    call_loop K M i s = call_loop K M i (s\<lparr>st_input := rest\<rparr>)"
proof (induction others arbitrary: s)
  case Nil
  then have "s\<lparr>st_input := rest\<rparr> = s" by (cases s) simp
  then show ?case by simp
next
  case (Cons m ms)
  obtain h p where m: "m = (h, p)" by (cases m)
  have "call_loop K M i s = call_loop K M i (s\<lparr>st_input := concat (map (\<lambda>(h, p). frame K h p) ms) @ rest\<rparr>)"
    using Cons.prems m call_loop_step [of K h p s "concat (map (\<lambda>(h, p). frame K h p) ms) @ rest" M i]
    by (simp add: header_codec_def)
  then show ?case using Cons.IH [of "s\<lparr>st_input := concat (map (\<lambda>(h, p). frame K h p) ms) @ rest\<rparr>"] Cons.prems
    by (simp add: header_codec_def)
qed

lemma call_loop_ends:
  assumes "st_end s \<noteq> Silent"
  shows "call_loop K M i s \<noteq> Waits"
  using assms
proof (induction K M i s rule: call_loop.induct)
  case (1 K M i s)
  have "read_exact n t \<noteq> Waits" if "st_end t \<noteq> Silent" for n t
    using that by (auto simp: read_exact_def split: stream_end.split)
  then have frame: "read_frame K s \<noteq> Waits"
    using "1.prems" by (auto simp: read_frame_def Let_def split: io.split sum.split dest!: read_exact_shrinks)
  have keep: "st_end s' = st_end s" if "read_frame K s = Completes (Ok (buf, s'))" for buf s'
    using that
    by (auto simp: read_frame_def Let_def split: io.splits sum.splits if_splits dest!: read_exact_shrinks)
  show ?case
    using frame "1.IH" "1.prems" keep
    by (subst call_loop.simps) (auto split: io.split sum.split)
qed

section \<open>Whole calls\<close>

definition written :: "bytes \<Rightarrow> stream \<Rightarrow> stream" where
  "written bs s = s\<lparr>st_output := st_output s @ bs, st_input := st_input s @ st_peer s (st_output s) bs\<rparr>"

lemma written_simps [simp]:
  "st_output (written bs s) = st_output s @ bs"
  "st_input (written bs s) = st_input s @ st_peer s (st_output s) bs"
  "st_end (written bs s) = st_end s" "st_write_error (written bs s) = st_write_error s"
  "st_peer (written bs s) = st_peer s"
  by (simp_all add: written_def)

lemma write_flush_written: "st_write_error s = None \<Longrightarrow> write_flush bs s = Ok (written bs s)"
  by (simp add: write_flush_def written_def)

lemma call_write:
  assumes "st_write_error (conn_stream conn) = None" and "unat (next_id conn) + 1 < 2 ^ 64"
  shows "call K M q conn =
    (case call_loop K M (next_id conn)
            (written (query_bytes K M q (next_id conn)) (conn_stream conn)) of
       Waits \<Rightarrow> Waits
     | Crashes \<Rightarrow> Crashes
     | Completes (r, s) \<Rightarrow> Completes (r, \<lparr>conn_stream = s, next_id = next_id conn + 1\<rparr>))"
  using assms by (cases conn) (simp add: call_def add_u64_def write_flush_written split: io.split)

text \<open>Frames that a call with id \<open>i\<close> passes over.\<close>

definition passed_over :: "rpc_codec \<Rightarrow> u64 \<Rightarrow> (message_header \<times> bytes) list \<Rightarrow> bool" where
  "passed_over K i others \<longleftrightarrow> header_codec K (fst ` set others) \<and>
     (\<forall>(h, p) \<in> set others. h \<noteq> Response i \<and> frame_fits K h p)"

definition frames :: "rpc_codec \<Rightarrow> (message_header \<times> bytes) list \<Rightarrow> bytes" where
  "frames K others = concat (map (\<lambda>(h, p). frame K h p) others)"

lemma call_response:
  assumes codec: "header_codec K {Response (next_id conn)}" and skip: "passed_over K (next_id conn) others"
    and "frame_fits K (Response (next_id conn)) payload" and "response_read M payload = Ok (Ok r, left)"
    and "st_write_error (conn_stream conn) = None" and "unat (next_id conn) + 1 < 2 ^ 64"
    and "st_input (written (query_bytes K M q (next_id conn)) (conn_stream conn)) =
      frames K others @ frame K (Response (next_id conn)) payload @ rest"
  shows "call K M q conn = Completes (Ok r,
    \<lparr>conn_stream = (written (query_bytes K M q (next_id conn)) (conn_stream conn))\<lparr>st_input := rest\<rparr>,
     next_id = next_id conn + 1\<rparr>)"
proof -
  let ?s = "written (query_bytes K M q (next_id conn)) (conn_stream conn)"
  have "call_loop K M (next_id conn) ?s = call_loop K M (next_id conn)
      (?s\<lparr>st_input := frame K (Response (next_id conn)) payload @ rest\<rparr>)"
    by (rule call_loop_skips [of K others])
      (use skip assms(7) in \<open>simp_all add: passed_over_def frames_def\<close>)
  also have "\<dots> = Completes (Ok r, ?s\<lparr>st_input := rest\<rparr>)"
    using call_loop_step [OF codec assms(3), of "?s\<lparr>st_input := frame K (Response (next_id conn)) payload @ rest\<rparr>" rest M "next_id conn"]
      assms(4) by simp
  finally show ?thesis
    using call_write [OF assms(5,6), of K M q] by simp
qed

text \<open>A peer that answers queries: to each query written, whatever was written before, it sends the response
  with the query's id, possibly after other frames; before the first query it sends only frames that are
  passed over, such as its own handshake.\<close>

definition answers_queries ::
  "rpc_codec \<Rightarrow> ('q, 'r) rpc_method \<Rightarrow> ('r \<Rightarrow> bytes) \<Rightarrow> ('q \<Rightarrow> 'r) \<Rightarrow> stream \<Rightarrow> bool" where
  "answers_queries K M enc f s \<longleftrightarrow>
     (\<exists>others. passed_over K QUERY_ID others \<and>
        st_input s @ st_peer s (st_output s) (handshake_bytes K) = frames K others) \<and>
     (\<forall>out q i. \<exists>others. passed_over K i others \<and>
        st_peer s out (query_bytes K M q i) = frames K others @ frame K (Response i) (enc (f q)))"

definition answers_decode :: "rpc_codec \<Rightarrow> ('q, 'r) rpc_method \<Rightarrow> ('r \<Rightarrow> bytes) \<Rightarrow> 'r set \<Rightarrow> bool" where
  "answers_decode K M enc as \<longleftrightarrow>
     (\<forall>a \<in> as. response_read M (enc a) = Ok (Ok a, []) \<and> (\<forall>i. frame_fits K (Response i) (enc a)))"

lemma passed_over_append: "passed_over K i xs \<Longrightarrow> passed_over K i ys \<Longrightarrow> passed_over K i (xs @ ys)"
  by (auto simp: passed_over_def header_codec_def)

lemma frames_append: "frames K (xs @ ys) = frames K xs @ frames K ys"
  by (simp add: frames_def)

text \<open>One call to such a peer: it returns the peer's answer to what was asked, and nothing is left unread.\<close>

lemma call_answered:
  assumes codec: "header_codec K (range Response)" and dec: "answers_decode K M enc {f q}"
    and early: "passed_over K (next_id conn) others" "st_input (conn_stream conn) = frames K others"
    and reply: "\<exists>more. passed_over K (next_id conn) more \<and>
      st_peer (conn_stream conn) (st_output (conn_stream conn)) (query_bytes K M q (next_id conn)) =
        frames K more @ frame K (Response (next_id conn)) (enc (f q))"
    and "st_write_error (conn_stream conn) = None" and "unat (next_id conn) + 1 < 2 ^ 64"
  shows "\<exists>conn'. call K M q conn = Completes (Ok (f q), conn') \<and> st_input (conn_stream conn') = [] \<and>
    st_peer (conn_stream conn') = st_peer (conn_stream conn) \<and> st_write_error (conn_stream conn') = None \<and>
    unat (next_id conn') = unat (next_id conn) + 1"
proof -
  obtain more where more: "passed_over K (next_id conn) more"
    "st_peer (conn_stream conn) (st_output (conn_stream conn)) (query_bytes K M q (next_id conn)) =
      frames K more @ frame K (Response (next_id conn)) (enc (f q))"
    using reply by blast
  have "header_codec K {Response (next_id conn)}" using codec by (simp add: header_codec_def)
  from call_response [OF this passed_over_append [OF early(1) more(1)], of "enc (f q)" M "f q" "[]" q "[]"]
  show ?thesis using assms(6,7) dec early(2) more(2)
    by (simp add: answers_decode_def frames_append unat_word_ariths)
qed

text \<open>Reading a ledger over one connection: the walk returns the peer's answers to the queries, asked about
  the root, in query order.\<close>

lemma ledger_walk_answered:
  assumes codec: "header_codec K (range Response)"
    and peer: "\<forall>out q i. \<exists>others. passed_over K i others \<and>
      peer out (query_bytes K M q i) = frames K others @ frame K (Response i) (enc (f q))"
  shows "\<lbrakk>answers_decode K M enc ((\<lambda>q. Ok (g q)) ` set qs); \<forall>q \<in> set qs. f (root, q) = Ok (g q);
      passed_over K (next_id conn) others; st_input (conn_stream conn) = frames K others;
      st_peer (conn_stream conn) = peer; st_write_error (conn_stream conn) = None;
      unat (next_id conn) + length qs < 2 ^ 64\<rbrakk> \<Longrightarrow>
    ledger_walk K M root qs acc conn = Completes (Ok (acc @ map g qs))"
proof (induction qs arbitrary: acc conn others)
  case (Cons q qs)
  have f: "f (root, q) = Ok (g q)" using Cons.prems(2) by simp
  have reply: "\<exists>more. passed_over K (next_id conn) more \<and>
      st_peer (conn_stream conn) (st_output (conn_stream conn)) (query_bytes K M (root, q) (next_id conn)) =
        frames K more @ frame K (Response (next_id conn)) (enc (f (root, q)))"
    using peer Cons.prems(5) by blast
  obtain conn' where call: "call K M (root, q) conn = Completes (Ok (Ok (g q)), conn')"
    and conn': "st_input (conn_stream conn') = []" "st_peer (conn_stream conn') = peer"
      "st_write_error (conn_stream conn') = None" "unat (next_id conn') = unat (next_id conn) + 1"
    using call_answered [where f = f and enc = enc and q = "(root, q)", OF codec _ Cons.prems(3,4) reply] Cons.prems(1,5-7) f by (auto simp: answers_decode_def)
  have "ledger_walk K M root qs (acc @ [g q]) conn' = Completes (Ok ((acc @ [g q]) @ map g qs))"
    by (rule Cons.IH [where others = "[]"])
      (use Cons.prems conn' in \<open>simp_all add: answers_decode_def passed_over_def header_codec_def frames_def\<close>)
  then show ?case using call by simp
qed simp

lemma ledger_session_answered:
  assumes "header_codec K (range Response)" and "answers_queries K M enc f s"
    and "answers_decode K M enc ((\<lambda>q. Ok (g q)) ` set qs)" and "\<forall>q \<in> set qs. f (root, q) = Ok (g q)"
    and "st_write_error s = None" and "length qs + 1 < 2 ^ 64"
  shows "ledger_session K M root qs s = Completes (Ok (map g qs))"
proof -
  let ?conn = "\<lparr>conn_stream = written (handshake_bytes K) s, next_id = QUERY_ID\<rparr>"
  obtain others where "passed_over K QUERY_ID others"
    "st_input s @ st_peer s (st_output s) (handshake_bytes K) = frames K others"
    using assms(2) by (auto simp: answers_queries_def)
  then have "ledger_walk K M root qs [] ?conn = Completes (Ok ([] @ map g qs))"
    by (intro ledger_walk_answered [OF assms(1) _ assms(3,4)])
      (use assms(2,5,6) in \<open>simp_all add: answers_queries_def QUERY_ID_def\<close>)
  then show ?thesis using assms(5) by (simp add: ledger_session_def open_conn_def write_flush_written)
qed

lemma ledger_walk_length:
  "ledger_walk K M root qs acc conn = Completes (Ok as) \<Longrightarrow> length as = length acc + length qs"
proof (induction qs arbitrary: acc conn)
  case (Cons q qs)
  then show ?case by (auto split: io.splits sum.splits)
qed simp

lemma fetch_length:
  assumes "fetch_sync_ledger_answers T P K M chain_id peers root queries deadline = Some (Ok answers)"
  shows "length answers = length queries"
  using assms ledger_walk_length [of K M root queries "[]"]
  by (auto simp: fetch_sync_ledger_answers_def on_stream_def with_deadline_def ledger_session_def
      split: option.splits io.splits sum.splits)

section \<open>Properties\<close>

text \<open>A codec for the witnesses: a heartbeat is one zero byte, a response is its id after a one.\<close>

definition sample_codec_rpc :: rpc_codec where
  "sample_codec_rpc =
     \<lparr>header_write = (\<lambda>h. case h of
        Heartbeat \<Rightarrow> [0] | Query t v i \<Rightarrow> 2 # u64_to_le_bytes i | Response i \<Rightarrow> 1 # u64_to_le_bytes i),
      header_read = (\<lambda>bs. case bs of
          [] \<Rightarrow> Err ''eof''
        | b # rest \<Rightarrow>
            if b = 0 then Ok (Heartbeat, rest)
            else if b = 1 then Ok (Response (from_le (take 8 rest)), drop 8 rest)
            else Ok (Query [] 0 (from_le (take 8 rest)), drop 8 rest)),
      alloc_ok = (\<lambda>n. n < 1000)\<rparr>"

definition sample_method :: "(unit, nat) rpc_method" where
  "sample_method =
     \<lparr>rm_name = ''get'', rm_version = 2, query_write = (\<lambda>_. []),
      response_read = (\<lambda>bs. case bs of [] \<Rightarrow> Err ''eof'' | b # rest \<Rightarrow> Ok (Ok (unat b), rest))\<rparr>"

definition sample_stream :: "bytes \<Rightarrow> stream" where
  "sample_stream bs =
     \<lparr>st_input = bs, st_end = Silent, st_write_error = None, st_output = [], st_peer = (\<lambda>_ _. [])\<rparr>"

text \<open>C12. A call returns the response to its own query: after any number of frames that are something
  else (the peer's handshake, heartbeats, queries, responses to other ids), the first response with
  the call's id is decoded and returned, and reading stops right behind it. What is read is what the peer
  had sent before and what it sends in reaction to the query.\<close>

theorem call_finds_response:
  assumes codec: "header_codec K (insert (Response (next_id conn)) (fst ` set others))"
    and "\<forall>(h, p) \<in> set others. h \<noteq> Response (next_id conn) \<and> frame_fits K h p"
    and "frame_fits K (Response (next_id conn)) payload" and "response_read M payload = Ok (Ok r, left)"
    and "st_write_error (conn_stream conn) = None" and "unat (next_id conn) + 1 < 2 ^ 64"
    and "st_input (conn_stream conn) @
        st_peer (conn_stream conn) (st_output (conn_stream conn)) (query_bytes K M q (next_id conn)) =
      concat (map (\<lambda>(h, p). frame K h p) others) @ frame K (Response (next_id conn)) payload @ rest"
  shows "\<exists>conn'. call K M q conn = Completes (Ok r, conn') \<and> st_input (conn_stream conn') = rest \<and>
    st_output (conn_stream conn') = st_output (conn_stream conn) @ query_bytes K M q (next_id conn) \<and>
    unat (next_id conn') = unat (next_id conn) + 1"
proof -
  have "header_codec K {Response (next_id conn)}" "passed_over K (next_id conn) others"
    using codec assms(2) by (auto simp: header_codec_def passed_over_def)
  from call_response [OF this assms(3-6), of q rest] show ?thesis
    using assms(6,7) by (simp add: frames_def unat_word_ariths)
qed

lemma take_drop_le: "take 8 (u64_to_le_bytes i @ p) = u64_to_le_bytes i" "drop 8 (u64_to_le_bytes i @ p) = p"
  by simp_all

lemma sample_header_codec: "header_codec sample_codec_rpc (insert Heartbeat (range Response))"
  by (auto simp: header_codec_def sample_codec_rpc_def from_to_le take_drop_le simp del: take_append drop_append)

lemma sample_fits:
  "frame_fits sample_codec_rpc Heartbeat p \<longleftrightarrow> length p < 999"
  "frame_fits sample_codec_rpc (Response i) p \<longleftrightarrow> length p < 991"
  by (auto simp: frame_fits_def sample_codec_rpc_def)

theorem call_finds_response_witness:
  "\<exists>conn'. call sample_codec_rpc sample_method ()
      \<lparr>conn_stream = sample_stream (handshake_bytes sample_codec_rpc @ frame sample_codec_rpc Heartbeat [] @
         frame sample_codec_rpc (Response 7) [5] @ frame sample_codec_rpc (Response 1) [42] @ [9]),
       next_id = QUERY_ID\<rparr> = Completes (Ok 42, conn') \<and> st_input (conn_stream conn') = [9]"
proof -
  define others where "others = [(Response HANDSHAKE_ID, [1]), (Heartbeat, []), (Response 7, [5 :: u8])]"
  define conn where "conn = \<lparr>conn_stream = sample_stream (concat (map (\<lambda>(h, p). frame sample_codec_rpc h p) others) @
      frame sample_codec_rpc (Response 1) [42] @ [9]), next_id = QUERY_ID\<rparr>"
  have "header_codec sample_codec_rpc (insert (Response (next_id conn)) (fst ` set others))"
    using sample_header_codec by (simp add: header_codec_def others_def)
  moreover have "\<forall>(h, p) \<in> set others. h \<noteq> Response (next_id conn) \<and> frame_fits sample_codec_rpc h p"
    by (simp add: others_def conn_def QUERY_ID_def HANDSHAKE_ID_def sample_fits)
  moreover have "response_read sample_method [42] = Ok (Ok 42, [])" by (simp add: sample_method_def)
  ultimately have "\<exists>conn'. call sample_codec_rpc sample_method () conn = Completes (Ok 42, conn') \<and>
      st_input (conn_stream conn') = [9]"
    using call_finds_response [of sample_codec_rpc conn others "[42]" sample_method 42 "[]" "()" "[9]"]
    by (auto simp: conn_def sample_stream_def QUERY_ID_def sample_fits)
  then show ?thesis by (simp add: conn_def others_def handshake_bytes_def)
qed

text \<open>A call never hangs on a stream that ends: when the peer's input ends in an error or in the end
  of the stream, the call completes or crashes; only a silent peer keeps it waiting.\<close>

theorem call_does_not_hang:
  assumes "st_end (conn_stream conn) \<noteq> Silent"
  shows "call K M q conn \<noteq> Waits"
  using assms call_loop_ends [of "written (query_bytes K M q (next_id conn)) (conn_stream conn)"]
  by (auto simp: call_def Let_def write_flush_def written_def split: option.splits sum.splits io.splits)

theorem call_does_not_hang_witness:
  "call sample_codec_rpc sample_method () \<lparr>conn_stream = (sample_stream [1, 0])\<lparr>st_end := Ends ''eof''\<rparr>, next_id = 1\<rparr> \<noteq> Waits"
  by (rule call_does_not_hang) simp

text \<open>A frame length of \<open>2 ^ 63\<close> or more crashes the client: the length an untrusted peer sends goes
  into \<^verbatim>\<open>vec!\<close> unchecked, so eight bytes from the peer, before any header or proof is looked at, panic
  the thread that waits for the best tip.\<close>

theorem hostile_length_crashes:
  assumes "2 ^ 63 \<le> unat n" and "st_write_error s = None" and "st_input s = u64_to_le_bytes n @ rest"
  shows "rpc_best_tip K M s = Crashes"
proof -
  let ?s = "written (query_bytes K M () QUERY_ID) (written (handshake_bytes K) s)"
  have "read_frame K ?s = Crashes"
    using assms by (simp add: read_frame_def read_exact_def from_to_le)
  then have "call_loop K M QUERY_ID ?s = Crashes" by (subst call_loop.simps) simp
  then show ?thesis
    using assms(2) by (simp add: rpc_best_tip_def open_conn_def write_flush_written call_def add_u64_def QUERY_ID_def)
qed

definition sample_tip_method :: "(unit, (nat, unit) proof_carrying option) rpc_method" where
  "sample_tip_method =
     \<lparr>rm_name = ''get_best_tip'', rm_version = 2, query_write = (\<lambda>_. []),
      response_read = (\<lambda>bs. case bs of [] \<Rightarrow> Ok (Ok None, []) | b # rest \<Rightarrow> Ok (Ok (Some \<lparr>pc_data = unat b, pc_proof = ()\<rparr>), rest))\<rparr>"

theorem hostile_length_crashes_witness:
  "rpc_best_tip sample_codec_rpc sample_tip_method (sample_stream (u64_to_le_bytes 0x8000000000000000)) = Crashes"
  by (rule hostile_length_crashes [where n = "0x8000000000000000" and rest = "[]"]) (simp_all add: sample_stream_def)

text \<open>An honest peer's best tip gets through.\<close>

lemma rpc_best_tip_response:
  assumes codec: "header_codec K {Response QUERY_ID}" and "passed_over K QUERY_ID others"
    and "frame_fits K (Response QUERY_ID) payload" and "response_read M payload = Ok (Ok (Some tip), left)"
    and "st_write_error s = None"
    and "st_input (written (query_bytes K M () QUERY_ID) (written (handshake_bytes K) s)) =
      frames K others @ frame K (Response QUERY_ID) payload @ rest"
  shows "rpc_best_tip K M s = Completes (Ok (pc_data tip))"
proof -
  let ?conn = "\<lparr>conn_stream = written (handshake_bytes K) s, next_id = QUERY_ID\<rparr>"
  have "open_conn K s = Ok ?conn" using assms(5) by (simp add: open_conn_def write_flush_written)
  moreover have "\<exists>conn'. call K M () ?conn = Completes (Ok (Some tip), conn')"
    using call_response [of K ?conn others payload M "Some tip" left "()" rest] assms by (simp add: QUERY_ID_def)
  ultimately show ?thesis by (auto simp: rpc_best_tip_def)
qed

section \<open>Streams of a swarm\<close>

lemma swarm_ok_taken:
  assumes "swarm_ok sw"
  shows "distinct (requests sw) \<and> distinct (map fst (negotiated sw)) \<and>
    (\<exists>taken. yielded sw = map snd taken \<and> distinct (map fst taken) \<and> set taken \<subseteq> set (negotiated sw))"
proof -
  obtain taken where inv: "swarm_inv taken sw" using assms by (auto simp: swarm_ok_def)
  have keep: "yielded sw @ streams (behaviour sw) = map snd taken" "distinct (map fst taken)"
    "set taken \<subseteq> set (negotiated sw)" "distinct (requests sw)" "distinct (map fst (negotiated sw))"
    using inv unfolding swarm_inv_def by blast+
  define ours where "ours = take (length (yielded sw)) taken"
  have "yielded sw = map snd ours" unfolding ours_def using keep(1) by (metis append_eq_conv_conj take_map)
  moreover have "distinct (map fst ours)"
    unfolding ours_def take_map [symmetric] using keep(2) by (rule distinct_take)
  moreover have "set ours \<subseteq> set (negotiated sw)"
    unfolding ours_def using keep(3) set_take_subset by (rule subset_trans [rotated])
  ultimately show ?thesis using keep(4,5) by blast
qed

lemma net_polls:
  "yielded (net_run (replicate n PollBehaviour) sw) = yielded sw @ fst (pops behaviour_poll n (behaviour sw))"
proof (induction n arbitrary: sw)
  case (Suc n)
  show ?case
  proof (cases "behaviour_poll (behaviour sw)")
    case (Pair p b)
    show ?thesis
    proof (cases p)
      case Pending
      then have "streams (behaviour sw) = []" and "b = behaviour sw"
        using Pair by (auto simp: behaviour_poll_def split: list.splits)
      then show ?thesis
        using Suc.IH [of sw] Pair Pending surfaced_streams.pops_take [of n "behaviour sw"] by (simp add: net_run_def)
    next
      case (Ready s)
      then show ?thesis
        using Suc.IH [of "sw\<lparr>behaviour := b, yielded := yielded sw @ [s]\<rparr>"] Pair
        by (simp add: net_run_def split: prod.split)
    qed
  qed
qed (simp add: net_run_def)

lemma net_run_append: "net_run (evs @ evs') sw = net_run evs' (net_run evs sw)"
  by (simp add: net_run_def)

lemma first_stream_negotiated:
  assumes "first_stream evs = Some s"
  shows "\<exists>c. (c, s) \<in> set (negotiated (net_run evs net_start))"
proof -
  have "s \<in> set (yielded (net_run evs net_start))"
    using assms by (auto simp: first_stream_def split: list.splits)
  then show ?thesis
    using swarm_ok_taken [OF rpc_net.reachable_inv [OF net_run_reachable], of evs] by force
qed

text \<open>C13. However libp2p schedules the connections, the RPC behaviour asks for one substream per
  connection, so at most one stream is negotiated on each; every stream it hands to the fetch functions
  was negotiated on a connection of its own at its request, and no stream is handed out twice.\<close>

theorem one_stream_per_connection:
  "distinct (requests (net_run evs net_start)) \<and> distinct (map fst (negotiated (net_run evs net_start))) \<and>
   (\<exists>taken. yielded (net_run evs net_start) = map snd taken \<and> distinct (map fst taken) \<and>
      set taken \<subseteq> set (negotiated (net_run evs net_start)))"
  by (rule swarm_ok_taken [OF rpc_net.reachable_inv [OF net_run_reachable]])

text \<open>C29. No stream gets stuck: a stream negotiated on a live connection that asked for one reaches the
  fetch functions once its handler is polled and the behaviour is polled at least as often as it has
  streams, after those queued before it and in their order; polling more often changes nothing.\<close>

theorem negotiated_stream_yielded:
  assumes "handlers (net_run evs net_start) c = Some h" and "c \<in> set (under_way (net_run evs net_start))"
    and k: "length (streams (behaviour (net_run evs net_start))) < k"
  shows "yielded (net_run (evs @ [Negotiated c s, PollHandler c] @ replicate k PollBehaviour) net_start) =
    yielded (net_run evs net_start) @ streams (behaviour (net_run evs net_start)) @ [s]"
proof -
  let ?sw = "net_run evs net_start"
  let ?sw' = "net_run [Negotiated c s, PollHandler c] ?sw"
  obtain taken where inv: "swarm_inv taken ?sw"
    using rpc_net.reachable_inv [OF net_run_reachable, of evs] by (auto simp: swarm_ok_def)
  have h: "handler_ok ?sw taken c h" using inv assms(1) by (simp add: swarm_inv_def)
  have "c \<notin> fst ` set (negotiated ?sw)" "c \<in> set (requests ?sw)"
    using inv assms(2) by (auto simp: swarm_inv_def)
  then have "ready h = [] \<and> requested h" using h by (force simp: handler_ok_def)
  then have "behaviour ?sw' = on_connection_handler_event s (behaviour ?sw)" "yielded ?sw' = yielded ?sw"
    using assms(1,2) by (simp_all add: net_run_def poll_connection_cases on_connection_handler_event_def)
  then show ?thesis
    using net_polls [of k ?sw'] surfaced_streams.pushes_then_pops [of "behaviour ?sw" "[s]" k] k
    unfolding net_run_append by simp
qed

theorem negotiated_stream_yielded_witness:
  "yielded (net_run ([Established 0, Established (1::nat), PollHandler 0, PollHandler 1, Negotiated 1 CHR ''b'', PollHandler 1]
      @ [Negotiated 0 CHR ''a'', PollHandler 0] @ replicate 5 PollBehaviour) net_start) = ''ba''"
  by (subst negotiated_stream_yielded [where h = "\<lparr>requested = True, ready = []\<rparr>"])
    (simp_all add: net_run_def net_start_def poll_connection_cases handle_established_connection_def
      handler_default_def)

end
