(* ===== verification/ExamplesCorrect.thy ===== *)
theory ExamplesCorrect
  imports Examples BinariesCorrect RpcCorrect
begin

text \<open>
  Properties of the example programs and of the block sources they use: a published block decodes to what
  was captured and gets the same verdict and the same facts, and whatever a source yields was proved.
\<close>

section \<open>Round trip of a published block\<close>

text \<open>What is relied on of the codecs: each decoder undoes its encoder.\<close>

definition publish_laws :: "('h, 'p, 'x) json_env \<Rightarrow> ('h, 'p, 'x) publish_env \<Rightarrow> bool" where
  "publish_laws J B \<longleftrightarrow>
     (\<forall>s j. state_to_value B s = Ok j \<longrightarrow> state_from_value J j = Ok s) \<and>
     (\<forall>s. string_from_value J (JString s) = Ok s) \<and>
     (\<forall>bs. base64_decode J (base64_encode B bs) = Ok bs) \<and>
     (\<forall>p. proof_read J (proof_write B p) = Ok (p, [])) \<and>
     (\<forall>h j. published_value B h = Some j \<longrightarrow> json_from_str J (json_to_string B j) = Ok j)"

text \<open>The proof check and the state hash read the protocol state and the proof only.\<close>

definition reads_state :: "('h, 'p, 'x, 'c) mina_env \<Rightarrow> ('c, 'x) verifier \<Rightarrow> bool" where
  "reads_state E v \<longleftrightarrow>
     (\<forall>h1 h2. protocol_state h1 = protocol_state h2 \<longrightarrow> protocol_state_proof h1 = protocol_state_proof h2 \<longrightarrow>
        verify_header E v h1 = verify_header E v h2 \<and> header_try_hash E h1 = header_try_hash E h2)"

lemma published_decodes:
  assumes laws: "publish_laws J B" and pub: "published_value B h = Some j"
  shows "header_from_precomputed J (json_to_string B j) =
    Ok (placeholder_header (protocol_state h) (protocol_state_proof h))"
proof -
  obtain ps where ps: "state_to_value B (protocol_state h) = Ok ps"
    and j: "j = JObject [(''data'', JObject [(''protocol_state'', ps),
      (''protocol_state_proof'', JString (base64_encode B (proof_write B (protocol_state_proof h))))])]"
    using pub by (cases "state_to_value B (protocol_state h)") (auto simp: published_value_def Let_def)
  have "json_from_str J (json_to_string B j) = Ok j" "state_from_value J ps = Ok (protocol_state h)"
    "string_from_value J (JString b64) = Ok b64" "base64_decode J (base64_encode B bs) = Ok bs"
    "proof_read J (proof_write B (protocol_state_proof h)) = Ok (protocol_state_proof h, [])" for b64 bs
    using laws pub ps unfolding publish_laws_def by blast+
  then show ?thesis
    by (simp add: header_from_precomputed_def precomputed_field_def placeholder_header_def Let_def j)
qed

lemma extract_cong:
  assumes "reads_state E v" and "protocol_state h1 = protocol_state h2"
    and "protocol_state_proof h1 = protocol_state_proof h2"
  shows "verify_and_extract E v h1 = verify_and_extract E v h2"
proof -
  have "verify_header E v h1 = verify_header E v h2" "header_try_hash E h1 = header_try_hash E h2"
    using assms unfolding reads_state_def by blast+
  moreover from this(2) assms(2) have "from_header E h1 = from_header E h2" by (simp add: from_header_def)
  ultimately show ?thesis by (cases "verify_header E v h2") (simp_all add: verify_and_extract_def)
qed

text \<open>C21. Publishing a captured block as precomputed JSON loses nothing that matters: for codecs that
  round-trip, what \<^verbatim>\<open>to_precomputed\<close> prints for a captured payload decodes to a header with the block's
  protocol state and proof, and verifying it returns exactly what verifying the captured block's own header
  returns, the same facts or the same refusal.\<close>

theorem published_block_roundtrip:
  assumes laws: "publish_laws J B" and reads: "reads_state E v"
    and payload: "read_file path = Ok payload" "block_from_gossip_payload W payload = Ok b"
    and run: "to_precomputed_main W B read_file (path # args) = Some (code, out)"
  shows "\<exists>json h. code = 0 \<and> out = [json] \<and> header_from_precomputed J json = Ok h \<and>
    protocol_state h = protocol_state (block_header b) \<and>
    protocol_state_proof h = protocol_state_proof (block_header b) \<and>
    verify_precomputed_and_extract E J v json = verify_and_extract E v (block_header b)"
proof -
  obtain j where j: "published_value B (block_header b) = Some j" and out: "code = 0" "out = [json_to_string B j]"
    using run payload by (auto simp: to_precomputed_main_def bind_eq_Some_conv)
  let ?h = "placeholder_header (protocol_state (block_header b)) (protocol_state_proof (block_header b))"
  have dec: "header_from_precomputed J (json_to_string B j) = Ok ?h"
    by (rule published_decodes [OF laws j])
  have sel: "protocol_state ?h = protocol_state (block_header b)"
    "protocol_state_proof ?h = protocol_state_proof (block_header b)"
    by (simp_all add: placeholder_header_def)
  have "verify_precomputed_and_extract E J v (json_to_string B j) = verify_and_extract E v (block_header b)"
    using dec extract_cong [OF reads sel] by (simp add: verify_precomputed_and_extract_def)
  then show ?thesis using out dec sel by blast
qed

text \<open>Sample codecs: a text is a height and a proof byte.\<close>

definition sample_codec_json :: "(nat, bool, unit) json_env" where
  "sample_codec_json =
     \<lparr>json_from_str = (\<lambda>s. case s of
          [c, d] \<Rightarrow> Ok (JObject [(''data'', JObject [(''protocol_state'', JNumber [c]), (''protocol_state_proof'', JString [d])])])
        | _ \<Rightarrow> Err ''malformed''),
      state_from_value = (\<lambda>j. case j of
          JNumber [c] \<Rightarrow> Ok (sample_state 10 (of_nat (of_char c)) 0) | _ \<Rightarrow> Err ''no state''),
      string_from_value = (\<lambda>j. case j of JString s \<Rightarrow> Ok s | _ \<Rightarrow> Err ''no string''),
      base64_decode = (\<lambda>s. Ok (map (\<lambda>c. of_nat (of_char c)) s)),
      proof_read = (\<lambda>bs. case bs of [] \<Rightarrow> Err ''eof'' | b # rest \<Rightarrow> Ok (b = 1, rest))\<rparr>"

definition sample_publish :: "(nat, bool, unit) publish_env" where
  "sample_publish =
     \<lparr>state_to_value = (\<lambda>ps.
        let n = unat (blockchain_length (consensus_state (ps_body ps)))
        in if n < 256 \<and> ps = sample_state 10 (of_nat n) 0 then Ok (JNumber [char_of n]) else Err ''other''),
      proof_write = (\<lambda>p. [if p then 1 else 0]),
      base64_encode = (\<lambda>bs. map (\<lambda>b. char_of (unat b)) bs),
      json_to_string = (\<lambda>j. case j of
          JObject [(_, JObject [(_, JNumber [c]), (_, JString [d])])] \<Rightarrow> [c, d] | _ \<Rightarrow> [])\<rparr>"

lemma byte_char: "of_nat (of_char (char_of (unat b) :: char)) = (b :: u8)"
proof -
  have "unat b < 256" using unsigned_less [of b, where 'a = nat] by simp
  then show ?thesis by (simp add: of_char_of)
qed

lemma sample_publish_laws: "publish_laws sample_codec_json sample_publish"
  unfolding publish_laws_def
proof (intro conjI allI impI)
  show "state_from_value sample_codec_json j = Ok s" if "state_to_value sample_publish s = Ok j" for s j
    using that by (auto simp: sample_publish_def sample_codec_json_def Let_def of_char_of split: if_splits)
  show "base64_decode sample_codec_json (base64_encode sample_publish bs) = Ok bs" for bs
    by (simp add: sample_publish_def sample_codec_json_def byte_char comp_def del: of_char_of)
  show "json_from_str sample_codec_json (json_to_string sample_publish j) = Ok j"
    if "published_value sample_publish h = Some j" for h j
    using that
    by (auto simp: sample_publish_def sample_codec_json_def published_value_def Let_def split: if_splits)
qed (simp_all add: sample_publish_def sample_codec_json_def)

lemma sample_reads_state: "reads_state sample_env v"
  by (simp add: reads_state_def verify_header_def sample_env_def)

theorem published_block_roundtrip_witness:
  "\<exists>json h. to_precomputed_main sample_wire sample_publish (\<lambda>_. Ok (sample_payload 0)) [''a''] = Some (0, [json]) \<and>
     header_from_precomputed sample_codec_json json = Ok h \<and>
     protocol_state h = protocol_state (sample_header True 10 2 0) \<and>
     verify_precomputed_and_extract sample_env sample_codec_json sample_verifier json =
       verify_and_extract sample_env sample_verifier (sample_header True 10 2 0)"
proof -
  have b: "block_from_gossip_payload sample_wire (sample_payload 0) = Ok (sample_block True 10 2)"
    by (simp add: sample_payload_block)
  obtain code out where run:
    "to_precomputed_main sample_wire sample_publish (\<lambda>_. Ok (sample_payload 0)) [''a''] = Some (code, out)"
    using b by (auto simp: to_precomputed_main_def published_value_def sample_publish_def Let_def
        sample_block_def sample_header_def sample_state_def)
  from published_block_roundtrip [OF sample_publish_laws sample_reads_state [of sample_verifier] _ b run] run
  show ?thesis by (auto simp: sample_block_def)
qed

section \<open>Sources\<close>

lemmas front_end_defs = verify_precomputed_def dispatch_def verify_body_def verify_precomputed_block_def
  verify_precomputed_and_extract_def

text \<open>C5. Verify before ingest, at every front end: for the verifier of an embedded key, the WebAssembly
  function, the verify endpoint of the server and \<^verbatim>\<open>verify_precomputed_block\<close> agree on every text, although
  each has its own way of reporting. The function returns facts exactly when the endpoint answers 200 with
  \<^verbatim>\<open>valid\<close> true, and then the proof of the decoded header was checked and accepted, and both hand out the
  same height and hashes, those of the header; it fails with a message exactly when the endpoint refuses
  with that message, with status 200 when the proof was rejected and 400 when the block did not decode or
  could not be hashed; it panics exactly when the endpoint answers 500.\<close>

theorem front_ends_agree:
  assumes "fst (for_network_offline E net g) = Ok v"
  shows "case verify_precomputed E J (state_hash_text T) (ledger_hash_text T) g net json of
      None \<Rightarrow> verify_precomputed_block E J v json = None \<and> fst (dispatch E J T v Post ''/verify'' json) = 500
    | Some (Inl msg) \<Rightarrow>
        \<exists>st. dispatch E J T v Post ''/verify'' json =
            (st, JObject [(''valid'', JBool False), (''error'', JString msg)]) \<and>
          (st = 200 \<and> verify_precomputed_block E J v json = Some (Ok False) \<or>
           st = 400 \<and> (\<exists>e. verify_precomputed_block E J v json = Some (Err e) \<and> msg = verifier_error_text e) \<or>
           st = 400 \<and> verify_precomputed_block E J v json = Some (Ok True) \<and>
             (\<exists>e. msg = verifier_error_text (BlockDecode e)))
    | Some (Inr out) \<Rightarrow>
        \<exists>h js sh. header_from_precomputed J json = Ok h \<and> verify_header E v h = Some True \<and>
          header_try_hash E h = Ok sh \<and> verify_precomputed_block E J v json = Some (Ok True) \<and>
          dispatch E J T v Post ''/verify'' json = (200, js) \<and> json_get js ''valid'' = Some (JBool True) \<and>
          map (json_get js) [''height'', ''state_hash'', ''previous_state_hash'', ''staged_ledger_hash''] =
            map Some [JNumber (show_nat (unat (blockchain_length (header_consensus h)))),
              JString (state_hash_text T sh), JString (state_hash_text T (previous_state_hash (protocol_state h))),
              JString (ledger_hash_text T (header_staged_root h))] \<and>
          map (json_get out) [''height'', ''stateHash'', ''previousStateHash'', ''stagedLedgerHash''] =
            map (json_get js) [''height'', ''state_hash'', ''previous_state_hash'', ''staged_ledger_hash'']"
proof (cases "header_from_precomputed J json")
  case (Inl e)
  then obtain m where "e = InvalidIndexJson m" using header_from_precomputed_Err by blast
  then show ?thesis using assms Inl by (simp add: front_end_defs)
next
  case (Inr h)
  consider "verify_header E v h = None" | "verify_header E v h = Some False"
    | m where "verify_header E v h = Some True" "header_try_hash E h = Err m"
    | sh where "verify_header E v h = Some True" "header_try_hash E h = Ok sh"
    by (cases "verify_header E v h"; cases "header_try_hash E h") auto
  then show ?thesis by cases (use assms Inr in \<open>simp_all add: front_end_defs verify_and_extract_def from_header_def\<close>)
qed

theorem front_ends_agree_witness:
  "\<exists>out. verify_precomputed sample_env sample_json_env show_nat show_nat sample_globals ''mainnet'' ''A'' = Some (Ok out) \<and>
     json_get out ''height'' = Some (JNumber (show_nat 65)) \<and>
     fst (dispatch sample_env sample_json_env sample_text \<lparr>network = ''mainnet'', index = finalize sample_kimchi sample_index\<rparr>
       Post ''/verify'' ''A'') = 200"
proof -
  let ?v = "\<lparr>network = ''mainnet'', index = finalize sample_kimchi sample_index\<rparr>"
  have build: "fst (for_network_offline sample_env ''mainnet'' sample_globals) = Ok ?v"
    by (simp add: for_network_offline_def embedded_index_json_def with_index_json_def sample_env_def
        verifier_index_from_json_def sample_kimchi_def)
  obtain h where h: "header_from_precomputed sample_json_env ''A'' = Ok h" "verify_header sample_env ?v h = Some True"
    "unat (blockchain_length (header_consensus h)) = 65" "\<exists>sh. header_try_hash sample_env h = Ok sh"
    by (simp add: header_from_precomputed_def precomputed_field_def sample_json_env_def sample_block_json_def
        verify_header_def sample_env_def sample_defs Let_def)
  then obtain out where out:
    "verify_precomputed sample_env sample_json_env show_nat show_nat sample_globals ''mainnet'' ''A'' = Some (Ok out)"
    using build by (auto simp: front_end_defs verify_and_extract_def from_header_def)
  show ?thesis
    using front_ends_agree [OF build, where J = sample_json_env and T = sample_text and json = "''A''"] out h
    by (auto simp: sample_text_def)
qed

text \<open>C14. Whatever a block source yields was proved: the facts \<^verbatim>\<open>verify_from\<close> returns are those of a header
  whose proof the verifier checked and accepted; for a JSON source the header is the decoded one, and for
  a live node it is the header of the best tip received on a stream negotiated with a peer of the named
  network.\<close>

theorem verify_from_sound:
  assumes "verify_from E J T P K M v src = Some (Ok vb)"
  shows "\<exists>h. verify_header E v h = Some True \<and> from_header E h = Ok vb \<and>
    (case src of
       Precomputed json \<Rightarrow> header_from_precomputed J json = Ok h
     | Node net deadline \<Rightarrow> \<exists>chain_id peers addrs sw s c b. network_seeds net = Some (chain_id, peers) \<and>
         client_swarm T chain_id peers = Some (addrs, sw) \<and>
         (c, s) \<in> set (negotiated (net_run (P sw deadline) net_start)) \<and>
         rpc_best_tip K M s = Completes (Ok b) \<and> h = block_header b)"
proof -
  obtain h where h: "verify_header E v h = Some True" "from_header E h = Ok vb"
    and src: "case src of
       Precomputed json \<Rightarrow> header_from_precomputed J json = Ok h
     | Node net deadline \<Rightarrow> \<exists>chain_id peers b. network_seeds net = Some (chain_id, peers) \<and>
         fetch_best_tip T P K M chain_id peers deadline = Some (Ok b) \<and> h = block_header b"
    using verify_from_Ok [OF assms] by blast
  show ?thesis
  proof (cases src)
    case (Precomputed json)
    then show ?thesis using h src by auto
  next
    case (Node net deadline)
    then obtain chain_id peers b where b: "network_seeds net = Some (chain_id, peers)"
      "fetch_best_tip T P K M chain_id peers deadline = Some (Ok b)" "h = block_header b"
      using src by auto
    obtain addrs sw s where s: "client_swarm T chain_id peers = Some (addrs, sw)"
      "first_stream (P sw deadline) = Some s" "rpc_best_tip K M s = Completes (Ok b)"
      using fetch_best_tip_Ok [OF b(2)] by blast
    obtain c where "(c, s) \<in> set (negotiated (net_run (P sw deadline) net_start))"
      using first_stream_negotiated [OF s(2)] by blast
    then show ?thesis using h b(1,3) s(1,3) Node by auto
  qed
qed

text \<open>A node with one connection, which negotiates one stream and answers with a block.\<close>

definition sample_block_method :: "(unit, ((nat, bool, unit) block, unit) proof_carrying option) rpc_method" where
  "sample_block_method =
     \<lparr>rm_name = ''get_best_tip'', rm_version = 2, query_write = (\<lambda>_. []),
      response_read = (\<lambda>bs. Ok (Ok (Some \<lparr>pc_data = sample_block True 10 2, pc_proof = ()\<rparr>), bs))\<rparr>"

definition sample_node :: "(string, nat) libp2p" where
  "sample_node sw deadline =
     [Established 0, PollHandler 0,
      Negotiated 0 (sample_stream (frame sample_codec_rpc Heartbeat [] @ frame sample_codec_rpc (Response 1) [])),
      PollHandler 0, PollBehaviour]"

lemma sample_node_stream:
  "first_stream (sample_node sw 90) =
     Some (sample_stream (frame sample_codec_rpc Heartbeat [] @ frame sample_codec_rpc (Response 1) []))"
  by (simp add: first_stream_def sample_node_def net_run_def net_start_def poll_connection_cases
      handle_established_connection_def handler_default_def behaviour_poll_def)

lemma sample_node_tip:
  "rpc_best_tip sample_codec_rpc sample_block_method
     (sample_stream (frame sample_codec_rpc Heartbeat [] @ frame sample_codec_rpc (Response 1) [])) =
   Completes (Ok (sample_block True 10 2))"
proof -
  have "header_codec sample_codec_rpc {Response QUERY_ID}" "passed_over sample_codec_rpc QUERY_ID [(Heartbeat, [])]"
    using sample_header_codec by (simp_all add: header_codec_def passed_over_def sample_fits)
  then show ?thesis
    using rpc_best_tip_response [of sample_codec_rpc "[(Heartbeat, [])]" "[]" sample_block_method
        "\<lparr>pc_data = sample_block True 10 2, pc_proof = ()\<rparr>" "[]"
        "sample_stream (frame sample_codec_rpc Heartbeat [] @ frame sample_codec_rpc (Response 1) [])" "[]"]
    by (simp add: sample_fits sample_block_method_def sample_stream_def frames_def QUERY_ID_def)
qed

theorem verify_from_sound_witness:
  "\<exists>addrs sw s c b. client_swarm sample_transport DEVNET_CHAIN_ID DEVNET_PEERS = Some (addrs, sw) \<and>
     (c, s) \<in> set (negotiated (net_run (sample_node sw 90) net_start)) \<and>
     rpc_best_tip sample_codec_rpc sample_block_method s = Completes (Ok b) \<and>
     verify_header sample_env sample_verifier (block_header b) = Some True"
proof -
  have seeds: "network_seeds ''devnet'' = Some (DEVNET_CHAIN_ID, DEVNET_PEERS)" by (simp add: network_seeds_def)
  obtain addrs sw where "client_swarm sample_transport DEVNET_CHAIN_ID DEVNET_PEERS = Some (addrs, sw)"
    using sample_client_swarm [of DEVNET_CHAIN_ID DEVNET_PEERS] by auto
  then have "fetch_best_tip sample_transport sample_node sample_codec_rpc sample_block_method
      DEVNET_CHAIN_ID DEVNET_PEERS 90 = Some (Ok (sample_block True 10 2))"
    by (simp add: fetch_best_tip_def on_stream_def with_deadline_def sample_node_stream sample_node_tip)
  moreover obtain vb where "verify_and_extract sample_env sample_verifier (block_header (sample_block True 10 2)) = Some (Ok vb)"
    by (simp add: verify_and_extract_def verify_header_def from_header_def sample_env_def sample_defs)
  ultimately have "verify_from sample_env sample_json_env sample_transport sample_node sample_codec_rpc
      sample_block_method sample_verifier (Node ''devnet'' 90) = Some (Ok vb)"
    by (simp add: verify_from_def seeds)
  from verify_from_sound [OF this] show ?thesis using seeds by auto
qed

end
