(* ===== verification/Spec2Isabelle.thy ===== *)
theory Spec2Isabelle
  imports Canonical MonitorCorrect AccountCorrect UnitTests PrecomputedTests ServerPool Bench ExamplesCorrect
begin

text \<open>
  A verification of \<^verbatim>\<open>mina-verify\<close>, a library and a set of programs that check Mina blocks without trusting
  whoever supplies them. This theory collects the development and states the properties that span its
  components.

  \<^bold>\<open>The program.\<close> \<^verbatim>\<open>src/crates/mina-verify\<close> is the library. A \<^verbatim>\<open>Verifier\<close> holds the verification key of one
  network and checks the proof of a block header (\<^verbatim>\<open>lib.rs\<close>, \<^verbatim>\<open>verifier_index.rs\<close>); a checked block becomes a
  \<^verbatim>\<open>VerifiedTip\<close>, tips are compared by the fork-choice rule (\<^verbatim>\<open>fork_choice.rs\<close>), and a \<^verbatim>\<open>ChainMonitor\<close>
  keeps a bounded window of them and classifies each new one (\<^verbatim>\<open>monitor.rs\<close>). An account is read from an
  untrusted peer by a plan of queries whose answers are folded to a ledger root of a checked block
  (\<^verbatim>\<open>account_read.rs\<close>, \<^verbatim>\<open>account.rs\<close>). Blocks also come as JSON (\<^verbatim>\<open>precomputed.rs\<close>), and an indexer gets
  the facts of a block only after its proof was checked (\<^verbatim>\<open>ingest.rs\<close>). Around the library,
  \<^verbatim>\<open>mina-verify-capture\<close> is the network client (gossip, RPC), \<^verbatim>\<open>mina-verify-monitor\<close> and
  \<^verbatim>\<open>mina-verify-cli\<close> feed the monitor from the network and from files, \<^verbatim>\<open>mina-verify-server\<close> answers HTTP
  requests, and \<^verbatim>\<open>mina-verify-wasm\<close> exports one function.

  \<^bold>\<open>The theories.\<close> Each models the file named, definition by definition, in the order of the file;
  the theories whose names end in \<^verbatim>\<open>Correct\<close>, and this one, hold the properties.

  \<^item> \<open>Prelude\<close>: results, panics and runs; checked 64-bit arithmetic; reachable states and the locales
    \<open>safe_machine\<close>, which every state machine below interprets, \<open>finishing_machine\<close> for those that come
    to an end, and \<open>fifo\<close> for the queues of streams and blocks between components. \<open>Block\<close>: the fields of a block that the
    sources read. \<open>Samples\<close>: the concrete blocks of the witnesses.
  \<^item> \<open>VerifierIndex\<close>, \<open>Verifier\<close>, \<open>ForkChoice\<close>; \<open>VerifierCorrect\<close>: finalizing a key recomputes every derived
    field; a process builds verifiers for one network only; what \<^verbatim>\<open>for_network\<close> returns on every branch; the
    offline way agrees with it; \<^verbatim>\<open>select_canonical\<close> returns an unbeaten tip.
  \<^item> \<open>ChainMonitor\<close> is \<^verbatim>\<open>monitor.rs\<close>. \<open>Window\<close>: eviction, with the locale \<open>bounded_store\<close> for what the window
    promises. \<open>Ancestry\<close>: ancestors in a window and the correctness of the two-cursor walk. \<open>Monitor\<close>: the
    invariant and the outcomes of ingestion, single and in sequence. \<open>Canonical\<close>: the monitor against
    \<^verbatim>\<open>select_canonical\<close>. \<open>MonitorCorrect\<close>: the lowest common ancestor, the classification, the depth of a
    reorganisation, eviction of the oldest, totality, absence of panics, the refinement of an abstract
    fork-choice register, and what goes wrong at capacity one.
  \<^item> \<open>Account\<close>, \<open>AccountRead\<close>; \<open>LedgerPeer\<close> and \<open>Sweep\<close>: a ledger as a tree, a peer that serves it (the one of
    the unit tests), the assembly of paths, and sweeps; \<open>AccountCorrect\<close>: an accepted account is the
    ledger's or a hash collision is exhibited, honest peers are accepted, which error is returned when,
    and sweeps reconstruct the account list. \<open>UnitTests\<close>, \<open>PrecomputedTests\<close>: the unit tests in the sources,
    shown for all ledgers and fixtures.
  \<^item> \<open>Precomputed\<close> (with \<^verbatim>\<open>ingest.rs\<close>) and the locale \<open>verify_gate\<close>, interpreted by every gate of the sources
    that lets a block through; \<open>Utf8\<close>, \<open>Server\<close>; \<open>ServerCorrect\<close>: the answer of the endpoint in every case, the
    cap on bodies, the type of every response against the documentation; \<open>ServerPool\<close>:
    the worker threads answer every request exactly once in every interleaving, and all of them as long
    as a worker is left. \<open>Bench\<close>: the benchmark and the statistics it reports.
  \<^item> \<open>RpcWire\<close> is \<^verbatim>\<open>rpc.rs\<close>, \<open>Transport\<close> is \<^verbatim>\<open>transport.rs\<close>, with the layers of the transport as a term, \<open>Socket\<close> its
    socket wrapper, shown to be invisible to the multiplexer and to log exactly the traffic, \<open>RpcNet\<close> is
    \<^verbatim>\<open>rpc_net.rs\<close> with the libp2p callbacks as steps; \<open>RpcCorrect\<close>: a call finds its response, a call ends
    when the stream ends, one stream per connection and none gets stuck, and the crash on a hostile length.
  \<^item> \<open>Source\<close> (\<^verbatim>\<open>source.rs\<close>, the networks, the WebAssembly function), \<open>Gossip\<close> (subscription and capture),
    \<open>LiveMonitor\<close> and \<open>Cli\<close>; \<open>GossipCorrect\<close> and \<open>BinariesCorrect\<close>: only proved blocks enter the live
    monitor's window, the worker refines ingestion and stays up, every interleaving of the two threads
    ends with the sequential result, exit code 0 means that every file was proved. \<open>Examples\<close>,
    \<open>ExamplesCorrect\<close>: the example programs; publishing a block and decoding it again; sources; the agreement
    of the front ends on which precomputed blocks are let through.

  \<^bold>\<open>How the code is read.\<close> A struct is a record, an enum a datatype, \<^verbatim>\<open>Result\<close> a sum (\<^verbatim>\<open>Err\<close> left), a hash map a
  mapping, a deque a list. \<^verbatim>\<open>u8\<close>, \<^verbatim>\<open>u32\<close> and \<^verbatim>\<open>u64\<close> are words; \<^verbatim>\<open>usize\<close>, which only counts and indexes objects
  in memory, is a natural number with subtraction checked. In account reads the arithmetic is that of the
  build, a parameter: with overflow checks an overflow, an over-wide shift and a negative difference are
  panics, without them (a release build) they wrap around. Elsewhere, where only counters of 64 bits could
  overflow, it is that of a build with overflow checks. A panic is the value
  \<^term>\<open>None\<close> where the code otherwise terminates, and the result \<open>Panics\<close> or \<open>Crashes\<close> where it may also
  run for ever or wait. Strings are lists of bytes. The two walks of \<^verbatim>\<open>common_ancestor\<close> are partial
  functions, since a window with a cycle of parents would make them loop; that they end on the windows of
  a chain is proved. Every other loop terminates by a measure. No fuel is used;
  a session on a socket is cut after an arbitrary number of calls.

  \<^bold>\<open>External code\<close> is a parameter of the definitions, grouped in records: the proof system and the state hash
  (\<open>mina_env\<close>, \<open>kimchi_env\<close>), the network configuration (\<open>netcfg_env\<close>), binprot and JSON codecs (\<open>wire_env\<close>,
  \<open>json_env\<close>, \<open>rpc_codec\<close>, \<open>rpc_method\<close>, \<open>publish_env\<close>), the fork-choice rule (\<open>consensus_env\<close>), hashing and
  accounts (\<open>ledger_env\<close>), the operating system (\<open>os_env\<close>, \<open>fs_env\<close>), the HTTP library (\<open>http_env\<close>),
  libp2p (\<open>transport_env\<close>, \<open>libp2p\<close>) and the sockets below it (\<open>async_socket\<close>, \<open>logger\<close>).
  A peer is the function \<open>st_peer\<close> of a stream, from what the client writes to what is sent in return.
  What a property relies on is a named hypothesis: \<open>netcfg_laws\<close> (the configuration is set once),
  \<open>codec_laws\<close>, \<open>header_codec\<close>, \<open>answers_decode\<close> and \<open>publish_laws\<close> (decoders undo encoders), \<open>addresses_total\<close>
  (addresses can be made up to the depth), \<open>answers_queries\<close> (a peer answers what it is asked), \<open>tip_linked\<close> (a
  block's height is one more than its parent's), \<open>strict_on\<close> (fork choice is a strict order),
  \<open>reads_state\<close> (which fields the proof check reads), \<open>honest_socket\<close> (no more is transferred than
  fits). Nothing is assumed of the hash function: where its collision resistance matters, the property
  exhibits the collision.

  \<^bold>\<open>Bounds.\<close> The monitor's invariant needs a capacity of at least two (the programs use 512); account reads are
  total for depths below 64 in every build (the ledger has 35). The witnesses use small blocks and windows.

  \<^bold>\<open>Not modelled.\<close> What the layers of libp2p do, the HTTP socket, the rendering of a JSON value, of durations and of
  floating-point numbers, which are calls into libraries; the writing of debug dumps; log lines and
  messages on the error output, except the monitor's report, the socket's traffic and the server's
  warning about a response it could not send.
\<close>

section \<open>The monitor and fork choice\<close>

text \<open>C7. The monitor tracks the tip that \<^verbatim>\<open>select_canonical\<close> selects: for different tips fed in some order
  to a monitor of capacity at least two, where fork choice prefers a block to its parent, the best tip of
  the monitor is the one \<^verbatim>\<open>select_canonical\<close> picks from the whole list, although the window may have
  dropped most of it.\<close>

theorem monitor_selects_canonical:
  assumes "2 \<le> cap" and "distinct (map (tip_key C) tips)"
    and child: "\<And>p c. \<lbrakk>p \<in> set tips; c \<in> set tips; tip_prev_key C c = tip_key C p\<rbrakk> \<Longrightarrow> prefers_candidate C p c"
    and run: "ingest_all C tips (new cap) = Returns (outs, m)"
  shows "best_node m = map_option (\<lambda>w. tip_node C (tips ! w)) (select_canonical C tips)"
proof (cases tips)
  case Nil
  then show ?thesis using run by (auto simp: select_canonical_def best_node_def new_def)
next
  case (Cons t ts)
  have ok: "monitor_ok C (new cap)" using assms(1) by (rule monitor_ok_new)
  obtain out outs' m1 where r: "ingest C t (new cap) = Returns (out, m1)" "ingest_all C ts m1 = Returns (outs', m)"
    using ingest_all_Cons run Cons by metis
  have "out \<noteq> Duplicate" by (rule ingest_new_not_duplicate [OF ok r(1)]) (simp add: new_def)
  then have best: "best_node m1 = Some (tip_node C t)"
    using best_node_ingest [OF ok r(1)] by (simp add: register_step_def best_node_def new_def)
  have "tip_key C ` set ts \<inter> Mapping.keys (nodes m1) = {}"
    by (rule fresh_grow [OF ingest_keys [OF ok r(1)]]) (use assms(2) Cons in \<open>auto simp: new_def\<close>)
  note disj = this
  have "best_node m = Some (tip_node C (foldl (pick C) t ts))"
  proof (rule ingest_all_pick [where S = "set tips", OF _ monitor_ok_ingest [OF ok r(1)] best _ _ _ disj r(2)])
    show "prefers_candidate C p c" if "p \<in> set tips" "c \<in> set tips" "tip_prev_key C c = tip_key C p" for p c
      using that by (rule child)
  qed (use assms(2) Cons in auto)
  moreover obtain w where "select_canonical C tips = Some w" using Cons by (simp add: select_canonical_def)
  ultimately show ?thesis using select_canonical_pick [of C t ts w] Cons by simp
qed

theorem monitor_selects_canonical_witness:
  "\<exists>outs m. ingest_all sample_consensus sample_tips (new 2) = Returns (outs, m) \<and>
     best_node m = Some (tip_node sample_consensus (sample_tip 31 21 3))"
proof -
  have linked: "\<forall>t \<in> set sample_tips. tip_linked sample_consensus sample_height t"
    by (simp add: sample_tips_def sample_linked)
  have "feed_ok sample_consensus sample_height (new 2)"
    by (simp add: feed_ok_def monitor_ok_new chain_heights_new)
  then obtain outs m where run: "ingest_all sample_consensus sample_tips (new 2) = Returns (outs, m)"
    using ingest_all_total [OF _ linked] by blast
  have keys: "distinct (map (tip_key sample_consensus) sample_tips)" by code_simp
  have child: "prefers_candidate sample_consensus p c"
    if "p \<in> set sample_tips" "c \<in> set sample_tips" "tip_prev_key sample_consensus c = tip_key sample_consensus p" for p c
  proof -
    have "\<forall>p \<in> set sample_tips. \<forall>c \<in> set sample_tips.
        tip_prev_key sample_consensus c = tip_key sample_consensus p \<longrightarrow> prefers_candidate sample_consensus p c"
      by code_simp
    then show ?thesis using that by blast
  qed
  have "best_node m = map_option (\<lambda>w. tip_node sample_consensus (sample_tips ! w))
      (select_canonical sample_consensus sample_tips)"
    by (rule monitor_selects_canonical [OF _ keys _ run]) (simp, rule child)
  moreover have "select_canonical sample_consensus sample_tips = Some 3" by code_simp
  moreover have "sample_tips ! 3 = sample_tip 31 21 3" by (simp add: sample_tips_def)
  ultimately show ?thesis using run by simp
qed

section \<open>Reading an account over the network\<close>

text \<open>C6. Reading an account end to end: the query plan of an account, fetched over the RPC connection of a
  peer that answers each query it is sent about the root of its ledger from that ledger, is answered in
  full, and the account is verified against the root and returned. The peer reacts to the bytes the client
  writes, so this takes the right queries about the right root, framed with their ids; it may send its
  handshake, heartbeats and other frames in between. Whatever peer answers, and whatever it answers, a
  fetch that succeeds brings as many answers as the plan has queries, so the read never fails on their
  number.\<close>

theorem account_read_over_rpc:
  assumes "codec_laws L W" and "perfect depth t" and "unat idx < 2 ^ depth"
    and "slot_at t (index_bits depth idx) = Some a" and d: "depth < 64"
    and plan: "sync_ledger_queries L idx depth = Some queries"
    and root: "root = of_field W (tree_hash L eh t)"
    and swarm: "client_swarm T chain_id peers = Some (addrs, sw)" "first_stream (P sw deadline) = Some s"
    and codec: "header_codec K (range Response)" and peer: "answers_queries K M enc f s"
    and serves: "\<forall>q. f (root, q) = Ok (serve L eh W t q)"
    and decode: "answers_decode K M enc ((\<lambda>q. Ok (serve L eh W t q)) ` set queries)"
    and "st_write_error s = None"
  shows "(\<exists>answers. fetch_sync_ledger_answers T P K M chain_id peers root queries deadline = Some (Ok answers) \<and>
      verify_account_at_root L root idx depth answers = Some (Ok a)) \<and>
    (\<forall>P' root' answers n k.
      fetch_sync_ledger_answers T P' K M chain_id peers root' queries deadline = Some (Ok answers) \<longrightarrow>
      verify_account_at_root L root' idx depth answers \<noteq> Some (Err (AnswerCountMismatch n k)))"
proof -
  have len: "length queries = depth + 1" using plan_exists [OF assms(1,3) d] plan by auto
  have "ledger_session K M root queries s = Completes (Ok (map (serve L eh W t) queries))"
    by (rule ledger_session_answered [OF codec peer decode]) (use serves assms(14) len d in simp_all)
  then have "fetch_sync_ledger_answers T P K M chain_id peers root queries deadline =
      Some (Ok (map (serve L eh W t) queries))"
    using swarm by (simp add: fetch_sync_ledger_answers_def on_stream_def with_deadline_def)
  then have "\<exists>answers. fetch_sync_ledger_answers T P K M chain_id peers root queries deadline = Some (Ok answers) \<and>
      verify_account_at_root L root idx depth answers = Some (Ok a)"
    using verify_account_served [OF assms(1-6)] root by blast
  moreover have "verify_account_at_root L root' idx depth answers \<noteq> Some (Err (AnswerCountMismatch n k))"
    if "fetch_sync_ledger_answers T P' K M chain_id peers root' queries deadline = Some (Ok answers)"
    for P' root' answers n k
    using verify_account_count fetch_length [OF that] len by simp
  ultimately show ?thesis by blast
qed

text \<open>A wire format for the witness, and the peer that reads the queries off the bytes it is sent. A root is
  written in unary.\<close>

definition sample_answer_bytes :: "((nat, nat) sync_answer, string) result \<Rightarrow> bytes" where
  "sample_answer_bytes r =
     (case r of
        Inr (ChildHashesAre l r) \<Rightarrow> [1, of_nat l, of_nat r]
      | Inr (ContentsAre accounts) \<Rightarrow> 2 # map of_nat accounts
      | _ \<Rightarrow> [])"

fun sample_query_bytes :: "nat \<times> bool list sync_query \<Rightarrow> bytes" where
  "sample_query_bytes (root, WhatChildHashes d) = replicate root 1 @ 0 # 1 # map of_bool d"
| "sample_query_bytes (root, WhatContents d) = replicate root 1 @ 0 # 2 # map of_bool d"
| "sample_query_bytes (root, NumAccounts) = replicate root 1 @ [0, 3]"

definition sample_query_read :: "bytes \<Rightarrow> nat \<times> bool list sync_query" where
  "sample_query_read bs =
     (length (takeWhile (\<lambda>b. b = 1) bs),
      case dropWhile (\<lambda>b. b = 1) bs of
        _ # tag # d \<Rightarrow>
          if tag = 1 then WhatChildHashes (map (\<lambda>b. b = 1) d)
          else if tag = 2 then WhatContents (map (\<lambda>b. b = 1) d)
          else NumAccounts
      | _ \<Rightarrow> NumAccounts)"

definition sample_sync_method ::
  "(nat \<times> bool list sync_query, ((nat, nat) sync_answer, string) result) rpc_method" where
  "sample_sync_method =
     \<lparr>rm_name = ''answer_sync_ledger_query'', rm_version = 2, query_write = sample_query_bytes,
      response_read = (\<lambda>bs. case bs of
          [] \<Rightarrow> Ok (Ok (Err ''unknown ledger''), [])
        | b # rest \<Rightarrow>
            if b = 1 then Ok (Ok (Ok (ChildHashesAre (unat (rest ! 0)) (unat (rest ! 1)))), drop 2 rest)
            else Ok (Ok (Ok (ContentsAre (map unat rest))), []))\<rparr>"

definition sample_root :: nat where
  "sample_root = tree_hash sample_ledger_env 0 sample_ledger"

definition sample_answer :: "nat \<times> bool list sync_query \<Rightarrow> ((nat, nat) sync_answer, string) result" where
  "sample_answer rq =
     (if fst rq = sample_root then Ok (serve sample_ledger_env 0 sample_codec sample_ledger (snd rq))
      else Err ''unknown ledger'')"

text \<open>The peer sends its handshake in return for the client's, and a heartbeat ahead of each answer.\<close>

definition sample_peer :: "bytes \<Rightarrow> bytes \<Rightarrow> bytes" where
  "sample_peer out bs =
     (case drop 8 bs of
        b # rest \<Rightarrow>
          if b = 2 then
            frame sample_codec_rpc Heartbeat [] @
            frame sample_codec_rpc (Response (from_le (take 8 rest)))
              (sample_answer_bytes (sample_answer (sample_query_read (drop 8 rest))))
          else handshake_bytes sample_codec_rpc
      | [] \<Rightarrow> [])"

definition sample_ledger_stream :: stream where
  "sample_ledger_stream = (sample_stream [])\<lparr>st_peer := sample_peer\<rparr>"

definition sample_ledger_node :: "(string, nat) libp2p" where
  "sample_ledger_node sw deadline =
     [Established 0, PollHandler 0, Negotiated 0 sample_ledger_stream, PollHandler 0, PollBehaviour]"

lemma sample_query_read: "sample_query_read (sample_query_bytes rq) = rq"
proof -
  have root: "takeWhile (\<lambda>b. b = 1) (replicate n 1 @ 0 # xs) = replicate n (1 :: u8)"
    "dropWhile (\<lambda>b. b = 1) (replicate n 1 @ 0 # xs) = (0 :: u8) # xs" for n xs
    by (induction n) auto
  have bits: "map ((\<lambda>b. b = (1 :: u8)) \<circ> of_bool) d = d" for d by (induction d) auto
  show ?thesis by (cases rq rule: sample_query_bytes.cases) (auto simp: sample_query_read_def root bits)
qed

lemma sample_answers_queries:
  "answers_queries sample_codec_rpc sample_sync_method sample_answer_bytes sample_answer sample_ledger_stream"
proof -
  have codec: "header_codec sample_codec_rpc {Heartbeat}" "header_codec sample_codec_rpc {Response j}" for j
    using sample_header_codec by (simp_all add: header_codec_def)
  have hello: "sample_peer [] (handshake_bytes sample_codec_rpc) = handshake_bytes sample_codec_rpc"
    by (simp add: sample_peer_def handshake_bytes_def frame_def sample_codec_rpc_def)
  have query: "sample_peer out (query_bytes sample_codec_rpc sample_sync_method rq i) =
      frame sample_codec_rpc Heartbeat [] @
      frame sample_codec_rpc (Response i) (sample_answer_bytes (sample_answer rq))" for out rq i
    by (simp add: sample_peer_def query_bytes_def frame_def sample_codec_rpc_def sample_sync_method_def from_to_le
        take_drop_le sample_query_read del: take_append drop_append)
  have "passed_over sample_codec_rpc QUERY_ID [(Response HANDSHAKE_ID, [1])]"
    using codec(2) by (simp add: passed_over_def sample_fits QUERY_ID_def HANDSHAKE_ID_def)
  moreover have "passed_over sample_codec_rpc i [(Heartbeat, [])]" for i
    using codec(1) by (simp add: passed_over_def sample_fits)
  moreover have "st_input sample_ledger_stream @ st_peer sample_ledger_stream (st_output sample_ledger_stream)
      (handshake_bytes sample_codec_rpc) = frames sample_codec_rpc [(Response HANDSHAKE_ID, [1])]"
    using hello by (simp add: sample_ledger_stream_def sample_stream_def frames_def handshake_bytes_def)
  moreover have "st_peer sample_ledger_stream out (query_bytes sample_codec_rpc sample_sync_method rq i) =
      frames sample_codec_rpc [(Heartbeat, [])] @
      frame sample_codec_rpc (Response i) (sample_answer_bytes (sample_answer rq))" for out rq i
    using query by (simp add: sample_ledger_stream_def frames_def)
  ultimately show ?thesis unfolding answers_queries_def by blast
qed

theorem account_read_over_rpc_witness:
  "\<exists>queries answers. sync_ledger_queries sample_ledger_env 2 2 = Some queries \<and>
     fetch_sync_ledger_answers sample_transport sample_ledger_node sample_codec_rpc sample_sync_method
       DEVNET_CHAIN_ID DEVNET_PEERS sample_root queries 90 = Some (Ok answers) \<and>
     verify_account_at_root sample_ledger_env sample_root 2 2 answers = Some (Ok 3)"
proof -
  obtain queries where plan: "sync_ledger_queries sample_ledger_env 2 2 = Some queries"
    using plan_exists [OF sample_codec_laws, of 2 2] by auto
  have slot: "slot_at sample_ledger (index_bits 2 2) = Some 3" by code_simp
  obtain addrs sw where swarm: "client_swarm sample_transport DEVNET_CHAIN_ID DEVNET_PEERS = Some (addrs, sw)"
    using sample_client_swarm [of DEVNET_CHAIN_ID DEVNET_PEERS] by auto
  have served: "map (serve sample_ledger_env 0 sample_codec sample_ledger) queries = sample_answers"
    by (simp add: sample_answers_def plan)
  have answers: "sample_answers = [ChildHashesAre 5 3, ChildHashesAre 3 0, ContentsAre [3]]" by code_simp
  have results: "(\<lambda>q. Ok (serve sample_ledger_env 0 sample_codec sample_ledger q)) ` set queries = Ok ` set sample_answers"
    unfolding served [symmetric] by (simp add: image_image)
  have dec: "answers_decode sample_codec_rpc sample_sync_method sample_answer_bytes
      ((\<lambda>q. Ok (serve sample_ledger_env 0 sample_codec sample_ledger q)) ` set queries)"
    unfolding results answers by (simp add: answers_decode_def sample_sync_method_def sample_answer_bytes_def sample_fits)
  have codec: "header_codec sample_codec_rpc (range Response)"
    using sample_header_codec by (simp add: header_codec_def)
  have stream: "first_stream (sample_ledger_node sw 90) = Some sample_ledger_stream"
    by (simp add: first_stream_def sample_ledger_node_def net_run_def net_start_def poll_connection_cases
        handle_established_connection_def handler_default_def behaviour_poll_def)
  have root: "sample_root = of_field sample_codec (tree_hash sample_ledger_env 0 sample_ledger)"
    by (simp add: sample_root_def sample_codec_def)
  have "\<exists>answers. fetch_sync_ledger_answers sample_transport sample_ledger_node sample_codec_rpc sample_sync_method
       DEVNET_CHAIN_ID DEVNET_PEERS sample_root queries 90 = Some (Ok answers) \<and>
     verify_account_at_root sample_ledger_env sample_root 2 2 answers = Some (Ok 3)"
    by (rule account_read_over_rpc [where P = sample_ledger_node, THEN conjunct1, OF sample_codec_laws
          sample_ledger_perfect _ slot _ plan root swarm stream codec sample_answers_queries _ dec])
      (simp_all add: sample_answer_def sample_ledger_stream_def sample_stream_def)
  then show ?thesis using plan by blast
qed

end
